theory Spec2Isabelle
  imports Main
begin

section \<open>Values, views and the collaborators of AnimatedProps\<close>

text \<open>
  A property value is a JavaScript value. The three classes the code tests with
  \<^verbatim>\<open>instanceof\<close> are constructors of their own:
  \<^item> \<open>AnimatedNode n\<close> is an instance of AnimatedNode that is not an AnimatedStyle,
    \<open>n\<close> being the identity of the object;
  \<^item> \<open>AnimatedStyle n style\<close> is an AnimatedStyle instance (a subclass of AnimatedNode)
    built over \<open>style\<close>;
  \<^item> \<open>AnimatedEvent rest attached\<close> is an AnimatedEvent whose own field
    \<^verbatim>\<open>_attachedEvent\<close> holds \<open>attached\<close> and whose other own fields (among them
    \<^verbatim>\<open>__isNative\<close>) are \<open>rest\<close>.
  Everything else is a plain value.
\<close>

datatype jsval =
    Undefined
  | Null
  | Bool bool
  | Num int
  | Str string
  | Arr "jsval list"
  | Obj "(string \<times> jsval) list"
  | AnimatedNode nat
  | AnimatedStyle nat jsval
  | AnimatedEvent "(string \<times> jsval) list" jsval

type_synonym key = string

text \<open>A property bag: the own enumerable properties of an object, in the order of
  \<^verbatim>\<open>Object.keys\<close>.\<close>

type_synonym bag = "(key \<times> jsval) list"

text \<open>\<^verbatim>\<open>object[key]\<close>: the value of the property, \<^verbatim>\<open>undefined\<close> when there is none
  (no key of a bag is the name of a member of \<^verbatim>\<open>Object.prototype\<close>).\<close>

definition get :: "bag \<Rightarrow> key \<Rightarrow> jsval" where
  "get object k = (case map_of object k of None \<Rightarrow> Undefined | Some v \<Rightarrow> v)"

text \<open>\<^verbatim>\<open>object[key] = v\<close>: an existing property keeps its place, a new one goes last.\<close>

fun assign :: "'k \<Rightarrow> 'v \<Rightarrow> ('k \<times> 'v) list \<Rightarrow> ('k \<times> 'v) list" where
  "assign k v [] = [(k, v)]"
| "assign k v ((k', v') # kvs) =
     (if k' = k then (k, v) # kvs else (k', v') # assign k v kvs)"

fun truthy :: "jsval \<Rightarrow> bool" where
  "truthy Undefined = False"
| "truthy Null = False"
| "truthy (Bool b) = b"
| "truthy (Num n) = (n \<noteq> 0)"
| "truthy (Str s) = (s \<noteq> [])"
| "truthy _ = True"

fun isAnimatedNode :: "jsval \<Rightarrow> bool" where
  "isAnimatedNode (AnimatedNode n) = True"
| "isAnimatedNode (AnimatedStyle n s) = True"
| "isAnimatedNode _ = False"

fun isAnimatedStyle :: "jsval \<Rightarrow> bool" where
  "isAnimatedStyle (AnimatedStyle n s) = True"
| "isAnimatedStyle _ = False"

fun isAnimatedEvent :: "jsval \<Rightarrow> bool" where
  "isAnimatedEvent (AnimatedEvent rest attached) = True"
| "isAnimatedEvent _ = False"

text \<open>\<^verbatim>\<open>value.__isNative\<close> of an AnimatedEvent: one of its own fields.\<close>

fun eventIsNative :: "jsval \<Rightarrow> bool" where
  "eventIsNative (AnimatedEvent rest attached) = truthy (get rest ''__isNative'')"
| "eventIsNative _ = False"

text \<open>The identity of a node object; the native flag of nodes is kept under it.\<close>

fun nodeId :: "jsval \<Rightarrow> nat" where
  "nodeId (AnimatedNode n) = n"
| "nodeId (AnimatedStyle n s) = n"
| "nodeId _ = 0"

text \<open>
  A mounted view (a component instance): its identity, whether it has a
  \<^verbatim>\<open>setNativeProps\<close> function, what \<^verbatim>\<open>getScrollableNode()\<close> returns when the view
  has that method, the tag \<^verbatim>\<open>ReactNative.findNodeHandle\<close> finds for it
  (\<open>None\<close> for \<^verbatim>\<open>null\<close>), and \<^verbatim>\<open>_reactInternalFiber._debugSource\<close>: \<open>None\<close> when
  the view has no \<^verbatim>\<open>_reactInternalFiber\<close>, so that the read throws, else the value of
  \<^verbatim>\<open>_debugSource\<close>. A \<^verbatim>\<open>setNativeProps\<close> member is a function when there is
  one, so the \<^verbatim>\<open>typeof\<close> test of the first variant and the truthiness test of the
  second read the same field. A view reference is \<open>None\<close> when it is \<^verbatim>\<open>null\<close> or
  \<^verbatim>\<open>undefined\<close>.
\<close>

datatype view = View (viewId: nat) (hasSetNativeProps: bool)
  (getScrollableNode: "nat option") (findNodeHandle: "nat option")
  (debugSource: "jsval option")

datatype target = ScrollableNode nat | TheView nat

text \<open>What a call on a collaborator returns, kept symbolic: the current value of a
  node, its animated value, the handler of an event, or a plain value as it is.\<close>

datatype outval =
    GetValue jsval
  | GetAnimatedValue jsval
  | GetHandler jsval
  | Static jsval

type_synonym outbag = "(key \<times> outval) list"

text \<open>
  The calls the code makes on its collaborators (graph nodes, events, the native
  animated backend, the console, the host component), in the order they are made.
  \<open>NodeAttach\<close> and \<open>NodeDetach\<close> are \<^verbatim>\<open>super.__attach()\<close> and
  \<^verbatim>\<open>super.__detach()\<close>. \<open>ConsoleLogAt\<close> is a log line that ends with the location of
  the view. What a call does inside the collaborator is outside the model, but for the
  native flag of a node; no collaborator calls back into the instance.
\<close>

datatype action =
    NodeAttach
  | NodeDetach
  | AddChild jsval
  | RemoveChild jsval
  | MakeNative jsval
  | EventAttach jsval target key
  | EventDetach jsval target key
  | ConnectAnimatedNodeToView nat nat
  | DisconnectAnimatedNodeFromView nat nat
  | ConsoleLog string "key option"
  | ConsoleLogAt string "key option" jsval
  | SetNativeProps outbag
  | ForceUpdate

text \<open>
  What the code throws: a failed \<^verbatim>\<open>invariant(cond, message)\<close>, the TypeError of a
  member read on \<^verbatim>\<open>null\<close> or \<^verbatim>\<open>undefined\<close>, and the Error of the change callback
  (``Attempting to run JS driven animation on animated node that has been moved to
  native earlier by starting an animation with useNativeDriver: true'').
\<close>

datatype error =
    Invariant string
  | TypeError
  | JSDrivenAnimationOnNativeNode

text \<open>
  The world outside one AnimatedProps instance: the nodes whose \<^verbatim>\<open>__isNative\<close> is
  set, the identity the next \<^verbatim>\<open>new AnimatedStyle\<close> gets, the calls made so far, and
  the global \<^verbatim>\<open>window.logAnimatedPerf\<close>.
\<close>

record graph =
  nativeNodes :: "nat set"
  nextId :: nat
  trace :: "action list"
  logAnimatedPerf :: bool

text \<open>
  The fields of an AnimatedProps instance. \<open>nativeTag\<close> is what
  \<^verbatim>\<open>this.__getNativeTag()\<close> of the base class returns.
\<close>

record animatedProps =
  view :: "view option"
  props :: bag
  styleProp :: "jsval option"
  firstValueReturned :: bool
  reattachAll :: bool
  isNative :: bool
  nativeTag :: nat

type_synonym st = "animatedProps \<times> graph"

definition emit :: "action \<Rightarrow> graph \<Rightarrow> graph" where
  "emit a g = g\<lparr>trace := trace g @ [a]\<rparr>"

text \<open>Sequencing of two steps, the first of which may throw.\<close>

definition andThen :: "error + 'a \<Rightarrow> ('a \<Rightarrow> error + 'b) \<Rightarrow> error + 'b" where
  "andThen m f = (case m of Inl e \<Rightarrow> Inl e | Inr x \<Rightarrow> f x)"

text \<open>\<^verbatim>\<open>if (window.logAnimatedPerf) console.log('[animated]', msg, key)\<close>, for the
  messages that do not end with the location of the view; values that a message adds
  after the key are left out.\<close>

definition logPerf :: "string \<Rightarrow> key option \<Rightarrow> graph \<Rightarrow> graph" where
  "logPerf msg k g = (if logAnimatedPerf g then emit (ConsoleLog msg k) g else g)"

text \<open>\<^verbatim>\<open>viewLocation(view)\<close>: \<^verbatim>\<open>view ? view._reactInternalFiber._debugSource : null\<close>.
  The member read throws a TypeError on a view without \<^verbatim>\<open>_reactInternalFiber\<close>.\<close>

definition viewLocation :: "view option \<Rightarrow> error + jsval" where
  "viewLocation vw =
     (case vw of
        None \<Rightarrow> Inr Null
      | Some v \<Rightarrow> (case debugSource v of None \<Rightarrow> Inl TypeError | Some d \<Rightarrow> Inr d))"

text \<open>\<^verbatim>\<open>if (window.logAnimatedPerf) console.log('[animated]', msg, key,
  viewLocation(this._view))\<close>: the arguments are evaluated before the call, so nothing is
  logged when the location throws, and nothing is evaluated when logging is off.\<close>

definition logPerfAt :: "string \<Rightarrow> key option \<Rightarrow> view option \<Rightarrow> graph \<Rightarrow> error + graph" where
  "logPerfAt msg k vw g =
     (if logAnimatedPerf g
      then andThen (viewLocation vw) (\<lambda>location. Inr (emit (ConsoleLogAt msg k location) g))
      else Inr g)"

text \<open>\<^verbatim>\<open>Object.entries(this._props).forEach(([key, value]) => f(key, value))\<close>\<close>

fun forEach :: "(key \<Rightarrow> jsval \<Rightarrow> st \<Rightarrow> error + st) \<Rightarrow> bag \<Rightarrow> st \<Rightarrow> error + st" where
  "forEach f [] s = Inr s"
| "forEach f ((k, v) # kvs) s = andThen (f k v s) (forEach f kvs)"

text \<open>
  Modelled from the spec: the constructor of AnimatedStyle is not part of these sources.
  The style value is ``materialized as a single composite node'': a new object, with the
  next identity, over the value it is given.
\<close>

definition newAnimatedStyle :: "jsval \<Rightarrow> graph \<Rightarrow> jsval \<times> graph" where
  "newAnimatedStyle v g = (AnimatedStyle (nextId g) v, g\<lparr>nextId := Suc (nextId g)\<rparr>)"

text \<open>
  Modelled from the spec: \<^verbatim>\<open>__makeNative()\<close> of a node is not part of these sources.
  A node ``can be told to switch to native execution mode'': the call is recorded and the
  flag of the node is set.
\<close>

definition nodeMakeNative :: "jsval \<Rightarrow> graph \<Rightarrow> graph" where
  "nodeMakeNative v g =
     emit (MakeNative v) (g\<lparr>nativeNodes := insert (nodeId v) (nativeNodes g)\<rparr>)"

section \<open>AnimatedProps.js\<close>

definition animatedKeys :: "bag \<Rightarrow> key list" where
  "animatedKeys object =
     filter (\<lambda>k. k = ''style'' \<or> isAnimatedNode (get object k) \<or> isAnimatedEvent (get object k))
       (map fst object)"

text \<open>\<^verbatim>\<open>({_attachedEvent, ...a} = a)\<close>: the plain object of the other own fields.\<close>

fun withoutAttachedEvent :: "jsval \<Rightarrow> jsval" where
  "withoutAttachedEvent (AnimatedEvent rest attached) = Obj rest"
| "withoutAttachedEvent v = v"

text \<open>\<^verbatim>\<open>deepDiffer\<close> is not part of these sources: it is a parameter.\<close>

definition animatedDiff :: "(jsval \<Rightarrow> jsval \<Rightarrow> bool) \<Rightarrow> jsval \<Rightarrow> jsval \<Rightarrow> bool" where
  "animatedDiff deepDiffer a b =
     (let a' = (if isAnimatedEvent a then withoutAttachedEvent a else a);
          b' = (if isAnimatedEvent b then withoutAttachedEvent b else b)
      in deepDiffer a' b')"

subsection \<open>View management\<close>

definition scrollableView :: "view \<Rightarrow> target" where
  "scrollableView v =
     (case getScrollableNode v of Some n \<Rightarrow> ScrollableNode n | None \<Rightarrow> TheView (viewId v))"

definition connectView :: "st \<Rightarrow> error + st" where
  "connectView s =
     (case s of (ap, g) \<Rightarrow>
        (case view ap of
           None \<Rightarrow> Inr s
         | Some v \<Rightarrow>
             if \<not> isNative ap then Inr s
             else (case findNodeHandle v of
                     None \<Rightarrow> Inl (Invariant ''Unable to locate view in the native tree'')
                   | Some viewTag \<Rightarrow>
                       Inr (ap, emit (ConnectAnimatedNodeToView (nativeTag ap) viewTag) g))))"

definition disconnectView :: "st \<Rightarrow> error + st" where
  "disconnectView s =
     (case s of (ap, g) \<Rightarrow>
        (case view ap of
           None \<Rightarrow> Inr s
         | Some v \<Rightarrow>
             if \<not> isNative ap then Inr s
             else (case findNodeHandle v of
                     None \<Rightarrow> Inl (Invariant ''Unable to locate view in the native tree'')
                   | Some viewTag \<Rightarrow>
                       Inr (ap, emit (DisconnectAnimatedNodeFromView (nativeTag ap) viewTag) g))))"

subsection \<open>Prop management\<close>

definition attachValueProp :: "key \<Rightarrow> jsval \<Rightarrow> st \<Rightarrow> error + st" where
  "attachValueProp k v s =
     (case s of (ap, g) \<Rightarrow>
        andThen
          (if k = ''style'' \<and> \<not> isAnimatedStyle v then
             (case styleProp ap of
                Some old \<Rightarrow> Inl (Invariant ''Expected last style prop to be detached'')
              | None \<Rightarrow>
                  (let (composite, g1) = newAnimatedStyle v g
                   in Inr (composite, ap\<lparr>styleProp := Some composite\<rparr>, g1)))
           else Inr (v, ap, g))
          (\<lambda>(v', ap', g').
             if \<not> isAnimatedNode v' then Inr (ap', g')
             else Inr (ap', emit (AddChild v') g')))"

definition attachValueProps :: "st \<Rightarrow> error + st" where
  "attachValueProps s = forEach attachValueProp (props (fst s)) s"

definition attachEventProp :: "key \<Rightarrow> jsval \<Rightarrow> st \<Rightarrow> error + st" where
  "attachEventProp k v s =
     (case s of (ap, g) \<Rightarrow>
        (case view ap of
           None \<Rightarrow> Inr s
         | Some vw \<Rightarrow>
             if \<not> (isAnimatedEvent v \<and> eventIsNative v) then Inr s
             else Inr (ap, emit (EventAttach v (scrollableView vw) k) g)))"

definition attachEventProps :: "st \<Rightarrow> error + st" where
  "attachEventProps s = forEach attachEventProp (props (fst s)) s"

definition makeValuePropNative :: "key \<Rightarrow> jsval \<Rightarrow> st \<Rightarrow> error + st" where
  "makeValuePropNative k v s =
     (case s of (ap, g) \<Rightarrow>
        if \<not> isNative ap then Inr s
        else
          andThen
            (if k = ''style'' then
               (case styleProp ap of
                  None \<Rightarrow> Inl (Invariant ''Expected style prop to make native'')
                | Some composite \<Rightarrow> Inr composite)
             else Inr v)
            (\<lambda>v'. if \<not> isAnimatedNode v' then Inr s
                  else Inr (ap, nodeMakeNative v' g)))"

definition makeValuePropsNative :: "st \<Rightarrow> error + st" where
  "makeValuePropsNative s = forEach makeValuePropNative (props (fst s)) s"

definition attachProp :: "key \<Rightarrow> jsval \<Rightarrow> st \<Rightarrow> error + st" where
  "attachProp k v s =
     andThen (attachValueProp k v s) (\<lambda>s1.
     andThen (makeValuePropNative k v s1) (\<lambda>s2.
     attachEventProp k v s2))"

definition detachValueProp :: "key \<Rightarrow> jsval \<Rightarrow> st \<Rightarrow> error + st" where
  "detachValueProp k v s =
     (case s of (ap, g) \<Rightarrow>
        andThen
          (if k = ''style'' \<and> \<not> isAnimatedStyle v then
             (case styleProp ap of
                None \<Rightarrow> Inl (Invariant ''Expected style prop to detach'')
              | Some composite \<Rightarrow> Inr (composite, ap\<lparr>styleProp := None\<rparr>))
           else Inr (v, ap))
          (\<lambda>(v', ap').
             if \<not> isAnimatedNode v' then Inr (ap', g)
             else Inr (ap', emit (RemoveChild v') g)))"

definition detachValueProps :: "st \<Rightarrow> error + st" where
  "detachValueProps s = forEach detachValueProp (props (fst s)) s"

definition detachEventProp :: "key \<Rightarrow> jsval \<Rightarrow> st \<Rightarrow> error + st" where
  "detachEventProp k v s =
     (case s of (ap, g) \<Rightarrow>
        (case view ap of
           None \<Rightarrow> Inr s
         | Some vw \<Rightarrow>
             if \<not> (isAnimatedEvent v \<and> eventIsNative v) then Inr s
             else Inr (ap, emit (EventDetach v (scrollableView vw) k) g)))"

definition detachEventProps :: "st \<Rightarrow> error + st" where
  "detachEventProps s = forEach detachEventProp (props (fst s)) s"

definition detachProp :: "key \<Rightarrow> jsval \<Rightarrow> st \<Rightarrow> error + st" where
  "detachProp k v s =
     andThen (detachValueProp k v s) (\<lambda>s1. detachEventProp k v s1)"

definition replaceProp :: "key \<Rightarrow> jsval \<Rightarrow> jsval \<Rightarrow> st \<Rightarrow> error + st" where
  "replaceProp k lastValue nextValue s =
     (case s of (ap, g) \<Rightarrow>
        andThen
          (if k = ''style'' then
             (case styleProp ap of
                None \<Rightarrow> Inl (Invariant ''Expected style prop to detach'')
              | Some composite \<Rightarrow> Inr (composite, ap\<lparr>styleProp := None\<rparr>))
           else Inr (lastValue, ap))
          (\<lambda>(lastValue', ap').
             andThen (attachProp k nextValue (ap', g)) (\<lambda>s1.
             detachProp k lastValue' s1)))"

subsection \<open>Lifecycle methods\<close>

definition attach :: "st \<Rightarrow> error + st" where
  "attach s =
     (case s of (ap, g) \<Rightarrow>
        andThen (attachValueProps (ap, emit NodeAttach g)) attachEventProps)"

text \<open>
  \<^verbatim>\<open>new AnimatedProps(props, callback)\<close>. The callback is the wrapper's change
  callback below. Modelled from the spec: \<^verbatim>\<open>__getNativeTag()\<close> of the base class is not
  part of these sources; the ``node tag'' of the new object is its identity, the next one.
\<close>

definition newAnimatedProps :: "bag \<Rightarrow> graph \<Rightarrow> error + st" where
  "newAnimatedProps ps g =
     attach (\<lparr>view = None, props = ps, styleProp = None, firstValueReturned = False,
              reattachAll = False, isNative = False, nativeTag = nextId g\<rparr>,
             g\<lparr>nextId := Suc (nextId g)\<rparr>)"

definition detach :: "st \<Rightarrow> error + st" where
  "detach s =
     andThen (disconnectView s) (\<lambda>s1.
     andThen (detachEventProps s1) (\<lambda>s2.
     andThen (detachValueProps s2) (\<lambda>(ap, g).
     Inr (ap, emit NodeDetach g))))"

definition updateView :: "view option \<Rightarrow> st \<Rightarrow> error + st" where
  "updateView nextView s =
     (if view (fst s) = nextView then Inr s
      else
        andThen (detachEventProps s) (\<lambda>s1.
        andThen (disconnectView s1) (\<lambda>(ap, g).
        andThen (connectView (ap\<lparr>view := nextView\<rparr>, g)) (\<lambda>s3.
        attachEventProps s3))))"

definition makeNative :: "st \<Rightarrow> error + st" where
  "makeNative s =
     (case s of (ap, g) \<Rightarrow>
        if isNative ap then Inr s
        else
          andThen
            (if firstValueReturned ap
             then andThen
                    (logPerfAt ''making native after first values returned'' None (view ap) g)
                    (\<lambda>g1. Inr (ap\<lparr>reattachAll := True\<rparr>, g1))
             else Inr (ap, g))
            (\<lambda>(ap1, g1).
               andThen (makeValuePropsNative (ap1\<lparr>isNative := True\<rparr>, g1)) connectView))"

text \<open>
  The first loop of \<^verbatim>\<open>updateProps\<close>, over \<^verbatim>\<open>nextKeys\<close>. It carries the instance
  and the world, the copy \<^verbatim>\<open>nextProps\<close> and what is left of \<^verbatim>\<open>lastKeys\<close>.
\<close>

fun updateKeys :: "(jsval \<Rightarrow> jsval \<Rightarrow> bool) \<Rightarrow> bool \<Rightarrow> bag \<Rightarrow> key list \<Rightarrow>
    st \<times> bag \<times> key list \<Rightarrow> error + st \<times> bag \<times> key list" where
  "updateKeys deepDiffer reattach lastProps [] x = Inr x"
| "updateKeys deepDiffer reattach lastProps (k # ks) x =
     (case x of ((ap, g), nextProps, lastKeys) \<Rightarrow>
        andThen
          (if reattach \<or> animatedDiff deepDiffer (get lastProps k) (get nextProps k)
           then
             andThen (logPerfAt ''updating animated key'' (Some k) (view ap) g) (\<lambda>g1.
             andThen (replaceProp k (get lastProps k) (get nextProps k) (ap, g1)) (\<lambda>s1.
             Inr (s1, nextProps)))
           else
             Inr ((ap, logPerf ''reusing animated key'' (Some k) g),
                  assign k (get lastProps k) nextProps))
          (\<lambda>(s1, nextProps1).
             updateKeys deepDiffer reattach lastProps ks
               (s1, nextProps1, filter (\<lambda>lastKey. lastKey \<noteq> k) lastKeys)))"

text \<open>The second loop, over the keys of the last bag that the next one has not.\<close>

fun detachKeys :: "bag \<Rightarrow> key list \<Rightarrow> st \<Rightarrow> error + st" where
  "detachKeys lastProps [] s = Inr s"
| "detachKeys lastProps (k # ks) s =
     (case s of (ap, g) \<Rightarrow>
        andThen (logPerfAt ''detaching nullified key'' (Some k) (view ap) g) (\<lambda>g1.
        andThen (detachProp k (get lastProps k) (ap, g1))
          (detachKeys lastProps ks)))"

definition updateProps :: "(jsval \<Rightarrow> jsval \<Rightarrow> bool) \<Rightarrow> bag \<Rightarrow> st \<Rightarrow> error + st" where
  "updateProps deepDiffer nextProps s =
     (let reattach = reattachAll (fst s);
          lastProps = props (fst s);
          lastKeys = animatedKeys lastProps;
          nextKeys = animatedKeys nextProps
      in andThen (updateKeys deepDiffer reattach lastProps nextKeys (s, nextProps, lastKeys))
           (\<lambda>(s1, nextProps1, lastKeys1).
              andThen (detachKeys lastProps lastKeys1 s1) (\<lambda>(ap, g).
              Inr (ap\<lparr>props := nextProps1, reattachAll := False\<rparr>, g))))"

subsection \<open>Value accessors\<close>

text \<open>\<^verbatim>\<open>Object.entries(this._props).reduce(f, {})\<close>, with an \<open>f\<close> that may throw.\<close>

fun reduceEntries :: "(outbag \<Rightarrow> key \<Rightarrow> jsval \<Rightarrow> error + outbag) \<Rightarrow> bag \<Rightarrow> outbag \<Rightarrow>
    error + outbag" where
  "reduceEntries f [] acc = Inr acc"
| "reduceEntries f ((k, v) # kvs) acc = andThen (f acc k v) (reduceEntries f kvs)"

text \<open>The \<^verbatim>\<open>style\<close> key stands for the cached composite, which must be there.\<close>

definition styleOr :: "animatedProps \<Rightarrow> key \<Rightarrow> jsval \<Rightarrow> error + jsval" where
  "styleOr ap k v =
     (if k = ''style'' then
        (case styleProp ap of
           None \<Rightarrow> Inl (Invariant ''Expected style prop'')
         | Some composite \<Rightarrow> Inr composite)
      else Inr v)"

definition getValueStep :: "animatedProps \<Rightarrow> graph \<Rightarrow> outbag \<Rightarrow> key \<Rightarrow> jsval \<Rightarrow> error + outbag" where
  "getValueStep ap g acc k v =
     andThen (styleOr ap k v) (\<lambda>v'.
       if isAnimatedNode v' then
         (if nodeId v' \<notin> nativeNodes g \<or> isAnimatedStyle v'
          then Inr (assign k (GetValue v') acc)
          else Inr acc)
       else if isAnimatedEvent v' then Inr (assign k (GetHandler v') acc)
       else Inr (assign k (Static v') acc))"

text \<open>\<^verbatim>\<open>__getValue()\<close> sets the marker first, so the instance comes back also when
  the reduction throws.\<close>

definition getValue :: "st \<Rightarrow> animatedProps \<times> (error + outbag)" where
  "getValue s =
     (case s of (ap, g) \<Rightarrow>
        (let ap1 = ap\<lparr>firstValueReturned := True\<rparr>
         in (ap1, reduceEntries (getValueStep ap1 g) (props ap1) [])))"

definition getAnimatedValueStep :: "animatedProps \<Rightarrow> outbag \<Rightarrow> key \<Rightarrow> jsval \<Rightarrow> error + outbag" where
  "getAnimatedValueStep ap acc k v =
     andThen (styleOr ap k v) (\<lambda>v'.
       if isAnimatedNode v' then Inr (assign k (GetAnimatedValue v') acc)
       else Inr acc)"

definition getAnimatedValue :: "animatedProps \<Rightarrow> error + outbag" where
  "getAnimatedValue ap = reduceEntries (getAnimatedValueStep ap) (props ap) []"

section \<open>createAnimatedComponent, first variant\<close>

definition animatedValueKeys :: "bag \<Rightarrow> key list" where
  "animatedValueKeys object =
     filter (\<lambda>k. k = ''style'' \<or> isAnimatedNode (get object k)) (map fst object)"

definition animatedEventKeys :: "bag \<Rightarrow> key list" where
  "animatedEventKeys object = filter (\<lambda>k. isAnimatedEvent (get object k)) (map fst object)"

definition animatedValueDiff :: "(jsval \<Rightarrow> jsval \<Rightarrow> bool) \<Rightarrow> jsval \<Rightarrow> jsval \<Rightarrow> bool" where
  "animatedValueDiff deepDiffer a b = deepDiffer a b"

definition animatedEventDiff :: "(jsval \<Rightarrow> jsval \<Rightarrow> bool) \<Rightarrow> jsval \<Rightarrow> jsval \<Rightarrow> bool" where
  "animatedEventDiff deepDiffer a b =
     (let a' = (if isAnimatedEvent a then withoutAttachedEvent a else a);
          b' = (if isAnimatedEvent b then withoutAttachedEvent b else b)
      in deepDiffer a' b')"

text \<open>The \<^verbatim>\<open>for (const key of lastKeys)\<close> of \<^verbatim>\<open>animatedPropsChanged\<close>: the first key
  whose values differ, else \<^verbatim>\<open>false\<close>.\<close>

fun firstChangedKey :: "(jsval \<Rightarrow> jsval \<Rightarrow> bool) \<Rightarrow> bag \<Rightarrow> bag \<Rightarrow> key list \<Rightarrow> jsval" where
  "firstChangedKey diff lastProps nextProps [] = Bool False"
| "firstChangedKey diff lastProps nextProps (k # ks) =
     (if diff (get lastProps k) (get nextProps k) then Str k
      else firstChangedKey diff lastProps nextProps ks)"

definition keysArray :: "key list \<Rightarrow> jsval" where
  "keysArray ks = Arr (map Str ks)"

definition animatedPropsChanged :: "(jsval \<Rightarrow> jsval \<Rightarrow> bool) \<Rightarrow> bag \<Rightarrow> bag \<Rightarrow>
    (bag \<Rightarrow> key list) \<Rightarrow> (jsval \<Rightarrow> jsval \<Rightarrow> bool) \<Rightarrow> jsval" where
  "animatedPropsChanged deepDiffer lastProps nextProps getKeys diff =
     (let lastKeys = getKeys lastProps;
          nextKeys = getKeys nextProps
      in if \<not> deepDiffer (keysArray lastKeys) (keysArray nextKeys)
         then firstChangedKey diff lastProps nextProps lastKeys
         else Bool True)"

definition animatedValuePropsChanged :: "(jsval \<Rightarrow> jsval \<Rightarrow> bool) \<Rightarrow> bag \<Rightarrow> bag \<Rightarrow> jsval" where
  "animatedValuePropsChanged deepDiffer lastProps nextProps =
     animatedPropsChanged deepDiffer lastProps nextProps animatedValueKeys
       (animatedValueDiff deepDiffer)"

definition animatedEventPropsChanged :: "(jsval \<Rightarrow> jsval \<Rightarrow> bool) \<Rightarrow> bag \<Rightarrow> bag \<Rightarrow> jsval" where
  "animatedEventPropsChanged deepDiffer lastProps nextProps =
     animatedPropsChanged deepDiffer lastProps nextProps animatedEventKeys
       (animatedEventDiff deepDiffer)"

text \<open>
  The fields of the component instance that the modelled methods use:
  \<^verbatim>\<open>this.props\<close>, \<^verbatim>\<open>_component\<close>, \<^verbatim>\<open>_prevComponent\<close>,
  \<^verbatim>\<open>_invokeAnimatedPropsCallbackOnMount\<close>, \<^verbatim>\<open>_propsAnimated\<close>, and the static
  \<^verbatim>\<open>__skipSetNativeProps_FOR_TESTS_ONLY\<close> of the class.
\<close>

record component1 =
  thisProps1 :: bag
  component1 :: "view option"
  prevComponent1 :: "view option"
  invokeAnimatedPropsCallbackOnMount :: bool
  propsAnimated :: "animatedProps option"
  skipSetNativeProps_FOR_TESTS_ONLY :: bool

definition animatedPropsCallback :: "component1 \<times> graph \<Rightarrow> error + component1 \<times> graph" where
  "animatedPropsCallback s =
     (case s of (c, g) \<Rightarrow>
        (case component1 c of
           None \<Rightarrow> Inr (c\<lparr>invokeAnimatedPropsCallbackOnMount := True\<rparr>, g)
         | Some vw \<Rightarrow>
             if skipSetNativeProps_FOR_TESTS_ONLY c \<or> \<not> hasSetNativeProps vw
             then Inr (c, emit ForceUpdate g)
             else
               (case propsAnimated c of
                  None \<Rightarrow> Inl TypeError
                | Some ap \<Rightarrow>
                    if \<not> isNative ap
                    then andThen (getAnimatedValue ap) (\<lambda>values.
                           Inr (c, emit (SetNativeProps values) g))
                    else Inl JSDrivenAnimationOnNativeNode)))"

text \<open>\<^verbatim>\<open>_attachProps(nextProps, force = !this._propsAnimated)\<close>; \<open>force\<close> is \<open>None\<close>
  when the caller leaves the argument out.\<close>

definition attachProps1 :: "(jsval \<Rightarrow> jsval \<Rightarrow> bool) \<Rightarrow> bag \<Rightarrow> bool option \<Rightarrow>
    component1 \<times> graph \<Rightarrow> error + component1 \<times> graph" where
  "attachProps1 deepDiffer nextProps force s =
     (case s of (c, g) \<Rightarrow>
        (let force' = (case force of Some f \<Rightarrow> f | None \<Rightarrow> propsAnimated c = None);
             changed = animatedValuePropsChanged deepDiffer (thisProps1 c) nextProps
         in if force' \<or> truthy changed then
              (let g1 = (if truthy changed
                         then logPerf ''reattaching values for prop''
                                (case changed of Str k \<Rightarrow> Some k | _ \<Rightarrow> None) g
                         else g);
                   oldPropsAnimated = propsAnimated c
               in andThen (newAnimatedProps nextProps g1) (\<lambda>(apNew, g2).
                    (case oldPropsAnimated of
                       None \<Rightarrow> Inr (c\<lparr>propsAnimated := Some apNew\<rparr>, g2)
                     | Some old \<Rightarrow>
                         andThen (detach (old, g2)) (\<lambda>(old', g3).
                           Inr (c\<lparr>propsAnimated := Some apNew\<rparr>, g3)))))
            else
              (case propsAnimated c of
                 None \<Rightarrow> Inl TypeError
               | Some ap \<Rightarrow>
                   andThen (updateProps deepDiffer nextProps (ap, logPerf ''reusing value props'' None g))
                     (\<lambda>(ap', g'). Inr (c\<lparr>propsAnimated := Some ap'\<rparr>, g')))))"

text \<open>\<^verbatim>\<open>props.collapsable\<close> of a resolved bag.\<close>

definition getOut :: "outbag \<Rightarrow> key \<Rightarrow> outval" where
  "getOut object k = (case map_of object k of None \<Rightarrow> Static Undefined | Some v \<Rightarrow> v)"

text \<open>
  \<^verbatim>\<open>render()\<close>, the same in both variants: the props of the element it returns
  (\<^verbatim>\<open>ref\<close> is not one of them), with the instance, whose marker
  \<^verbatim>\<open>__getValue()\<close> has set.
\<close>

definition renderWith :: "st \<Rightarrow> animatedProps \<times> (error + outbag)" where
  "renderWith s =
     (case getValue s of
        (ap, Inl e) \<Rightarrow> (ap, Inl e)
      | (ap, Inr ps) \<Rightarrow>
          (ap, Inr (assign ''collapsable''
                      (if isNative ap then Static (Bool False) else getOut ps ''collapsable'')
                      ps)))"

definition render1 :: "component1 \<times> graph \<Rightarrow> error + component1 \<times> outbag" where
  "render1 s =
     (case s of (c, g) \<Rightarrow>
        (case propsAnimated c of
           None \<Rightarrow> Inl TypeError
         | Some ap \<Rightarrow>
             (case renderWith (ap, g) of
                (ap', Inl e) \<Rightarrow> Inl e
              | (ap', Inr element) \<Rightarrow> Inr (c\<lparr>propsAnimated := Some ap'\<rparr>, element))))"

section \<open>createAnimatedComponent, second variant\<close>

record component2 =
  thisProps2 :: bag
  component2 :: "view option"
  prevComponent2 :: "view option"
  animatedProps2 :: "animatedProps option"

text \<open>The \<^verbatim>\<open>callback\<close> closure that \<^verbatim>\<open>_attachProps\<close> hands to the instance.\<close>

definition callback :: "component2 \<times> graph \<Rightarrow> error + component2 \<times> graph" where
  "callback s =
     (case s of (c, g) \<Rightarrow>
        (case component2 c of
           None \<Rightarrow> Inl TypeError
         | Some vw \<Rightarrow>
             if hasSetNativeProps vw then
               (case animatedProps2 c of
                  None \<Rightarrow> Inl TypeError
                | Some ap \<Rightarrow>
                    if \<not> isNative ap
                    then andThen (getAnimatedValue ap) (\<lambda>values.
                           Inr (c, emit (SetNativeProps values) g))
                    else Inl JSDrivenAnimationOnNativeNode)
             else Inr (c, emit ForceUpdate g)))"

definition attachProps2 :: "bag \<Rightarrow> component2 \<times> graph \<Rightarrow> error + component2 \<times> graph" where
  "attachProps2 nextProps s =
     (case s of (c, g) \<Rightarrow>
        andThen (newAnimatedProps (thisProps2 c) g) (\<lambda>(ap, g').
          Inr (c\<lparr>animatedProps2 := Some ap\<rparr>, g')))"

definition componentWillMount2 :: "component2 \<times> graph \<Rightarrow> error + component2 \<times> graph" where
  "componentWillMount2 s = attachProps2 (thisProps2 (fst s)) s"

definition setComponentRef2 :: "view option \<Rightarrow> component2 \<Rightarrow> component2" where
  "setComponentRef2 v c = c\<lparr>prevComponent2 := component2 c, component2 := v\<rparr>"

definition componentDidMount2 :: "component2 \<times> graph \<Rightarrow> error + component2 \<times> graph" where
  "componentDidMount2 s =
     (case s of (c, g) \<Rightarrow>
        (case animatedProps2 c of
           None \<Rightarrow> Inl TypeError
         | Some ap \<Rightarrow>
             andThen (updateView (component2 c) (ap, g)) (\<lambda>(ap', g').
               Inr (c\<lparr>animatedProps2 := Some ap'\<rparr>, g'))))"

definition componentWillReceiveProps2 :: "(jsval \<Rightarrow> jsval \<Rightarrow> bool) \<Rightarrow> bag \<Rightarrow>
    component2 \<times> graph \<Rightarrow> error + component2 \<times> graph" where
  "componentWillReceiveProps2 deepDiffer nextProps s =
     (case s of (c, g) \<Rightarrow>
        (case animatedProps2 c of
           None \<Rightarrow> Inl TypeError
         | Some ap \<Rightarrow>
             andThen (updateProps deepDiffer nextProps (ap, g)) (\<lambda>(ap', g').
               Inr (c\<lparr>animatedProps2 := Some ap'\<rparr>, g'))))"

definition render2 :: "component2 \<times> graph \<Rightarrow> error + component2 \<times> outbag" where
  "render2 s =
     (case s of (c, g) \<Rightarrow>
        (case animatedProps2 c of
           None \<Rightarrow> Inl TypeError
         | Some ap \<Rightarrow>
             (case renderWith (ap, g) of
                (ap', Inl e) \<Rightarrow> Inl e
              | (ap', Inr element) \<Rightarrow> Inr (c\<lparr>animatedProps2 := Some ap'\<rparr>, element))))"

section \<open>Vocabulary of the statements\<close>

text \<open>
  The definitions of this section are not code of the repository: they name what the
  statements below say about it, and the concrete inputs the statements are run on.
\<close>

text \<open>The native events of a bag, which are the ones attached to a view.\<close>

definition nativeEventProps :: "bag \<Rightarrow> bag" where
  "nativeEventProps ps = filter (\<lambda>(k, v). isAnimatedEvent v \<and> eventIsNative v) ps"

text \<open>The calls that attach (or detach) the native events of a bag on a view, in the order
  of the bag; none without a view.\<close>

definition eventCalls :: "(jsval \<Rightarrow> target \<Rightarrow> key \<Rightarrow> action) \<Rightarrow> view option \<Rightarrow> bag \<Rightarrow> action list" where
  "eventCalls call vw ps =
     (case vw of
        None \<Rightarrow> []
      | Some v \<Rightarrow> map (\<lambda>(k, e). call e (scrollableView v) k) (nativeEventProps ps))"

text \<open>The call that connects (or disconnects) the node of a native instance and a view;
  none without a view, or for an instance that is not native.\<close>

definition viewCalls :: "(nat \<Rightarrow> nat \<Rightarrow> action) \<Rightarrow> animatedProps \<Rightarrow> view option \<Rightarrow> action list" where
  "viewCalls call ap vw =
     (case vw of
        None \<Rightarrow> []
      | Some v \<Rightarrow>
          (case findNodeHandle v of
             None \<Rightarrow> []
           | Some viewTag \<Rightarrow> if isNative ap then [call (nativeTag ap) viewTag] else []))"

text \<open>The view of a native instance has a tag in the native tree.\<close>

definition locatable :: "animatedProps \<Rightarrow> view option \<Rightarrow> bool" where
  "locatable ap vw =
     (case vw of None \<Rightarrow> True | Some v \<Rightarrow> \<not> isNative ap \<or> findNodeHandle v \<noteq> None)"

text \<open>The style composite invariant: a bag with a \<^verbatim>\<open>style\<close> key has its composite cached.\<close>

definition styleOk :: "animatedProps \<Rightarrow> bool" where
  "styleOk ap = (''style'' \<notin> set (map fst (props ap)) \<or> styleProp ap \<noteq> None)"

text \<open>The node a key stands for: the cached composite for \<^verbatim>\<open>style\<close>, the value of the
  bag otherwise.\<close>

definition styleValue :: "animatedProps \<Rightarrow> key \<Rightarrow> jsval \<Rightarrow> jsval" where
  "styleValue ap k v =
     (if k = ''style'' then (case styleProp ap of Some composite \<Rightarrow> composite | None \<Rightarrow> v)
      else v)"

text \<open>What the snapshot holds for an entry of the bag: the current value of an
  AnimatedStyle, and of another node that is not native; nothing for another node that is
  native; the handler of an event; a plain value as it is.\<close>

definition resolveEntry :: "animatedProps \<Rightarrow> graph \<Rightarrow> key \<times> jsval \<Rightarrow> (key \<times> outval) option" where
  "resolveEntry ap g kv =
     (case kv of (k, v) \<Rightarrow>
        (let v' = styleValue ap k v
         in if isAnimatedStyle v' then Some (k, GetValue v')
            else if isAnimatedNode v' then
              (if nodeId v' \<in> nativeNodes g then None else Some (k, GetValue v'))
            else if isAnimatedEvent v' then Some (k, GetHandler v')
            else Some (k, Static v')))"

text \<open>What the animated-only bag holds for an entry: the animated value of a node.\<close>

definition animatedEntry :: "animatedProps \<Rightarrow> key \<times> jsval \<Rightarrow> (key \<times> outval) option" where
  "animatedEntry ap kv =
     (case kv of (k, v) \<Rightarrow>
        (let v' = styleValue ap k v
         in if isAnimatedNode v' then Some (k, GetAnimatedValue v') else None))"

text \<open>The bag that \<^verbatim>\<open>__getValue()\<close> returns, entry by entry.\<close>

definition snapshot :: "animatedProps \<Rightarrow> graph \<Rightarrow> outbag" where
  "snapshot ap g = List.map_filter (resolveEntry ap g) (props ap)"

text \<open>A value that is neither an animated node nor an animated event.\<close>

definition isPlain :: "jsval \<Rightarrow> bool" where
  "isPlain v = (\<not> isAnimatedNode v \<and> \<not> isAnimatedEvent v)"

text \<open>The calls that attach and the calls that detach.\<close>

fun isAttachCall :: "action \<Rightarrow> bool" where
  "isAttachCall NodeAttach = True"
| "isAttachCall (AddChild v) = True"
| "isAttachCall (MakeNative v) = True"
| "isAttachCall (EventAttach e t k) = True"
| "isAttachCall (ConnectAnimatedNodeToView n t) = True"
| "isAttachCall _ = False"

fun isDetachCall :: "action \<Rightarrow> bool" where
  "isDetachCall NodeDetach = True"
| "isDetachCall (RemoveChild v) = True"
| "isDetachCall (EventDetach e t k) = True"
| "isDetachCall (DisconnectAnimatedNodeFromView n t) = True"
| "isDetachCall _ = False"

text \<open>The test of \<^verbatim>\<open>updateProps\<close> on a key, replacing the keys of a list one after the
  other, and the bag that carrying the other keys over leaves.\<close>

definition keyChanged :: "(jsval \<Rightarrow> jsval \<Rightarrow> bool) \<Rightarrow> bool \<Rightarrow> bag \<Rightarrow> bag \<Rightarrow> key \<Rightarrow> bool" where
  "keyChanged deepDiffer reattach lastProps nextProps k =
     (reattach \<or> animatedDiff deepDiffer (get lastProps k) (get nextProps k))"

fun replaceAll :: "bag \<Rightarrow> bag \<Rightarrow> key list \<Rightarrow> st \<Rightarrow> error + st" where
  "replaceAll lastProps nextProps [] s = Inr s"
| "replaceAll lastProps nextProps (k # ks) s =
     andThen (replaceProp k (get lastProps k) (get nextProps k) s)
       (replaceAll lastProps nextProps ks)"

fun carryOver :: "(key \<Rightarrow> bool) \<Rightarrow> bag \<Rightarrow> key list \<Rightarrow> bag \<Rightarrow> bag" where
  "carryOver changed lastProps [] nextProps = nextProps"
| "carryOver changed lastProps (k # ks) nextProps =
     carryOver changed lastProps ks
       (if changed k then nextProps else assign k (get lastProps k) nextProps)"

text \<open>What a step leaves as it is: every field of the instance but the cached
  composite, and the logging switch; the trace grows by \<open>t\<close>.\<close>

definition grows :: "st \<Rightarrow> action list \<Rightarrow> st \<Rightarrow> bool" where
  "grows s t s' =
     (view (fst s') = view (fst s) \<and> props (fst s') = props (fst s) \<and>
      firstValueReturned (fst s') = firstValueReturned (fst s) \<and>
      reattachAll (fst s') = reattachAll (fst s) \<and> isNative (fst s') = isNative (fst s) \<and>
      nativeTag (fst s') = nativeTag (fst s) \<and>
      logAnimatedPerf (snd s') = logAnimatedPerf (snd s) \<and>
      trace (snd s') = trace (snd s) @ t)"

text \<open>The call made on a value that is a node, and none on any other value.\<close>

definition nodeCall :: "(jsval \<Rightarrow> action) \<Rightarrow> jsval \<Rightarrow> action list" where
  "nodeCall call v = (if isAnimatedNode v then [call v] else [])"

text \<open>The node that attaching a value under a key adds the instance to: under
  \<^verbatim>\<open>style\<close>, the new composite over a value that is not an AnimatedStyle, whose identity
  is \<open>fresh\<close>; the value itself otherwise.\<close>

definition attachedNode :: "nat \<Rightarrow> key \<Rightarrow> jsval \<Rightarrow> jsval" where
  "attachedNode fresh k v =
     (if k = ''style'' \<and> \<not> isAnimatedStyle v then AnimatedStyle fresh v else v)"

text \<open>The calls that attach a value under a key: the instance becomes a child of the
  node, the node is made native when the instance is, and a native event is attached to
  the bound view.\<close>

definition attachCalls :: "animatedProps \<Rightarrow> nat \<Rightarrow> key \<Rightarrow> jsval \<Rightarrow> action list" where
  "attachCalls ap fresh k v =
     nodeCall AddChild (attachedNode fresh k v) @
     (if isNative ap then nodeCall MakeNative (attachedNode fresh k v) else []) @
     eventCalls EventAttach (view ap) [(k, v)]"

text \<open>The node that detaching a value under a key removes the instance from: under
  \<^verbatim>\<open>style\<close>, the cached composite in place of a value that is not an AnimatedStyle.\<close>

definition detachedNode :: "animatedProps \<Rightarrow> key \<Rightarrow> jsval \<Rightarrow> jsval" where
  "detachedNode ap k v =
     (if k = ''style'' \<and> \<not> isAnimatedStyle v
      then (case styleProp ap of Some composite \<Rightarrow> composite | None \<Rightarrow> v)
      else v)"

text \<open>The calls that detach a value under a key: the instance stops being a child of
  the node, and a native event is detached from the bound view.\<close>

definition detachCalls :: "animatedProps \<Rightarrow> key \<Rightarrow> jsval \<Rightarrow> action list" where
  "detachCalls ap k v =
     nodeCall RemoveChild (detachedNode ap k v) @ eventCalls EventDetach (view ap) [(k, v)]"

text \<open>The calls that replace the value under a key: the next value is attached, then the
  last binding is detached, which under \<^verbatim>\<open>style\<close> is the cached composite.\<close>

definition replaceCalls :: "animatedProps \<Rightarrow> nat \<Rightarrow> key \<Rightarrow> jsval \<Rightarrow> jsval \<Rightarrow> action list" where
  "replaceCalls ap fresh k lastValue nextValue =
     attachCalls ap fresh k nextValue @ detachCalls ap k (styleValue ap k lastValue)"

text \<open>What is cached once a value has been attached under \<^verbatim>\<open>style\<close> with nothing
  cached before.\<close>

definition cachedStyle :: "nat \<Rightarrow> jsval \<Rightarrow> jsval option" where
  "cachedStyle fresh v = (if isAnimatedStyle v then None else Some (AnimatedStyle fresh v))"

text \<open>What is cached is an AnimatedStyle, as the type of the field says.\<close>

definition styleTyped :: "animatedProps \<Rightarrow> bool" where
  "styleTyped ap =
     (case styleProp ap of None \<Rightarrow> True | Some composite \<Rightarrow> isAnimatedStyle composite)"

text \<open>The keys of the next bag that \<^verbatim>\<open>updateProps\<close> replaces, and the keys of the last
  bag that it detaches because the next bag has them no more.\<close>

definition changedKeys :: "(jsval \<Rightarrow> jsval \<Rightarrow> bool) \<Rightarrow> animatedProps \<Rightarrow> bag \<Rightarrow> key list" where
  "changedKeys deepDiffer ap nextProps =
     filter (keyChanged deepDiffer (reattachAll ap) (props ap) nextProps) (animatedKeys nextProps)"

definition removedKeys :: "animatedProps \<Rightarrow> bag \<Rightarrow> key list" where
  "removedKeys ap nextProps =
     filter (\<lambda>k. k \<notin> set (animatedKeys nextProps)) (animatedKeys (props ap))"

text \<open>The calls of an update that replaces the keys \<open>changed\<close>: every one of them is
  replaced, in order, then every removed key is detached, in the order of the last bag.\<close>

definition updateCalls :: "key list \<Rightarrow> animatedProps \<Rightarrow> nat \<Rightarrow> bag \<Rightarrow> action list" where
  "updateCalls changed ap fresh nextProps =
     concat (map (\<lambda>k. replaceCalls ap fresh k (get (props ap) k) (get nextProps k)) changed) @
     concat (map (\<lambda>k. detachCalls ap k (get (props ap) k)) (removedKeys ap nextProps))"

text \<open>The bag such an update leaves: the next bag, with the last value under every
  animated key that is not replaced.\<close>

definition updatedBag :: "key list \<Rightarrow> animatedProps \<Rightarrow> bag \<Rightarrow> bag" where
  "updatedBag changed ap nextProps =
     carryOver (\<lambda>k. k \<in> set changed) (props ap) (animatedKeys nextProps) nextProps"

text \<open>What such an update leaves cached: the composite of a replaced \<^verbatim>\<open>style\<close>,
  nothing once the \<^verbatim>\<open>style\<close> key is removed, and what was cached otherwise.\<close>

definition updatedStyle :: "key list \<Rightarrow> animatedProps \<Rightarrow> nat \<Rightarrow> bag \<Rightarrow> jsval option" where
  "updatedStyle changed ap fresh nextProps =
     (if ''style'' \<in> set changed then cachedStyle fresh (get nextProps ''style'')
      else if ''style'' \<in> set (removedKeys ap nextProps) \<and>
              \<not> isAnimatedStyle (get (props ap) ''style'')
      then None
      else styleProp ap)"

text \<open>Such an update needs the cached composite: \<^verbatim>\<open>style\<close> is replaced, or it is
  removed and its last value is not an AnimatedStyle.\<close>

definition needsComposite :: "key list \<Rightarrow> animatedProps \<Rightarrow> bag \<Rightarrow> bool" where
  "needsComposite changed ap nextProps =
     (''style'' \<in> set changed \<or>
      ''style'' \<in> set (removedKeys ap nextProps) \<and> \<not> isAnimatedStyle (get (props ap) ''style''))"

text \<open>Such an update has to make the next \<^verbatim>\<open>style\<close> native though it is an
  AnimatedStyle, which is attached without being cached.\<close>

definition nativeUncached :: "key list \<Rightarrow> animatedProps \<Rightarrow> bag \<Rightarrow> bool" where
  "nativeUncached changed ap nextProps =
     (''style'' \<in> set changed \<and> isNative ap \<and> isAnimatedStyle (get nextProps ''style''))"

text \<open>The calls that make the nodes of the bag native, in the order of the bag: the
  cached composite stands for the \<^verbatim>\<open>style\<close> key.\<close>

definition nativeCalls :: "animatedProps \<Rightarrow> action list" where
  "nativeCalls ap = concat (map (\<lambda>(k, v). nodeCall MakeNative (styleValue ap k v)) (props ap))"

text \<open>The line that \<^verbatim>\<open>__makeNative\<close> logs, when logging is on and a snapshot has been
  returned.\<close>

definition nativeLog :: "animatedProps \<Rightarrow> graph \<Rightarrow> jsval \<Rightarrow> action list" where
  "nativeLog ap g location =
     (if logAnimatedPerf g \<and> firstValueReturned ap
      then [ConsoleLogAt ''making native after first values returned'' None location]
      else [])"

text \<open>What the comparison is given for a value: an AnimatedEvent without its
  \<^verbatim>\<open>_attachedEvent\<close>, any other value as it is.\<close>

fun comparedValue :: "jsval \<Rightarrow> jsval" where
  "comparedValue (AnimatedEvent rest attached) = Obj rest"
| "comparedValue v = v"

text \<open>The animated keys of the next bag whose values are not deep-equal to the last
  ones.\<close>

definition differingKeys :: "(jsval \<Rightarrow> jsval \<Rightarrow> bool) \<Rightarrow> bag \<Rightarrow> bag \<Rightarrow> key list" where
  "differingKeys deepDiffer lastProps nextProps =
     filter (\<lambda>k. deepDiffer (comparedValue (get lastProps k)) (comparedValue (get nextProps k)))
       (animatedKeys nextProps)"

text \<open>The calls that build an instance over a bag: the base class attaches, then the
  instance becomes a child of every node of the bag, in the order of the bag; \<open>fresh\<close> is
  the identity of the composite. A new instance has no view, so no event is attached.\<close>

definition setupCalls :: "nat \<Rightarrow> bag \<Rightarrow> action list" where
  "setupCalls fresh ps =
     NodeAttach # concat (map (\<lambda>(k, v). nodeCall AddChild (attachedNode fresh k v)) ps)"

text \<open>The calls that tear an instance down: it is disconnected from its view, its native
  events are detached, it stops being a child of every node of the bag, and the base class
  detaches.\<close>

definition teardownCalls :: "animatedProps \<Rightarrow> action list" where
  "teardownCalls ap =
     viewCalls DisconnectAnimatedNodeFromView ap (view ap) @
     eventCalls EventDetach (view ap) (props ap) @
     concat (map (\<lambda>(k, v). nodeCall RemoveChild (detachedNode ap k v)) (props ap)) @
     [NodeDetach]"

text \<open>The instance that \<^verbatim>\<open>new AnimatedProps\<close> builds over a bag in a world.\<close>

definition builtProps :: "bag \<Rightarrow> graph \<Rightarrow> animatedProps" where
  "builtProps ps g =
     \<lparr>view = None, props = ps,
      styleProp = (if ''style'' \<in> set (map fst ps)
                   then cachedStyle (Suc (nextId g)) (get ps ''style'') else None),
      firstValueReturned = False, reattachAll = False, isNative = False, nativeTag = nextId g\<rparr>"

text \<open>A composite built over a value that is not itself an AnimatedStyle.\<close>

fun wraps :: "jsval \<Rightarrow> jsval \<Rightarrow> bool" where
  "wraps (AnimatedStyle n style) v = (style = v \<and> \<not> isAnimatedStyle v)"
| "wraps _ v = False"

text \<open>The \<^verbatim>\<open>style\<close> key is normalized: exactly when the bag has a \<^verbatim>\<open>style\<close> key, one
  composite is cached, and it is built over the value the bag holds under the key.\<close>

definition styleNormalized :: "animatedProps \<Rightarrow> bool" where
  "styleNormalized ap =
     (case styleProp ap of
        None \<Rightarrow> ''style'' \<notin> set (map fst (props ap))
      | Some composite \<Rightarrow>
          ''style'' \<in> set (map fst (props ap)) \<and> wraps composite (get (props ap) ''style''))"

subsection \<open>Concrete inputs\<close>

text \<open>Concrete worlds, views, instances and components to run the statements on.\<close>

definition exampleGraph :: graph where
  "exampleGraph = \<lparr>nativeNodes = {}, nextId = 1, trace = [], logAnimatedPerf = False\<rparr>"

definition leafView :: view where
  "leafView = View 10 True None (Some 100) (Some Null)"

definition compositeView :: view where
  "compositeView = View 11 False None (Some 101) (Some Null)"

text \<open>A mounted component of either variant: view and instance in place.\<close>

definition mounted1 :: "view \<Rightarrow> animatedProps \<Rightarrow> bool \<Rightarrow> component1" where
  "mounted1 vw ap skip =
     \<lparr>thisProps1 = props ap, component1 = Some vw, prevComponent1 = None,
      invokeAnimatedPropsCallbackOnMount = False, propsAnimated = Some ap,
      skipSetNativeProps_FOR_TESTS_ONLY = skip\<rparr>"

definition mounted2 :: "view \<Rightarrow> animatedProps \<Rightarrow> component2" where
  "mounted2 vw ap =
     \<lparr>thisProps2 = props ap, component2 = Some vw, prevComponent2 = None,
      animatedProps2 = Some ap\<rparr>"

text \<open>A comparison to run the statements on: two values differ when they are not equal.\<close>

definition differs :: "jsval \<Rightarrow> jsval \<Rightarrow> bool" where
  "differs a b = (a \<noteq> b)"

definition opacityProps :: animatedProps where
  "opacityProps =
     \<lparr>view = Some leafView, props = [(''opacity'', AnimatedNode 7)], styleProp = None,
      firstValueReturned = True, reattachAll = False, isNative = False, nativeTag = 1\<rparr>"

definition styledOpacityProps :: animatedProps where
  "styledOpacityProps =
     \<lparr>view = Some leafView,
      props = [(''style'', Obj [(''left'', AnimatedNode 5)]), (''opacity'', AnimatedNode 7),
               (''title'', Str ''a'')],
      styleProp = Some (AnimatedStyle 2 (Obj [(''left'', AnimatedNode 5)])),
      firstValueReturned = True, reattachAll = False, isNative = False, nativeTag = 1\<rparr>"

definition scrollView :: view where
  "scrollView = View 12 True (Some 50) (Some 102) (Some Null)"

definition scrollEventProps :: animatedProps where
  "scrollEventProps =
     \<lparr>view = Some leafView,
      props = [(''onScroll'', AnimatedEvent [(''__isNative'', Bool True)] Null),
               (''opacity'', AnimatedNode 7)],
      styleProp = None, firstValueReturned = False, reattachAll = False, isNative = True,
      nativeTag = 1\<rparr>"

definition styledNativeProps :: animatedProps where
  "styledNativeProps =
     \<lparr>view = None,
      props = [(''style'', Obj [(''opacity'', AnimatedNode 7)]), (''left'', AnimatedNode 8),
               (''top'', AnimatedNode 9),
               (''onScroll'', AnimatedEvent [(''__isNative'', Bool True)] Null),
               (''collapsable'', Bool True)],
      styleProp = Some (AnimatedStyle 2 (Obj [(''opacity'', AnimatedNode 7)])),
      firstValueReturned = False, reattachAll = False, isNative = True, nativeTag = 1\<rparr>"

definition nativeGraph :: graph where
  "nativeGraph = \<lparr>nativeNodes = {2, 8}, nextId = 3, trace = [], logAnimatedPerf = False\<rparr>"

definition styledProps :: animatedProps where
  "styledProps =
     \<lparr>view = Some leafView,
      props = [(''style'', Obj [(''opacity'', Num 1)]), (''left'', AnimatedNode 7),
               (''top'', AnimatedNode 9)],
      styleProp = Some (AnimatedStyle 2 (Obj [(''opacity'', Num 1)])),
      firstValueReturned = True, reattachAll = False, isNative = False, nativeTag = 1\<rparr>"

definition styledGraph :: graph where
  "styledGraph = \<lparr>nativeNodes = {}, nextId = 3, trace = [], logAnimatedPerf = False\<rparr>"

definition scrollingProps :: animatedProps where
  "scrollingProps =
     \<lparr>view = Some leafView,
      props = [(''style'', Obj [(''opacity'', Num 1)]), (''left'', AnimatedNode 7),
               (''onScroll'', AnimatedEvent [(''__isNative'', Bool True)] Null),
               (''title'', Str ''a'')],
      styleProp = Some (AnimatedStyle 2 (Obj [(''opacity'', Num 1)])),
      firstValueReturned = False, reattachAll = False, isNative = False, nativeTag = 1\<rparr>"

definition scrollingNext :: bag where
  "scrollingNext =
     [(''style'', Obj [(''opacity'', Num 1)]), (''left'', AnimatedNode 8),
      (''onScroll'', AnimatedEvent [(''__isNative'', Bool True), (''listener'', Num 2)] Null),
      (''onMove'', AnimatedEvent [(''__isNative'', Bool True)] (Str ''attached'')),
      (''top'', AnimatedNode 9),
      (''title'', Str ''b'')]"

definition scrolledProps :: animatedProps where
  "scrolledProps =
     \<lparr>view = Some leafView,
      props = [(''style'', Obj [(''opacity'', Num 1)]), (''left'', AnimatedNode 7),
               (''onScroll'', AnimatedEvent [(''__isNative'', Bool True), (''listener'', Num 1)] Null),
               (''onMove'', AnimatedEvent [(''__isNative'', Bool True)] Null),
               (''top'', AnimatedNode 9),
               (''title'', Str ''a'')],
      styleProp = Some (AnimatedStyle 2 (Obj [(''opacity'', Num 1)])),
      firstValueReturned = True, reattachAll = False, isNative = False, nativeTag = 1\<rparr>"

definition widerNext :: bag where
  "widerNext =
     [(''style'', Obj [(''opacity'', Num 1)]), (''left'', AnimatedNode 7),
      (''width'', AnimatedNode 8)]"

definition restyledNext :: bag where
  "restyledNext = [(''style'', Obj [(''opacity'', Num 0)]), (''left'', AnimatedNode 7)]"

section \<open>Basic facts\<close>

lemma andThen_Inl [simp]: "andThen (Inl e) f = Inl e" by (simp add: andThen_def)

lemma andThen_Inr [simp]: "andThen (Inr x) f = f x" by (simp add: andThen_def)

lemma emit_trace [simp]: "trace (emit a g) = trace g @ [a]"
  by (simp add: emit_def)

lemma forEach_emits:
  assumes "\<And>k v g. f k v (ap, g) = Inr (ap, g\<lparr>trace := trace g @ h k v\<rparr>)"
  shows "forEach f ps (ap, g) =
     Inr (ap, g\<lparr>trace := trace g @ concat (map (\<lambda>(k, v). h k v) ps)\<rparr>)"
proof (induction ps arbitrary: g)
  case Nil
  show ?case by simp
next
  case (Cons p ps)
  obtain k v where p: "p = (k, v)" by (cases p)
  show ?case by (simp add: p assms Cons)
qed

lemma concat_filter_map:
  "concat (map (\<lambda>(k, v). if P k v then [c k v] else []) ps) =
     map (\<lambda>(k, v). c k v) (filter (\<lambda>(k, v). P k v) ps)"
  by (induction ps) auto

lemma detachEventProp_eq:
  "detachEventProp k v (ap, g) =
     Inr (ap, g\<lparr>trace := trace g @
       (case view ap of
          None \<Rightarrow> []
        | Some vw \<Rightarrow> if isAnimatedEvent v \<and> eventIsNative v
                     then [EventDetach v (scrollableView vw) k] else [])\<rparr>)"
  by (simp add: detachEventProp_def emit_def split: option.splits)

lemma attachEventProp_eq:
  "attachEventProp k v (ap, g) =
     Inr (ap, g\<lparr>trace := trace g @
       (case view ap of
          None \<Rightarrow> []
        | Some vw \<Rightarrow> if isAnimatedEvent v \<and> eventIsNative v
                     then [EventAttach v (scrollableView vw) k] else [])\<rparr>)"
  by (simp add: attachEventProp_def emit_def split: option.splits)

lemma forEach_detachEventProp:
  "forEach detachEventProp ps (ap, g) =
     Inr (ap, g\<lparr>trace := trace g @ eventCalls EventDetach (view ap) ps\<rparr>)"
proof (cases "view ap")
  case None
  then show ?thesis
    by (subst forEach_emits [OF detachEventProp_eq]) (simp add: eventCalls_def)
next
  case (Some vw)
  then show ?thesis
    by (subst forEach_emits [OF detachEventProp_eq])
       (simp add: eventCalls_def nativeEventProps_def concat_filter_map)
qed

lemma forEach_attachEventProp:
  "forEach attachEventProp ps (ap, g) =
     Inr (ap, g\<lparr>trace := trace g @ eventCalls EventAttach (view ap) ps\<rparr>)"
proof (cases "view ap")
  case None
  then show ?thesis
    by (subst forEach_emits [OF attachEventProp_eq]) (simp add: eventCalls_def)
next
  case (Some vw)
  then show ?thesis
    by (subst forEach_emits [OF attachEventProp_eq])
       (simp add: eventCalls_def nativeEventProps_def concat_filter_map)
qed

lemma disconnectView_eq:
  "locatable ap (view ap) \<Longrightarrow>
   disconnectView (ap, g) =
     Inr (ap, g\<lparr>trace := trace g @ viewCalls DisconnectAnimatedNodeFromView ap (view ap)\<rparr>)"
  by (auto simp: disconnectView_def locatable_def viewCalls_def emit_def split: option.splits)

lemma connectView_eq:
  "locatable ap (view ap) \<Longrightarrow>
   connectView (ap, g) =
     Inr (ap, g\<lparr>trace := trace g @ viewCalls ConnectAnimatedNodeToView ap (view ap)\<rparr>)"
  by (auto simp: connectView_def locatable_def viewCalls_def emit_def split: option.splits)

lemma viewCalls_view [simp]: "viewCalls call (ap\<lparr>view := v\<rparr>) w = viewCalls call ap w"
  by (simp add: viewCalls_def split: option.splits)

lemma locatable_view [simp]: "locatable (ap\<lparr>view := v\<rparr>) w = locatable ap w"
  by (simp add: locatable_def split: option.splits)

lemma isAnimatedStyle_isAnimatedNode [simp]: "isAnimatedStyle v \<Longrightarrow> isAnimatedNode v"
  by (cases v) auto

lemma assign_fresh: "k \<notin> set (map fst kvs) \<Longrightarrow> assign k v kvs = kvs @ [(k, v)]"
  by (induction kvs) auto

lemma styleOr_ok:
  "k \<noteq> ''style'' \<or> styleProp ap \<noteq> None \<Longrightarrow> styleOr ap k v = Inr (styleValue ap k v)"
  by (auto simp: styleOr_def styleValue_def)

lemma styleOr_missing:
  "styleProp ap = None \<Longrightarrow> styleOr ap ''style'' v = Inl (Invariant ''Expected style prop'')"
  by (simp add: styleOr_def)

lemma map_filter_Cons:
  "List.map_filter f (x # xs) = (case f x of None \<Rightarrow> List.map_filter f xs | Some y \<Rightarrow> y # List.map_filter f xs)"
  by (simp add: List.map_filter_def split: option.splits)

lemma getValueStep_ok:
  assumes "k \<noteq> ''style'' \<or> styleProp ap \<noteq> None" "k \<notin> set (map fst acc)"
  shows "getValueStep ap g acc k v =
     Inr (acc @ (case resolveEntry ap g (k, v) of None \<Rightarrow> [] | Some e \<Rightarrow> [e]))"
  using assms by (auto simp: getValueStep_def styleOr_ok resolveEntry_def Let_def assign_fresh)

lemma reduce_getValueStep:
  assumes "distinct (map fst ps)" "set (map fst ps) \<inter> set (map fst acc) = {}"
    "''style'' \<notin> set (map fst ps) \<or> styleProp ap \<noteq> None"
  shows "reduceEntries (getValueStep ap g) ps acc = Inr (acc @ List.map_filter (resolveEntry ap g) ps)"
  using assms
proof (induction ps arbitrary: acc)
  case Nil
  show ?case by (simp add: List.map_filter_def)
next
  case (Cons p ps)
  obtain k v where p: "p = (k, v)" by (cases p)
  have k: "k \<noteq> ''style'' \<or> styleProp ap \<noteq> None" "k \<notin> set (map fst acc)"
    using Cons.prems by (auto simp: p)
  let ?acc = "acc @ (case resolveEntry ap g (k, v) of None \<Rightarrow> [] | Some e \<Rightarrow> [e])"
  have fstk: "\<And>e. resolveEntry ap g (k, v) = Some e \<Longrightarrow> fst e = k"
    by (auto simp: resolveEntry_def Let_def split: if_splits)
  have sub: "set (map fst ?acc) \<subseteq> insert k (set (map fst acc))"
    using fstk by (cases "resolveEntry ap g (k, v)") auto
  have kps: "k \<notin> set (map fst ps)" "set (map fst ps) \<inter> set (map fst acc) = {}"
    using Cons.prems by (auto simp: p)
  have disj: "set (map fst ps) \<inter> set (map fst ?acc) = {}"
    using kps sub by blast
  have "reduceEntries (getValueStep ap g) ps ?acc =
      Inr (?acc @ List.map_filter (resolveEntry ap g) ps)"
    using Cons.prems disj by (intro Cons.IH) auto
  then show ?case
    by (simp add: p getValueStep_ok [OF k] map_filter_Cons split: option.splits)
qed

lemma getValue_resolved:
  assumes "distinct (map fst (props ap))" "styleOk ap"
  shows "getValue (ap, g) =
     (ap\<lparr>firstValueReturned := True\<rparr>, Inr (List.map_filter (resolveEntry ap g) (props ap)))"
proof -
  let ?ap = "ap\<lparr>firstValueReturned := True\<rparr>"
  have r: "resolveEntry ?ap g = resolveEntry ap g"
    by (rule ext) (simp add: resolveEntry_def styleValue_def split: prod.splits)
  have "reduceEntries (getValueStep ?ap g) (props ?ap) [] =
      Inr ([] @ List.map_filter (resolveEntry ?ap g) (props ?ap))"
    using assms by (intro reduce_getValueStep) (auto simp: styleOk_def)
  then show ?thesis by (simp add: getValue_def r)
qed

lemma getAnimatedValueStep_ok:
  assumes "k \<noteq> ''style'' \<or> styleProp ap \<noteq> None" "k \<notin> set (map fst acc)"
  shows "getAnimatedValueStep ap acc k v =
     Inr (acc @ (case animatedEntry ap (k, v) of None \<Rightarrow> [] | Some e \<Rightarrow> [e]))"
  using assms by (auto simp: getAnimatedValueStep_def styleOr_ok animatedEntry_def Let_def assign_fresh)

lemma reduce_getAnimatedValueStep:
  assumes "distinct (map fst ps)" "set (map fst ps) \<inter> set (map fst acc) = {}"
    "''style'' \<notin> set (map fst ps) \<or> styleProp ap \<noteq> None"
  shows "reduceEntries (getAnimatedValueStep ap) ps acc = Inr (acc @ List.map_filter (animatedEntry ap) ps)"
  using assms
proof (induction ps arbitrary: acc)
  case Nil
  show ?case by (simp add: List.map_filter_def)
next
  case (Cons p ps)
  obtain k v where p: "p = (k, v)" by (cases p)
  have k: "k \<noteq> ''style'' \<or> styleProp ap \<noteq> None" "k \<notin> set (map fst acc)"
    using Cons.prems by (auto simp: p)
  let ?acc = "acc @ (case animatedEntry ap (k, v) of None \<Rightarrow> [] | Some e \<Rightarrow> [e])"
  have fstk: "\<And>e. animatedEntry ap (k, v) = Some e \<Longrightarrow> fst e = k"
    by (auto simp: animatedEntry_def Let_def split: if_splits)
  have sub: "set (map fst ?acc) \<subseteq> insert k (set (map fst acc))"
    using fstk by (cases "animatedEntry ap (k, v)") auto
  have kps: "k \<notin> set (map fst ps)" "set (map fst ps) \<inter> set (map fst acc) = {}"
    using Cons.prems by (auto simp: p)
  have disj: "set (map fst ps) \<inter> set (map fst ?acc) = {}"
    using kps sub by blast
  have "reduceEntries (getAnimatedValueStep ap) ps ?acc =
      Inr (?acc @ List.map_filter (animatedEntry ap) ps)"
    using Cons.prems disj by (intro Cons.IH) auto
  then show ?case
    by (simp add: p getAnimatedValueStep_ok [OF k] map_filter_Cons split: option.splits)
qed

lemma getAnimatedValue_ok:
  assumes "distinct (map fst (props ap))" "styleOk ap"
  shows "getAnimatedValue ap = Inr (List.map_filter (animatedEntry ap) (props ap))"
  using reduce_getAnimatedValueStep [of "props ap" "[]" ap] assms
  by (auto simp: getAnimatedValue_def styleOk_def)

text \<open>without the style composite the reduction throws, however the entries are\<close>

lemma reduce_style_missing:
  assumes "''style'' \<in> set (map fst ps)" "\<And>acc v. f acc ''style'' v = Inl e"
    "\<And>acc k v. k \<noteq> ''style'' \<Longrightarrow> \<exists>acc'. f acc k v = Inr acc'"
  shows "reduceEntries f ps acc = Inl e"
  using assms(1)
proof (induction ps arbitrary: acc)
  case Nil
  then show ?case by simp
next
  case (Cons p ps)
  obtain k v where p: "p = (k, v)" by (cases p)
  show ?case
  proof (cases "k = ''style''")
    case True
    then show ?thesis by (simp add: p assms(2))
  next
    case False
    then obtain acc' where "f acc k v = Inr acc'" using assms(3) by blast
    then show ?thesis using Cons False by (auto simp: p)
  qed
qed

lemma getAnimatedValue_missing:
  assumes "\<not> styleOk ap"
  shows "getAnimatedValue ap = Inl (Invariant ''Expected style prop'')"
  unfolding getAnimatedValue_def
proof (rule reduce_style_missing)
  show "''style'' \<in> set (map fst (props ap))" using assms by (simp add: styleOk_def)
  show "\<And>acc v. getAnimatedValueStep ap acc ''style'' v = Inl (Invariant ''Expected style prop'')"
    using assms by (simp add: getAnimatedValueStep_def styleOr_missing styleOk_def)
  show "\<And>acc k v. k \<noteq> ''style'' \<Longrightarrow> \<exists>acc'. getAnimatedValueStep ap acc k v = Inr acc'"
    by (simp add: getAnimatedValueStep_def styleOr_def)
qed

lemma getValue_missing:
  assumes "\<not> styleOk ap"
  shows "getValue (ap, g) = (ap\<lparr>firstValueReturned := True\<rparr>, Inl (Invariant ''Expected style prop''))"
proof -
  let ?ap = "ap\<lparr>firstValueReturned := True\<rparr>"
  have "reduceEntries (getValueStep ?ap g) (props ?ap) [] = Inl (Invariant ''Expected style prop'')"
  proof (rule reduce_style_missing)
    show "''style'' \<in> set (map fst (props ?ap))" using assms by (simp add: styleOk_def)
    show "\<And>acc v. getValueStep ?ap g acc ''style'' v = Inl (Invariant ''Expected style prop'')"
      using assms by (simp add: getValueStep_def styleOr_missing styleOk_def)
    show "\<And>acc k v. k \<noteq> ''style'' \<Longrightarrow> \<exists>acc'. getValueStep ?ap g acc k v = Inr acc'"
      by (simp add: getValueStep_def styleOr_def)
  qed
  then show ?thesis by (simp add: getValue_def)
qed

lemma disconnectView_fails:
  "\<not> locatable ap (view ap) \<Longrightarrow>
   disconnectView (ap, g) = Inl (Invariant ''Unable to locate view in the native tree'')"
  by (auto simp: disconnectView_def locatable_def split: option.splits)

lemma connectView_fails:
  "\<not> locatable ap (view ap) \<Longrightarrow>
   connectView (ap, g) = Inl (Invariant ''Unable to locate view in the native tree'')"
  by (auto simp: connectView_def locatable_def split: option.splits)

lemma updateView_fails:
  assumes "nextView \<noteq> view ap" "\<not> (locatable ap (view ap) \<and> locatable ap nextView)"
  shows "updateView nextView (ap, g) = Inl (Invariant ''Unable to locate view in the native tree'')"
proof (cases "locatable ap (view ap)")
  case False
  then show ?thesis
    using assms(1)
    by (auto simp: updateView_def detachEventProps_def forEach_detachEventProp disconnectView_fails)
next
  case True
  then have "\<not> locatable (ap\<lparr>view := nextView\<rparr>) (view (ap\<lparr>view := nextView\<rparr>))"
    using assms(2) by simp
  then show ?thesis
    using assms(1) True
    by (auto simp: updateView_def detachEventProps_def forEach_detachEventProp
        disconnectView_eq connectView_fails)
qed

lemma getOut_assign_same: "getOut (assign k v ps) k = v"
  by (induction ps) (auto simp: getOut_def)

lemma getOut_assign_other: "k' \<noteq> k \<Longrightarrow> getOut (assign k v ps) k' = getOut ps k'"
  by (induction ps) (auto simp: getOut_def)

lemma getOut_snapshot_plain:
  assumes "k \<noteq> ''style''" "isPlain (get ps k)"
  shows "getOut (List.map_filter (resolveEntry ap g) ps) k = Static (get ps k)"
  using assms(2)
proof (induction ps)
  case Nil
  show ?case by (simp add: List.map_filter_def getOut_def get_def)
next
  case (Cons p ps)
  obtain k' v' where p: "p = (k', v')" by (cases p)
  show ?case
  proof (cases "k' = k")
    case True
    then have "isPlain v'" using Cons.prems by (simp add: p get_def)
    then show ?thesis
      using True assms(1)
      by (auto simp: p map_filter_Cons resolveEntry_def styleValue_def isPlain_def getOut_def
          get_def dest: isAnimatedStyle_isAnimatedNode)
  next
    case False
    then have g: "get (p # ps) k = get ps k" by (simp add: p get_def)
    have "getOut (List.map_filter (resolveEntry ap g) ps) k = Static (get ps k)"
      using Cons g by simp
    moreover have "\<And>e. resolveEntry ap g (k', v') = Some e \<Longrightarrow> fst e = k'"
      by (auto simp: resolveEntry_def Let_def split: if_splits)
    ultimately show ?thesis
      using False g
      by (cases "resolveEntry ap g (k', v')") (auto simp: p map_filter_Cons getOut_def)
  qed
qed

lemma renderWith_eq:
  assumes "distinct (map fst (props ap))" "styleOk ap"
  shows "renderWith (ap, g) =
     (ap\<lparr>firstValueReturned := True\<rparr>,
      Inr (assign ''collapsable''
             (if isNative ap then Static (Bool False) else getOut (snapshot ap g) ''collapsable'')
             (snapshot ap g)))"
  by (simp add: renderWith_def getValue_resolved [OF assms] snapshot_def)

lemma map_of_map_filter:
  assumes "distinct (map fst ps)" "(k, v) \<in> set ps"
    "\<And>kv e. f kv = Some e \<Longrightarrow> fst e = fst kv"
  shows "map_of (List.map_filter f ps) k = map_option snd (f (k, v))"
  using assms(1,2)
proof (induction ps)
  case Nil
  then show ?case by simp
next
  case (Cons p ps)
  show ?case
  proof (cases "p = (k, v)")
    case True
    show ?thesis
    proof (cases "f (k, v)")
      case None
      have "k \<notin> fst ` set (List.map_filter f ps)"
        using Cons.prems(1) True assms(3) by (force simp: List.map_filter_def)
      then have "map_of (List.map_filter f ps) k = None"
        by (simp add: map_of_eq_None_iff)
      then show ?thesis using True None by (simp add: map_filter_Cons)
    next
      case (Some e)
      then have "fst e = k" using assms(3) by fastforce
      then show ?thesis using True Some by (cases e) (simp add: map_filter_Cons)
    qed
  next
    case False
    then have in_ps: "(k, v) \<in> set ps" using Cons.prems(2) by simp
    then have "k \<in> fst ` set ps" by force
    moreover have "fst p \<notin> fst ` set ps" using Cons.prems(1) by simp
    ultimately have ne: "fst p \<noteq> k" by blast
    have ih: "map_of (List.map_filter f ps) k = map_option snd (f (k, v))"
      using Cons.IH Cons.prems(1) in_ps by simp
    show ?thesis
    proof (cases "f p")
      case None
      then show ?thesis using ih by (simp add: map_filter_Cons)
    next
      case (Some e)
      then have "fst e \<noteq> k" using assms(3) ne by fastforce
      then show ?thesis using Some ih by (cases e) (simp add: map_filter_Cons)
    qed
  qed
qed

lemma map_of_snapshot:
  assumes "distinct (map fst (props ap))" "(k, v) \<in> set (props ap)"
  shows "map_of (snapshot ap g) k = map_option snd (resolveEntry ap g (k, v))"
  unfolding snapshot_def
  by (rule map_of_map_filter [OF assms])
     (auto simp: resolveEntry_def Let_def split: if_splits)

lemma grows_refl: "grows s [] s"
  by (simp add: grows_def)

lemma grows_trans: "grows s t s' \<Longrightarrow> grows s' u s'' \<Longrightarrow> grows s (t @ u) s''"
  by (simp add: grows_def)

lemma attachValueProp_grows:
  assumes "attachValueProp k v s = Inr s'"
  shows "\<exists>t. grows s t s' \<and> list_all isAttachCall t \<and>
    (isAnimatedNode v \<and> (k = ''style'' \<longrightarrow> isAnimatedStyle v) \<longrightarrow> t = [AddChild v]) \<and>
    (k = ''style'' \<and> \<not> isAnimatedStyle v \<longrightarrow> t = [AddChild (AnimatedStyle (nextId (snd s)) v)])"
proof (cases s)
  case (Pair ap g)
  show ?thesis
    using assms unfolding Pair attachValueProp_def newAnimatedStyle_def
    by (auto simp: grows_def emit_def Let_def split: if_splits option.splits)
qed

lemma makeValuePropNative_grows:
  assumes "makeValuePropNative k v s = Inr s'"
  shows "\<exists>t. grows s t s' \<and> list_all isAttachCall t \<and> styleProp (fst s') = styleProp (fst s)"
proof (cases s)
  case (Pair ap g)
  show ?thesis
    using assms unfolding Pair makeValuePropNative_def nodeMakeNative_def
    by (auto simp: grows_def emit_def split: if_splits option.splits)
qed

lemma attachEventProp_grows:
  assumes "attachEventProp k v s = Inr s'"
  shows "\<exists>t. grows s t s' \<and> list_all isAttachCall t \<and> styleProp (fst s') = styleProp (fst s)"
proof (cases s)
  case (Pair ap g)
  show ?thesis
    using assms unfolding Pair attachEventProp_def
    by (auto simp: grows_def emit_def split: if_splits option.splits)
qed

lemma detachValueProp_grows:
  assumes "detachValueProp k v s = Inr s'"
  shows "\<exists>t. grows s t s' \<and> list_all isDetachCall t \<and>
    (isAnimatedNode v \<and> (k = ''style'' \<longrightarrow> isAnimatedStyle v) \<longrightarrow> t = [RemoveChild v])"
proof (cases s)
  case (Pair ap g)
  show ?thesis
    using assms unfolding Pair detachValueProp_def
    by (auto simp: grows_def emit_def split: if_splits option.splits)
qed

lemma detachEventProp_grows:
  assumes "detachEventProp k v s = Inr s'"
  shows "\<exists>t. grows s t s' \<and> list_all isDetachCall t \<and> styleProp (fst s') = styleProp (fst s)"
proof (cases s)
  case (Pair ap g)
  show ?thesis
    using assms unfolding Pair detachEventProp_def
    by (auto simp: grows_def emit_def split: if_splits option.splits)
qed

lemma andThen_Inr_iff: "andThen m f = Inr y \<longleftrightarrow> (\<exists>x. m = Inr x \<and> f x = Inr y)"
  by (cases m) simp_all

lemma attachProp_grows:
  assumes "attachProp k v s = Inr s'"
  shows "\<exists>t. grows s t s' \<and> list_all isAttachCall t \<and>
    (isAnimatedNode v \<and> (k = ''style'' \<longrightarrow> isAnimatedStyle v) \<longrightarrow> AddChild v \<in> set t) \<and>
    (k = ''style'' \<and> \<not> isAnimatedStyle v \<longrightarrow>
       AddChild (AnimatedStyle (nextId (snd s)) v) \<in> set t)"
proof -
  from assms obtain s1 s2 where 1: "attachValueProp k v s = Inr s1"
    and 2: "makeValuePropNative k v s1 = Inr s2" and 3: "attachEventProp k v s2 = Inr s'"
    by (auto simp: attachProp_def andThen_Inr_iff)
  from attachValueProp_grows [OF 1] obtain t1 where t1: "grows s t1 s1" "list_all isAttachCall t1"
    "isAnimatedNode v \<and> (k = ''style'' \<longrightarrow> isAnimatedStyle v) \<longrightarrow> t1 = [AddChild v]"
    "k = ''style'' \<and> \<not> isAnimatedStyle v \<longrightarrow> t1 = [AddChild (AnimatedStyle (nextId (snd s)) v)]"
    by blast
  from makeValuePropNative_grows [OF 2] obtain t2 where t2: "grows s1 t2 s2" "list_all isAttachCall t2"
    by blast
  from attachEventProp_grows [OF 3] obtain t3 where t3: "grows s2 t3 s'" "list_all isAttachCall t3"
    by blast
  have "grows s (t1 @ t2 @ t3) s'"
    using grows_trans [OF t1(1) grows_trans [OF t2(1) t3(1)]] .
  then show ?thesis
    using t1 t2 t3 by (intro exI [of _ "t1 @ t2 @ t3"]) auto
qed

lemma detachProp_grows:
  assumes "detachProp k v s = Inr s'"
  shows "\<exists>t. grows s t s' \<and> list_all isDetachCall t \<and>
    (isAnimatedNode v \<and> (k = ''style'' \<longrightarrow> isAnimatedStyle v) \<longrightarrow> RemoveChild v \<in> set t)"
proof -
  from assms obtain s1 where 1: "detachValueProp k v s = Inr s1"
    and 2: "detachEventProp k v s1 = Inr s'"
    by (auto simp: detachProp_def andThen_Inr_iff)
  from detachValueProp_grows [OF 1] obtain t1 where t1: "grows s t1 s1" "list_all isDetachCall t1"
    "isAnimatedNode v \<and> (k = ''style'' \<longrightarrow> isAnimatedStyle v) \<longrightarrow> t1 = [RemoveChild v]" by blast
  from detachEventProp_grows [OF 2] obtain t2 where t2: "grows s1 t2 s'" "list_all isDetachCall t2"
    by blast
  have "grows s (t1 @ t2) s'"
    using grows_trans [OF t1(1) t2(1)] .
  then show ?thesis
    using t1 t2 by (intro exI [of _ "t1 @ t2"]) auto
qed

lemma replaceProp_grows:
  assumes "replaceProp k lastValue nextValue s = Inr s'"
  shows "\<exists>a d. grows s (a @ d) s' \<and> list_all isAttachCall a \<and> list_all isDetachCall d \<and>
    (isAnimatedNode nextValue \<and> (k = ''style'' \<longrightarrow> isAnimatedStyle nextValue) \<longrightarrow>
       AddChild nextValue \<in> set a) \<and>
    (k = ''style'' \<and> \<not> isAnimatedStyle nextValue \<longrightarrow>
       AddChild (AnimatedStyle (nextId (snd s)) nextValue) \<in> set a) \<and>
    (k \<noteq> ''style'' \<and> isAnimatedNode lastValue \<longrightarrow> RemoveChild lastValue \<in> set d) \<and>
    (k = ''style'' \<longrightarrow> (\<exists>composite. styleProp (fst s) = Some composite \<and>
       (isAnimatedStyle composite \<longrightarrow> RemoveChild composite \<in> set d)))"
proof (cases s)
  case (Pair ap g)
  show ?thesis
  proof (cases "k = ''style''")
    case False
    from assms obtain s1 where 1: "attachProp k nextValue s = Inr s1"
      and 2: "detachProp k lastValue s1 = Inr s'"
      using False by (auto simp: Pair replaceProp_def andThen_Inr_iff)
    from attachProp_grows [OF 1] obtain a where a: "grows s a s1" "list_all isAttachCall a"
      "isAnimatedNode nextValue \<and> (k = ''style'' \<longrightarrow> isAnimatedStyle nextValue) \<longrightarrow>
         AddChild nextValue \<in> set a" by blast
    from detachProp_grows [OF 2] obtain d where d: "grows s1 d s'" "list_all isDetachCall d"
      "isAnimatedNode lastValue \<and> (k = ''style'' \<longrightarrow> isAnimatedStyle lastValue) \<longrightarrow>
         RemoveChild lastValue \<in> set d" by blast
    show ?thesis
      using grows_trans [OF a(1) d(1)] a d False by blast
  next
    case True
    from assms obtain composite s1 where c: "styleProp ap = Some composite"
      and 1: "attachProp k nextValue (ap\<lparr>styleProp := None\<rparr>, g) = Inr s1"
      and 2: "detachProp k composite s1 = Inr s'"
      using True by (auto simp: Pair replaceProp_def andThen_Inr_iff split: option.splits)
    from attachProp_grows [OF 1] obtain a where
      a: "grows (ap\<lparr>styleProp := None\<rparr>, g) a s1" "list_all isAttachCall a"
      "isAnimatedNode nextValue \<and> (k = ''style'' \<longrightarrow> isAnimatedStyle nextValue) \<longrightarrow>
         AddChild nextValue \<in> set a"
      "k = ''style'' \<and> \<not> isAnimatedStyle nextValue \<longrightarrow>
         AddChild (AnimatedStyle (nextId g) nextValue) \<in> set a"
      by auto
    from detachProp_grows [OF 2] obtain d where d: "grows s1 d s'" "list_all isDetachCall d"
      "isAnimatedNode composite \<and> (k = ''style'' \<longrightarrow> isAnimatedStyle composite) \<longrightarrow>
         RemoveChild composite \<in> set d" by blast
    have "grows s a s1" using a(1) by (simp add: grows_def Pair)
    then have "grows s (a @ d) s'" using d(1) by (rule grows_trans)
    moreover have "isAnimatedStyle composite \<longrightarrow> RemoveChild composite \<in> set d"
      using d(3) by simp
    ultimately show ?thesis
      using a(2,3,4) d(2) True c by (intro exI [of _ a] exI [of _ d]) (simp add: Pair)
  qed
qed

lemma replaceProp_log:
  "replaceProp k lv nv (ap, g) = Inr (ap', g') \<Longrightarrow> logAnimatedPerf g' = logAnimatedPerf g"
  using replaceProp_grows [of k lv nv "(ap, g)" "(ap', g')"] by (auto simp: grows_def)

lemma get_assign: "get (assign k v ps) k' = (if k' = k then v else get ps k')"
  by (induction ps) (auto simp: get_def)

lemma map_fst_assign: "k \<in> fst ` set ps \<Longrightarrow> map fst (assign k v ps) = map fst ps"
  by (induction ps) force+

lemma logPerf_off [simp]: "\<not> logAnimatedPerf g \<Longrightarrow> logPerf msg k g = g"
  by (simp add: logPerf_def)

lemma logPerfAt_off [simp]: "\<not> logAnimatedPerf g \<Longrightarrow> logPerfAt msg k vw g = Inr g"
  by (simp add: logPerfAt_def)

lemma updateKeys_eq:
  assumes "distinct ks" "\<forall>k\<in>set ks. get np k = get nextProps k" "\<not> logAnimatedPerf g"
  shows "updateKeys deepDiffer r lastProps ks ((ap, g), np, lk) =
     andThen (replaceAll lastProps nextProps
                (filter (keyChanged deepDiffer r lastProps nextProps) ks) (ap, g))
       (\<lambda>s1. Inr (s1, carryOver (keyChanged deepDiffer r lastProps nextProps) lastProps ks np,
                   filter (\<lambda>lastKey. lastKey \<notin> set ks) lk))"
  using assms
proof (induction ks arbitrary: ap g np lk)
  case Nil
  show ?case by simp
next
  case (Cons k ks)
  let ?ch = "keyChanged deepDiffer r lastProps nextProps"
  have gk: "get np k = get nextProps k" using Cons.prems by simp
  have flt: "filter (\<lambda>lastKey. lastKey \<notin> set ks) (filter (\<lambda>lastKey. lastKey \<noteq> k) xs) =
      filter (\<lambda>lastKey. lastKey \<notin> set (k # ks)) xs" for xs :: "key list"
    by (induction xs) auto
  show ?case
  proof (cases "?ch k")
    case True
    then have chk: "r \<or> animatedDiff deepDiffer (get lastProps k) (get nextProps k)"
      by (simp add: keyChanged_def)
    show ?thesis
    proof (cases "replaceProp k (get lastProps k) (get nextProps k) (ap, g)")
      case (Inl e)
      then show ?thesis
        using True chk Cons.prems(3) gk by simp
    next
      case (Inr s1)
      obtain ap1 g1 where s1: "s1 = (ap1, g1)" by (cases s1)
      have "\<not> logAnimatedPerf g1"
        using replaceProp_log [of k _ _ ap g ap1 g1] Inr Cons.prems(3) by (simp add: s1)
      then have "updateKeys deepDiffer r lastProps ks ((ap1, g1), np, filter (\<lambda>lastKey. lastKey \<noteq> k) lk) =
          andThen (replaceAll lastProps nextProps (filter ?ch ks) (ap1, g1))
            (\<lambda>s1. Inr (s1, carryOver ?ch lastProps ks np,
                        filter (\<lambda>lastKey. lastKey \<notin> set ks) (filter (\<lambda>lastKey. lastKey \<noteq> k) lk)))"
        using Cons.prems by (intro Cons.IH) auto
      then show ?thesis
        using True chk Inr Cons.prems(3) gk by (simp add: s1 flt)
    qed
  next
    case False
    then have chk: "\<not> (r \<or> animatedDiff deepDiffer (get lastProps k) (get nextProps k))"
      by (simp add: keyChanged_def)
    let ?np = "assign k (get lastProps k) np"
    have "\<forall>k'\<in>set ks. get ?np k' = get nextProps k'"
      using Cons.prems by (auto simp: get_assign)
    then have "updateKeys deepDiffer r lastProps ks ((ap, g), ?np, filter (\<lambda>lastKey. lastKey \<noteq> k) lk) =
        andThen (replaceAll lastProps nextProps (filter ?ch ks) (ap, g))
          (\<lambda>s1. Inr (s1, carryOver ?ch lastProps ks ?np,
                      filter (\<lambda>lastKey. lastKey \<notin> set ks) (filter (\<lambda>lastKey. lastKey \<noteq> k) lk)))"
      using Cons.prems by (intro Cons.IH) auto
    then show ?thesis
      using False chk Cons.prems(3) gk by (simp add: flt)
  qed
qed

lemma get_carryOver:
  "get (carryOver changed lastProps ks np) k =
     (if k \<in> set ks \<and> \<not> changed k then get lastProps k else get np k)"
  by (induction ks arbitrary: np) (auto simp: get_assign)

lemma map_fst_carryOver:
  "set ks \<subseteq> fst ` set np \<Longrightarrow> map fst (carryOver changed lastProps ks np) = map fst np"
proof (induction ks arbitrary: np)
  case Nil
  show ?case by simp
next
  case (Cons k ks)
  let ?np = "if changed k then np else assign k (get lastProps k) np"
  have m: "map fst ?np = map fst np"
    using Cons.prems by (simp add: map_fst_assign)
  then have "fst ` set ?np = fst ` set np"
    by (metis list.set_map)
  then have "map fst (carryOver changed lastProps ks ?np) = map fst ?np"
    using Cons.prems by (intro Cons.IH) simp
  then show ?case using m by simp
qed

lemma animatedKeys_subset: "set (animatedKeys ps) \<subseteq> set (map fst ps)"
  by (auto simp: animatedKeys_def)

lemma distinct_animatedKeys: "distinct (map fst ps) \<Longrightarrow> distinct (animatedKeys ps)"
  by (simp add: animatedKeys_def)

lemma updateProps_eq:
  assumes "distinct (map fst nextProps)" "\<not> logAnimatedPerf g"
  shows "updateProps deepDiffer nextProps (ap, g) =
     andThen (replaceAll (props ap) nextProps
                (filter (keyChanged deepDiffer (reattachAll ap) (props ap) nextProps)
                   (animatedKeys nextProps)) (ap, g))
       (\<lambda>s1. andThen (detachKeys (props ap)
                         (filter (\<lambda>lastKey. lastKey \<notin> set (animatedKeys nextProps))
                            (animatedKeys (props ap))) s1)
          (\<lambda>(ap2, g2).
             Inr (ap2\<lparr>props := carryOver (keyChanged deepDiffer (reattachAll ap) (props ap) nextProps)
                                 (props ap) (animatedKeys nextProps) nextProps,
                      reattachAll := False\<rparr>, g2)))"
proof -
  have "updateKeys deepDiffer (reattachAll ap) (props ap) (animatedKeys nextProps)
          ((ap, g), nextProps, animatedKeys (props ap)) =
     andThen (replaceAll (props ap) nextProps
                (filter (keyChanged deepDiffer (reattachAll ap) (props ap) nextProps)
                   (animatedKeys nextProps)) (ap, g))
       (\<lambda>s1. Inr (s1, carryOver (keyChanged deepDiffer (reattachAll ap) (props ap) nextProps)
                         (props ap) (animatedKeys nextProps) nextProps,
                   filter (\<lambda>lastKey. lastKey \<notin> set (animatedKeys nextProps))
                     (animatedKeys (props ap))))"
    using assms by (intro updateKeys_eq) (simp_all add: distinct_animatedKeys)
  then show ?thesis
    by (cases "replaceAll (props ap) nextProps
                (filter (keyChanged deepDiffer (reattachAll ap) (props ap) nextProps)
                   (animatedKeys nextProps)) (ap, g)")
       (simp_all add: updateProps_def Let_def)
qed

lemma forEach_grows:
  assumes step: "\<And>k v s s'. f k v s = Inr s' \<Longrightarrow> \<exists>t. grows s t s' \<and> list_all P t"
    and run: "forEach f ps s = Inr s'"
  shows "\<exists>t. grows s t s' \<and> list_all P t"
  using run
proof (induction ps arbitrary: s)
  case Nil
  then show ?case using grows_refl [of s] by (intro exI [of _ "[]"]) simp
next
  case (Cons p ps)
  obtain k v where p: "p = (k, v)" by (cases p)
  from Cons.prems obtain s1 where 1: "f k v s = Inr s1" and 2: "forEach f ps s1 = Inr s'"
    by (auto simp: p andThen_Inr_iff)
  from step [OF 1] obtain t1 where t1: "grows s t1 s1" "list_all P t1" by blast
  from Cons.IH [OF 2] obtain t2 where t2: "grows s1 t2 s'" "list_all P t2" by blast
  show ?case
    using grows_trans [OF t1(1) t2(1)] t1(2) t2(2) by (intro exI [of _ "t1 @ t2"]) simp
qed

lemma attachValueProps_grows:
  assumes "attachValueProps s = Inr s'"
  shows "\<exists>t. grows s t s' \<and> list_all isAttachCall t"
  using assms unfolding attachValueProps_def
  by (rule forEach_grows [rotated]) (use attachValueProp_grows in blast)

lemma attachEventProps_grows:
  assumes "attachEventProps s = Inr s'"
  shows "\<exists>t. grows s t s' \<and> list_all isAttachCall t"
  using assms unfolding attachEventProps_def
  by (rule forEach_grows [rotated]) (use attachEventProp_grows in blast)

lemma detachValueProps_grows:
  assumes "detachValueProps s = Inr s'"
  shows "\<exists>t. grows s t s' \<and> list_all isDetachCall t"
  using assms unfolding detachValueProps_def
  by (rule forEach_grows [rotated]) (use detachValueProp_grows in blast)

lemma detachEventProps_grows:
  assumes "detachEventProps s = Inr s'"
  shows "\<exists>t. grows s t s' \<and> list_all isDetachCall t"
  using assms unfolding detachEventProps_def
  by (rule forEach_grows [rotated]) (use detachEventProp_grows in blast)

lemma disconnectView_grows:
  assumes "disconnectView s = Inr s'"
  shows "\<exists>t. grows s t s' \<and> list_all isDetachCall t"
proof (cases s)
  case (Pair ap g)
  show ?thesis
    using assms unfolding Pair disconnectView_def
    by (auto simp: grows_def emit_def split: if_splits option.splits)
qed

lemma attach_grows:
  assumes "attach s = Inr s'"
  shows "\<exists>t. grows s t s' \<and> list_all isAttachCall t"
proof (cases s)
  case (Pair ap g)
  from assms obtain s1 where 1: "attachValueProps (ap, emit NodeAttach g) = Inr s1"
    and 2: "attachEventProps s1 = Inr s'"
    by (auto simp: Pair attach_def andThen_Inr_iff)
  have 0: "grows s [NodeAttach] (ap, emit NodeAttach g)"
    by (simp add: grows_def Pair emit_def)
  from attachValueProps_grows [OF 1] obtain t1 where
    t1: "grows (ap, emit NodeAttach g) t1 s1" "list_all isAttachCall t1" by blast
  from attachEventProps_grows [OF 2] obtain t2 where
    t2: "grows s1 t2 s'" "list_all isAttachCall t2" by blast
  show ?thesis
    using grows_trans [OF 0 grows_trans [OF t1(1) t2(1)]] t1(2) t2(2)
    by (intro exI [of _ "[NodeAttach] @ t1 @ t2"]) simp
qed

lemma newAnimatedProps_grows:
  assumes "newAnimatedProps ps g = Inr (ap, g')"
  shows "props ap = ps \<and> view ap = None \<and> \<not> isNative ap \<and> \<not> reattachAll ap \<and>
    \<not> firstValueReturned ap \<and> logAnimatedPerf g' = logAnimatedPerf g \<and>
    (\<exists>t. trace g' = trace g @ t \<and> list_all isAttachCall t)"
  using attach_grows [OF assms [unfolded newAnimatedProps_def]]
  by (auto simp: grows_def)

lemma detach_grows:
  assumes "detach s = Inr s'"
  shows "\<exists>t. grows s t s' \<and> list_all isDetachCall t"
proof -
  from assms obtain s1 s2 ap3 g3 where 1: "disconnectView s = Inr s1"
    and 2: "detachEventProps s1 = Inr s2" and 3: "detachValueProps s2 = Inr (ap3, g3)"
    and 4: "s' = (ap3, emit NodeDetach g3)"
    by (auto simp: detach_def andThen_Inr_iff)
  from disconnectView_grows [OF 1] obtain t1 where t1: "grows s t1 s1" "list_all isDetachCall t1"
    by blast
  from detachEventProps_grows [OF 2] obtain t2 where t2: "grows s1 t2 s2" "list_all isDetachCall t2"
    by blast
  from detachValueProps_grows [OF 3] obtain t3 where
    t3: "grows s2 t3 (ap3, g3)" "list_all isDetachCall t3" by blast
  have t4: "grows (ap3, g3) [NodeDetach] s'"
    by (simp add: grows_def 4 emit_def)
  show ?thesis
    using grows_trans [OF t1(1) grows_trans [OF t2(1) grows_trans [OF t3(1) t4]]] t1(2) t2(2) t3(2)
    by (intro exI [of _ "t1 @ t2 @ t3 @ [NodeDetach]"]) simp
qed

lemma detachKeys_grows:
  assumes "detachKeys lastProps ks s = Inr s'" "\<not> logAnimatedPerf (snd s)"
  shows "\<exists>t. grows s t s' \<and> list_all isDetachCall t"
  using assms
proof (induction ks arbitrary: s)
  case Nil
  then show ?case using grows_refl [of s] by (intro exI [of _ "[]"]) simp
next
  case (Cons k ks)
  obtain ap g where s: "s = (ap, g)" by (cases s)
  from Cons.prems obtain s1 where 1: "detachProp k (get lastProps k) s = Inr s1"
    and 2: "detachKeys lastProps ks s1 = Inr s'"
    by (auto simp: s andThen_Inr_iff)
  from detachProp_grows [OF 1] obtain t1 where t1: "grows s t1 s1" "list_all isDetachCall t1"
    by blast
  then have "\<not> logAnimatedPerf (snd s1)" using Cons.prems(2) by (simp add: grows_def)
  from Cons.IH [OF 2 this] obtain t2 where t2: "grows s1 t2 s'" "list_all isDetachCall t2"
    by blast
  show ?case
    using grows_trans [OF t1(1) t2(1)] t1(2) t2(2) by (intro exI [of _ "t1 @ t2"]) simp
qed

lemma updateKeys_reattach:
  "updateKeys deepDiffer True lastProps ks x = updateKeys deepDiffer' True lastProps ks x"
proof (induction ks arbitrary: x)
  case Nil
  show ?case by simp
next
  case (Cons k ks)
  obtain ap g np lk where x: "x = ((ap, g), np, lk)" by (cases x) auto
  show ?case
    by (simp add: x Cons)
qed

lemma updateProps_reattach:
  "reattachAll ap \<Longrightarrow>
   updateProps deepDiffer nextProps (ap, g) = updateProps deepDiffer' nextProps (ap, g)"
  by (simp add: updateProps_def updateKeys_reattach [of deepDiffer _ _ _ deepDiffer'])

lemma carryOver_all_changed:
  "(\<forall>k\<in>set ks. changed k) \<Longrightarrow> carryOver changed lastProps ks np = np"
  by (induction ks arbitrary: np) auto

lemma eventCalls_single:
  "eventCalls call vw [(k, v)] =
     (case vw of
        None \<Rightarrow> []
      | Some w \<Rightarrow> if isAnimatedEvent v \<and> eventIsNative v then [call v (scrollableView w) k] else [])"
  by (cases vw) (auto simp: eventCalls_def nativeEventProps_def)

lemma not_event_calls [simp]:
  "\<not> isAnimatedEvent v \<Longrightarrow> eventCalls call vw [(k, v)] = []"
  by (simp add: eventCalls_single split: option.splits)

lemma style_not_event [simp]: "isAnimatedStyle v \<Longrightarrow> \<not> isAnimatedEvent v"
  by (cases v) auto

lemma attachValueProp_eq:
  "attachValueProp k v (ap, g) =
     (if k = ''style'' \<and> \<not> isAnimatedStyle v then
        (case styleProp ap of
           Some old \<Rightarrow> Inl (Invariant ''Expected last style prop to be detached'')
         | None \<Rightarrow>
             Inr (ap\<lparr>styleProp := Some (AnimatedStyle (nextId g) v)\<rparr>,
                  g\<lparr>nextId := Suc (nextId g),
                    trace := trace g @ [AddChild (AnimatedStyle (nextId g) v)]\<rparr>))
      else Inr (ap, g\<lparr>trace := trace g @ nodeCall AddChild v\<rparr>))"
  by (simp add: attachValueProp_def newAnimatedStyle_def nodeCall_def emit_def
      split: option.splits)

lemma detachValueProp_eq:
  "detachValueProp k v (ap, g) =
     (if k = ''style'' \<and> \<not> isAnimatedStyle v then
        (case styleProp ap of
           None \<Rightarrow> Inl (Invariant ''Expected style prop to detach'')
         | Some composite \<Rightarrow>
             Inr (ap\<lparr>styleProp := None\<rparr>, g\<lparr>trace := trace g @ nodeCall RemoveChild composite\<rparr>))
      else Inr (ap, g\<lparr>trace := trace g @ nodeCall RemoveChild v\<rparr>))"
  by (simp add: detachValueProp_def nodeCall_def emit_def split: option.splits)

lemma detachProp_eq:
  assumes "k = ''style'' \<and> \<not> isAnimatedStyle v \<longrightarrow> styleProp ap \<noteq> None"
  shows "detachProp k v (ap, g) =
     Inr (if k = ''style'' \<and> \<not> isAnimatedStyle v then ap\<lparr>styleProp := None\<rparr> else ap,
          g\<lparr>trace := trace g @ detachCalls ap k v\<rparr>)"
  using assms
  by (auto simp: detachProp_def detachValueProp_eq detachEventProp_eq detachCalls_def
      detachedNode_def eventCalls_single split: option.splits)

lemma makeValuePropNative_eq:
  "makeValuePropNative k v (ap, g) =
     (if \<not> isNative ap then Inr (ap, g)
      else if k = ''style'' \<and> styleProp ap = None
      then Inl (Invariant ''Expected style prop to make native'')
      else Inr (ap, if isAnimatedNode (styleValue ap k v)
                    then nodeMakeNative (styleValue ap k v) g else g))"
  by (auto simp: makeValuePropNative_def styleValue_def split: option.splits)

lemma nodeMakeNative_fields [simp]:
  "trace (nodeMakeNative v g) = trace g @ [MakeNative v]"
  "nextId (nodeMakeNative v g) = nextId g"
  "logAnimatedPerf (nodeMakeNative v g) = logAnimatedPerf g"
  by (simp_all add: nodeMakeNative_def emit_def)

lemma attachProp_calls:
  assumes "k = ''style'' \<longrightarrow> styleProp ap = None \<and> \<not> (isNative ap \<and> isAnimatedStyle v)"
  shows "\<exists>g'. attachProp k v (ap, g) =
       Inr (if k = ''style'' then ap\<lparr>styleProp := cachedStyle (nextId g) v\<rparr> else ap, g') \<and>
     logAnimatedPerf g' = logAnimatedPerf g \<and>
     nextId g' = (if k = ''style'' \<and> \<not> isAnimatedStyle v then Suc (nextId g) else nextId g) \<and>
     trace g' = trace g @ attachCalls ap (nextId g) k v"
proof (cases "k = ''style''")
  case False
  then show ?thesis
    by (simp add: attachProp_def attachValueProp_eq makeValuePropNative_eq attachEventProp_eq
        attachCalls_def attachedNode_def styleValue_def nodeCall_def eventCalls_single)
next
  case True
  show ?thesis
  proof (cases "isAnimatedStyle v")
    case False
    then show ?thesis
      using True assms
      by (simp add: attachProp_def attachValueProp_eq makeValuePropNative_eq attachEventProp_eq
          attachCalls_def attachedNode_def styleValue_def nodeCall_def eventCalls_single
          cachedStyle_def)
  next
    case isStyle: True
    then have "\<not> isNative ap" using True assms by simp
    then show ?thesis
      using True assms isStyle
      by (simp add: attachProp_def attachValueProp_eq makeValuePropNative_eq attachEventProp_eq
          attachCalls_def attachedNode_def nodeCall_def eventCalls_single cachedStyle_def)
  qed
qed

lemma replaceProp_calls:
  assumes "k = ''style'' \<longrightarrow>
      (\<exists>c. styleProp ap = Some c \<and> isAnimatedStyle c) \<and> \<not> (isNative ap \<and> isAnimatedStyle nv)"
  shows "\<exists>g'. replaceProp k lv nv (ap, g) =
       Inr (if k = ''style'' then ap\<lparr>styleProp := cachedStyle (nextId g) nv\<rparr> else ap, g') \<and>
     logAnimatedPerf g' = logAnimatedPerf g \<and>
     nextId g' = (if k = ''style'' \<and> \<not> isAnimatedStyle nv then Suc (nextId g) else nextId g) \<and>
     trace g' = trace g @ replaceCalls ap (nextId g) k lv nv"
proof (cases "k = ''style''")
  case False
  from attachProp_calls [of k ap nv g] False obtain g1 where
    1: "attachProp k nv (ap, g) = Inr (ap, g1)" "logAnimatedPerf g1 = logAnimatedPerf g"
      "nextId g1 = nextId g" "trace g1 = trace g @ attachCalls ap (nextId g) k nv"
    by auto
  have 2: "detachProp k lv (ap, g1) = Inr (ap, g1\<lparr>trace := trace g1 @ detachCalls ap k lv\<rparr>)"
    using False detachProp_eq [of k lv ap g1] by simp
  show ?thesis
    using False 1 2
    by (simp add: replaceProp_def replaceCalls_def styleValue_def)
next
  case True
  then obtain c where c: "styleProp ap = Some c" "isAnimatedStyle c"
    and n: "\<not> (isNative ap \<and> isAnimatedStyle nv)"
    using assms by auto
  let ?ap0 = "ap\<lparr>styleProp := None\<rparr>"
  let ?ap1 = "ap\<lparr>styleProp := cachedStyle (nextId g) nv\<rparr>"
  from attachProp_calls [of k ?ap0 nv g] True n obtain g1 where
    1: "attachProp k nv (?ap0, g) = Inr (?ap1, g1)" "logAnimatedPerf g1 = logAnimatedPerf g"
      "nextId g1 = (if \<not> isAnimatedStyle nv then Suc (nextId g) else nextId g)"
      "trace g1 = trace g @ attachCalls ?ap0 (nextId g) k nv"
    by auto
  have a: "attachCalls ?ap0 (nextId g) k nv = attachCalls ap (nextId g) k nv"
    by (simp add: attachCalls_def)
  have 2: "detachProp k c (?ap1, g1) = Inr (?ap1, g1\<lparr>trace := trace g1 @ detachCalls ?ap1 k c\<rparr>)"
    using c(2) detachProp_eq [of k c ?ap1 g1] by simp
  have d: "detachCalls ?ap1 k c = detachCalls ap k (styleValue ap k lv)"
    using True c by (simp add: detachCalls_def detachedNode_def styleValue_def)
  show ?thesis
    using True c 1 2 a d
    by (simp add: replaceProp_def replaceCalls_def)
qed

lemma replaceProp_missing:
  assumes "styleProp ap = None"
  shows "replaceProp ''style'' lv nv (ap, g) = Inl (Invariant ''Expected style prop to detach'')"
  using assms by (simp add: replaceProp_def)

lemma replaceProp_native_style:
  assumes "styleProp ap = Some c" "isNative ap" "isAnimatedStyle nv"
  shows "replaceProp ''style'' lv nv (ap, g) =
     Inl (Invariant ''Expected style prop to make native'')"
  using assms
  by (simp add: replaceProp_def attachProp_def attachValueProp_eq makeValuePropNative_eq)

lemma replaceCalls_other:
  "k \<noteq> ''style'' \<Longrightarrow>
   replaceCalls (ap\<lparr>styleProp := x\<rparr>) n k lv nv = replaceCalls ap m k lv nv"
  by (simp add: replaceCalls_def attachCalls_def detachCalls_def attachedNode_def
      detachedNode_def styleValue_def)

lemma detachCalls_other:
  "k \<noteq> ''style'' \<Longrightarrow> detachCalls (ap\<lparr>styleProp := x\<rparr>) k v = detachCalls ap k v"
  by (simp add: detachCalls_def detachedNode_def)

lemma replaceAll_calls:
  assumes "distinct ks"
    "''style'' \<in> set ks \<longrightarrow>
       (\<exists>c. styleProp ap = Some c \<and> isAnimatedStyle c) \<and>
       \<not> (isNative ap \<and> isAnimatedStyle (get nextProps ''style''))"
  shows "\<exists>g'. replaceAll lastProps nextProps ks (ap, g) =
       Inr (if ''style'' \<in> set ks
            then ap\<lparr>styleProp := cachedStyle (nextId g) (get nextProps ''style'')\<rparr> else ap, g') \<and>
     logAnimatedPerf g' = logAnimatedPerf g \<and>
     nextId g' = (if ''style'' \<in> set ks \<and> \<not> isAnimatedStyle (get nextProps ''style'')
                  then Suc (nextId g) else nextId g) \<and>
     trace g' = trace g @
       concat (map (\<lambda>k. replaceCalls ap (nextId g) k (get lastProps k) (get nextProps k)) ks)"
  using assms
proof (induction ks arbitrary: ap g)
  case Nil
  show ?case by simp
next
  case (Cons k ks)
  let ?calls = "\<lambda>ap n k. replaceCalls ap n k (get lastProps k) (get nextProps k)"
  show ?case
  proof (cases "k = ''style''")
    case True
    then have rest: "''style'' \<notin> set ks" "distinct ks" using Cons.prems(1) by auto
    let ?ap1 = "ap\<lparr>styleProp := cachedStyle (nextId g) (get nextProps ''style'')\<rparr>"
    from replaceProp_calls [of k ap "get nextProps k" "get lastProps k" g] True Cons.prems(2)
    obtain g1 where
      1: "replaceProp k (get lastProps k) (get nextProps k) (ap, g) = Inr (?ap1, g1)"
        "logAnimatedPerf g1 = logAnimatedPerf g"
        "nextId g1 = (if \<not> isAnimatedStyle (get nextProps ''style'') then Suc (nextId g)
                      else nextId g)"
        "trace g1 = trace g @ ?calls ap (nextId g) k"
      by auto
    from Cons.IH [of ?ap1 g1] rest obtain g' where
      2: "replaceAll lastProps nextProps ks (?ap1, g1) = Inr (?ap1, g')"
        "logAnimatedPerf g' = logAnimatedPerf g1" "nextId g' = nextId g1"
        "trace g' = trace g1 @ concat (map (?calls ?ap1 (nextId g1)) ks)"
      by auto
    have "x \<noteq> ''style''" if "x \<in> set ks" for x using rest(1) that by auto
    then have "map (?calls ?ap1 n) ks = map (?calls ap (nextId g)) ks" for n
      by (intro map_cong refl replaceCalls_other)
    then have eq: "concat (map (?calls ?ap1 n) ks) = concat (map (?calls ap (nextId g)) ks)" for n
      by (rule arg_cong)
    have t: "trace g' = trace g @ ?calls ap (nextId g) k @ concat (map (?calls ap (nextId g)) ks)"
      unfolding 2(4) 1(4) eq by simp
    show ?thesis
      using True 1(1,2,3) 2(1,2,3) t by (intro exI [of _ g']) simp
  next
    case False
    from replaceProp_calls [of k ap "get nextProps k" "get lastProps k" g] False
    obtain g1 where
      1: "replaceProp k (get lastProps k) (get nextProps k) (ap, g) = Inr (ap, g1)"
        "logAnimatedPerf g1 = logAnimatedPerf g" "nextId g1 = nextId g"
        "trace g1 = trace g @ ?calls ap (nextId g) k"
      by auto
    have pre: "distinct ks" "''style'' \<in> set ks \<longrightarrow>
       (\<exists>c. styleProp ap = Some c \<and> isAnimatedStyle c) \<and>
       \<not> (isNative ap \<and> isAnimatedStyle (get nextProps ''style''))"
      using Cons.prems by auto
    from Cons.IH [OF pre, of g1] obtain g' where
      2: "replaceAll lastProps nextProps ks (ap, g1) =
            Inr (if ''style'' \<in> set ks
                 then ap\<lparr>styleProp := cachedStyle (nextId g1) (get nextProps ''style'')\<rparr>
                 else ap, g')"
        "logAnimatedPerf g' = logAnimatedPerf g1"
        "nextId g' = (if ''style'' \<in> set ks \<and> \<not> isAnimatedStyle (get nextProps ''style'')
                      then Suc (nextId g1) else nextId g1)"
        "trace g' = trace g1 @ concat (map (?calls ap (nextId g1)) ks)"
      by blast
    show ?thesis
      using False 1 2 by (intro exI [of _ g']) simp
  qed
qed

lemma replaceAll_missing:
  assumes "''style'' \<in> set ks" "styleProp ap = None"
  shows "replaceAll lastProps nextProps ks (ap, g) =
     Inl (Invariant ''Expected style prop to detach'')"
  using assms
proof (induction ks arbitrary: g)
  case Nil
  then show ?case by simp
next
  case (Cons k ks)
  show ?case
  proof (cases "k = ''style''")
    case True
    then show ?thesis using Cons.prems(2) by (simp add: replaceProp_missing)
  next
    case False
    from replaceProp_calls [of k ap "get nextProps k" "get lastProps k" g] False
    obtain g1 where "replaceProp k (get lastProps k) (get nextProps k) (ap, g) = Inr (ap, g1)"
      by auto
    then show ?thesis using Cons False by simp
  qed
qed

lemma replaceAll_native_style:
  assumes "''style'' \<in> set ks" "styleProp ap = Some c" "isNative ap"
    "isAnimatedStyle (get nextProps ''style'')"
  shows "replaceAll lastProps nextProps ks (ap, g) =
     Inl (Invariant ''Expected style prop to make native'')"
  using assms
proof (induction ks arbitrary: g)
  case Nil
  then show ?case by simp
next
  case (Cons k ks)
  show ?case
  proof (cases "k = ''style''")
    case True
    then show ?thesis using Cons.prems by (simp add: replaceProp_native_style)
  next
    case False
    from replaceProp_calls [of k ap "get nextProps k" "get lastProps k" g] False
    obtain g1 where "replaceProp k (get lastProps k) (get nextProps k) (ap, g) = Inr (ap, g1)"
      by auto
    then show ?thesis using Cons False by simp
  qed
qed

lemma detachKeys_calls:
  assumes "distinct ks" "\<not> logAnimatedPerf g"
    "''style'' \<in> set ks \<and> \<not> isAnimatedStyle (get lastProps ''style'') \<longrightarrow> styleProp ap \<noteq> None"
  shows "detachKeys lastProps ks (ap, g) =
     Inr (if ''style'' \<in> set ks \<and> \<not> isAnimatedStyle (get lastProps ''style'')
          then ap\<lparr>styleProp := None\<rparr> else ap,
          g\<lparr>trace := trace g @ concat (map (\<lambda>k. detachCalls ap k (get lastProps k)) ks)\<rparr>)"
  using assms
proof (induction ks arbitrary: ap g)
  case Nil
  show ?case by simp
next
  case (Cons k ks)
  let ?v = "get lastProps k"
  let ?ap1 = "if k = ''style'' \<and> \<not> isAnimatedStyle ?v then ap\<lparr>styleProp := None\<rparr> else ap"
  let ?g1 = "g\<lparr>trace := trace g @ detachCalls ap k ?v\<rparr>"
  have 1: "detachProp k ?v (ap, g) = Inr (?ap1, ?g1)"
    using Cons.prems(3) by (intro detachProp_eq) auto
  have rest: "distinct ks" "k \<notin> set ks" using Cons.prems(1) by auto
  have pre: "''style'' \<in> set ks \<and> \<not> isAnimatedStyle (get lastProps ''style'') \<longrightarrow>
      styleProp ?ap1 \<noteq> None"
    using Cons.prems(3) rest(2) by auto
  have 2: "detachKeys lastProps ks (?ap1, ?g1) =
     Inr (if ''style'' \<in> set ks \<and> \<not> isAnimatedStyle (get lastProps ''style'')
          then ?ap1\<lparr>styleProp := None\<rparr> else ?ap1,
          ?g1\<lparr>trace := trace ?g1 @ concat (map (\<lambda>k. detachCalls ?ap1 k (get lastProps k)) ks)\<rparr>)"
    using Cons.prems(2) by (intro Cons.IH [OF rest(1) _ pre]) simp
  have 3: "map (\<lambda>k. detachCalls ?ap1 k (get lastProps k)) ks =
      map (\<lambda>k. detachCalls ap k (get lastProps k)) ks"
  proof (cases "k = ''style'' \<and> \<not> isAnimatedStyle ?v")
    case True
    then have "x \<noteq> ''style''" if "x \<in> set ks" for x using rest(2) that by auto
    then show ?thesis
      using True by (simp add: detachCalls_other cong: map_cong)
  next
    case False
    then show ?thesis by auto
  qed
  show ?case
    using Cons.prems(2) 1 2 rest(2) unfolding 3
    by (cases "k = ''style''") auto
qed

lemma detachKeys_missing:
  assumes "''style'' \<in> set ks" "\<not> isAnimatedStyle (get lastProps ''style'')"
    "styleProp ap = None" "\<not> logAnimatedPerf g"
  shows "detachKeys lastProps ks (ap, g) = Inl (Invariant ''Expected style prop to detach'')"
  using assms(1,4)
proof (induction ks arbitrary: g)
  case Nil
  then show ?case by simp
next
  case (Cons k ks)
  show ?case
  proof (cases "k = ''style''")
    case True
    then show ?thesis
      using assms(2,3) Cons.prems(2) by (simp add: detachProp_def detachValueProp_eq)
  next
    case False
    have "detachProp k (get lastProps k) (ap, g) =
        Inr (ap, g\<lparr>trace := trace g @ detachCalls ap k (get lastProps k)\<rparr>)"
      using False detachProp_eq [of k "get lastProps k" ap g] by simp
    then show ?thesis
      using Cons False by simp
  qed
qed

lemma carryOver_cong:
  "(\<And>k. k \<in> set ks \<Longrightarrow> p k = q k) \<Longrightarrow> carryOver p lastProps ks np = carryOver q lastProps ks np"
  by (induction ks arbitrary: np) auto

lemma updateProps_unfold:
  assumes "distinct (map fst nextProps)" "\<not> logAnimatedPerf g"
  shows "updateProps deepDiffer nextProps (ap, g) =
     andThen (replaceAll (props ap) nextProps (changedKeys deepDiffer ap nextProps) (ap, g))
       (\<lambda>s1. andThen (detachKeys (props ap) (removedKeys ap nextProps) s1)
          (\<lambda>(ap2, g2).
             Inr (ap2\<lparr>props := updatedBag (changedKeys deepDiffer ap nextProps) ap nextProps,
                      reattachAll := False\<rparr>, g2)))"
proof -
  have "carryOver (keyChanged deepDiffer (reattachAll ap) (props ap) nextProps) (props ap)
          (animatedKeys nextProps) nextProps =
      updatedBag (changedKeys deepDiffer ap nextProps) ap nextProps"
    unfolding updatedBag_def by (rule carryOver_cong) (simp add: changedKeys_def)
  then show ?thesis
    using updateProps_eq [OF assms, of deepDiffer ap]
    by (simp add: changedKeys_def removedKeys_def)
qed

lemma style_in_animatedKeys:
  "''style'' \<in> set (animatedKeys ps) \<longleftrightarrow> ''style'' \<in> set (map fst ps)"
  by (auto simp: animatedKeys_def)

lemma updateProps_calls:
  assumes "distinct (map fst nextProps)" "distinct (map fst (props ap))" "\<not> logAnimatedPerf g"
    "styleTyped ap"
    "needsComposite (changedKeys deepDiffer ap nextProps) ap nextProps \<longrightarrow> styleProp ap \<noteq> None"
    "\<not> nativeUncached (changedKeys deepDiffer ap nextProps) ap nextProps"
  shows "\<exists>g'. updateProps deepDiffer nextProps (ap, g) =
       Inr (ap\<lparr>props := updatedBag (changedKeys deepDiffer ap nextProps) ap nextProps,
               styleProp := updatedStyle (changedKeys deepDiffer ap nextProps) ap (nextId g) nextProps,
               reattachAll := False\<rparr>, g') \<and>
     logAnimatedPerf g' = logAnimatedPerf g \<and>
     trace g' = trace g @ updateCalls (changedKeys deepDiffer ap nextProps) ap (nextId g) nextProps"
proof -
  let ?ch = "changedKeys deepDiffer ap nextProps"
  let ?rm = "removedKeys ap nextProps"
  let ?ap1 = "if ''style'' \<in> set ?ch
              then ap\<lparr>styleProp := cachedStyle (nextId g) (get nextProps ''style'')\<rparr> else ap"
  let ?gone = "''style'' \<in> set ?rm \<and> \<not> isAnimatedStyle (get (props ap) ''style'')"
  have dch: "distinct ?ch"
    using assms(1) by (simp add: changedKeys_def distinct_animatedKeys)
  have drm: "distinct ?rm"
    using assms(2) by (simp add: removedKeys_def distinct_animatedKeys)
  have excl: "''style'' \<in> set ?ch \<Longrightarrow> ''style'' \<notin> set ?rm"
    by (auto simp: changedKeys_def removedKeys_def)
  have pre1: "''style'' \<in> set ?ch \<longrightarrow>
       (\<exists>c. styleProp ap = Some c \<and> isAnimatedStyle c) \<and>
       \<not> (isNative ap \<and> isAnimatedStyle (get nextProps ''style''))"
    using assms(4,5,6)
    by (auto simp: needsComposite_def nativeUncached_def styleTyped_def split: option.splits)
  from replaceAll_calls [OF dch pre1, of "props ap" g] obtain g1 where
    1: "replaceAll (props ap) nextProps ?ch (ap, g) = Inr (?ap1, g1)"
      "logAnimatedPerf g1 = logAnimatedPerf g"
      "trace g1 = trace g @
         concat (map (\<lambda>k. replaceCalls ap (nextId g) k (get (props ap) k) (get nextProps k)) ?ch)"
    by blast
  have pre2: "?gone \<longrightarrow> styleProp ?ap1 \<noteq> None"
    using assms(5) excl by (auto simp: needsComposite_def)
  have 2: "detachKeys (props ap) ?rm (?ap1, g1) =
     Inr (if ?gone then ?ap1\<lparr>styleProp := None\<rparr> else ?ap1,
          g1\<lparr>trace := trace g1 @ concat (map (\<lambda>k. detachCalls ?ap1 k (get (props ap) k)) ?rm)\<rparr>)"
    using assms(3) 1(2) by (intro detachKeys_calls [OF drm _ pre2]) simp
  have 3: "map (\<lambda>k. detachCalls ?ap1 k (get (props ap) k)) ?rm =
      map (\<lambda>k. detachCalls ap k (get (props ap) k)) ?rm"
  proof (cases "''style'' \<in> set ?ch")
    case True
    then have "x \<noteq> ''style''" if "x \<in> set ?rm" for x using excl that by auto
    then show ?thesis using True by (simp add: detachCalls_other cong: map_cong)
  next
    case False
    then show ?thesis by simp
  qed
  let ?g' = "g1\<lparr>trace := trace g1 @ concat (map (\<lambda>k. detachCalls ap k (get (props ap) k)) ?rm)\<rparr>"
  have 4: "updateProps deepDiffer nextProps (ap, g) =
      Inr ((if ?gone then ?ap1\<lparr>styleProp := None\<rparr> else ?ap1)
             \<lparr>props := updatedBag ?ch ap nextProps, reattachAll := False\<rparr>, ?g')"
    unfolding updateProps_unfold [OF assms(1,3)] 1(1) using 2 unfolding 3 by simp
  have 5: "(if ?gone then ?ap1\<lparr>styleProp := None\<rparr> else ?ap1)
             \<lparr>props := updatedBag ?ch ap nextProps, reattachAll := False\<rparr> =
      ap\<lparr>props := updatedBag ?ch ap nextProps,
         styleProp := updatedStyle ?ch ap (nextId g) nextProps,
         reattachAll := False\<rparr>"
    using excl by (auto simp: updatedStyle_def)
  show ?thesis
    unfolding 4 5 using 1(2,3) by (intro exI [of _ ?g']) (simp add: updateCalls_def)
qed

lemma updateProps_missing:
  assumes "distinct (map fst nextProps)" "\<not> logAnimatedPerf g"
    "needsComposite (changedKeys deepDiffer ap nextProps) ap nextProps" "styleProp ap = None"
  shows "updateProps deepDiffer nextProps (ap, g) =
     Inl (Invariant ''Expected style prop to detach'')"
proof (cases "''style'' \<in> set (changedKeys deepDiffer ap nextProps)")
  case True
  show ?thesis
    unfolding updateProps_unfold [OF assms(1,2)]
    by (simp add: replaceAll_missing [OF True assms(4)])
next
  case False
  let ?ch = "changedKeys deepDiffer ap nextProps"
  have gone: "''style'' \<in> set (removedKeys ap nextProps)"
    "\<not> isAnimatedStyle (get (props ap) ''style'')"
    using assms(3) False by (auto simp: needsComposite_def)
  have dch: "distinct ?ch"
    using assms(1) by (simp add: changedKeys_def distinct_animatedKeys)
  from replaceAll_calls [OF dch, of ap nextProps "props ap" g] False obtain g1 where
    1: "replaceAll (props ap) nextProps ?ch (ap, g) = Inr (ap, g1)"
      "logAnimatedPerf g1 = logAnimatedPerf g"
    by auto
  have 2: "detachKeys (props ap) (removedKeys ap nextProps) (ap, g1) =
      Inl (Invariant ''Expected style prop to detach'')"
    using assms(2) 1(2) by (intro detachKeys_missing [OF gone assms(4)]) simp
  show ?thesis
    unfolding updateProps_unfold [OF assms(1,2)] 1(1) by (simp add: 2)
qed

lemma updateProps_native_style:
  assumes "distinct (map fst nextProps)" "\<not> logAnimatedPerf g"
    "nativeUncached (changedKeys deepDiffer ap nextProps) ap nextProps" "styleProp ap \<noteq> None"
  shows "updateProps deepDiffer nextProps (ap, g) =
     Inl (Invariant ''Expected style prop to make native'')"
proof -
  from assms(4) obtain c where c: "styleProp ap = Some c" by auto
  have n: "''style'' \<in> set (changedKeys deepDiffer ap nextProps)" "isNative ap"
    "isAnimatedStyle (get nextProps ''style'')"
    using assms(3) by (simp_all add: nativeUncached_def)
  show ?thesis
    unfolding updateProps_unfold [OF assms(1,2)]
    by (simp add: replaceAll_native_style [OF n(1) c n(2,3)])
qed

lemma attachProps1_wholesale:
  assumes "force = Some True \<or> truthy (animatedValuePropsChanged deepDiffer (thisProps1 c) nextProps)"
  shows "attachProps1 deepDiffer nextProps force (c, g) =
     andThen
       (newAnimatedProps nextProps
          (if truthy (animatedValuePropsChanged deepDiffer (thisProps1 c) nextProps)
           then logPerf ''reattaching values for prop''
                  (case animatedValuePropsChanged deepDiffer (thisProps1 c) nextProps of
                     Str k \<Rightarrow> Some k | _ \<Rightarrow> None) g
           else g))
       (\<lambda>(apNew, g2).
          (case propsAnimated c of
             None \<Rightarrow> Inr (c\<lparr>propsAnimated := Some apNew\<rparr>, g2)
           | Some old \<Rightarrow>
               andThen (detach (old, g2)) (\<lambda>(old', g3).
                 Inr (c\<lparr>propsAnimated := Some apNew\<rparr>, g3))))"
  using assms by (auto simp: attachProps1_def Let_def)

lemma keys_changed_truthy:
  assumes "deepDiffer (keysArray (animatedValueKeys lastProps)) (keysArray (animatedValueKeys nextProps))"
  shows "animatedValuePropsChanged deepDiffer lastProps nextProps = Bool True"
  using assms by (simp add: animatedValuePropsChanged_def animatedPropsChanged_def)

lemma makeValuePropsNative_calls:
  assumes "isNative ap" "''style'' \<in> set (map fst ps) \<longrightarrow> styleProp ap \<noteq> None"
  shows "\<exists>g'. forEach makeValuePropNative ps (ap, g) = Inr (ap, g') \<and>
     logAnimatedPerf g' = logAnimatedPerf g \<and> nextId g' = nextId g \<and>
     trace g' = trace g @ concat (map (\<lambda>(k, v). nodeCall MakeNative (styleValue ap k v)) ps)"
  using assms(2)
proof (induction ps arbitrary: g)
  case Nil
  show ?case by simp
next
  case (Cons p ps)
  obtain k v where p: "p = (k, v)" by (cases p)
  let ?g1 = "if isAnimatedNode (styleValue ap k v) then nodeMakeNative (styleValue ap k v) g else g"
  have 1: "makeValuePropNative k v (ap, g) = Inr (ap, ?g1)"
    using assms(1) Cons.prems by (auto simp: makeValuePropNative_eq p)
  from Cons.IH [of ?g1] Cons.prems obtain g' where
    2: "forEach makeValuePropNative ps (ap, ?g1) = Inr (ap, g')"
      "logAnimatedPerf g' = logAnimatedPerf ?g1" "nextId g' = nextId ?g1"
      "trace g' = trace ?g1 @ concat (map (\<lambda>(k, v). nodeCall MakeNative (styleValue ap k v)) ps)"
    by auto
  show ?case
    using 1 2 by (intro exI [of _ g']) (simp add: p nodeCall_def)
qed

lemma makeValuePropsNative_missing:
  assumes "isNative ap" "''style'' \<in> set (map fst ps)" "styleProp ap = None"
  shows "forEach makeValuePropNative ps (ap, g) =
     Inl (Invariant ''Expected style prop to make native'')"
  using assms(2)
proof (induction ps arbitrary: g)
  case Nil
  then show ?case by simp
next
  case (Cons p ps)
  obtain k v where p: "p = (k, v)" by (cases p)
  show ?case
  proof (cases "k = ''style''")
    case True
    then show ?thesis using assms(1,3) by (simp add: p makeValuePropNative_eq)
  next
    case False
    then show ?thesis
      using assms(1) Cons by (auto simp: p makeValuePropNative_eq)
  qed
qed

lemma logPerfAt_eq:
  "logAnimatedPerf g \<longrightarrow> viewLocation vw = Inr location \<Longrightarrow>
   logPerfAt msg k vw g =
     Inr (g\<lparr>trace := trace g @ (if logAnimatedPerf g then [ConsoleLogAt msg k location] else [])\<rparr>)"
  by (auto simp: logPerfAt_def emit_def)

lemma makeNative_calls:
  assumes "\<not> isNative ap" "styleOk ap" "locatable (ap\<lparr>isNative := True\<rparr>) (view ap)"
    "logAnimatedPerf g \<and> firstValueReturned ap \<longrightarrow> viewLocation (view ap) = Inr location"
  shows "\<exists>g'. makeNative (ap, g) =
       Inr (ap\<lparr>reattachAll := firstValueReturned ap \<or> reattachAll ap, isNative := True\<rparr>, g') \<and>
     logAnimatedPerf g' = logAnimatedPerf g \<and> nextId g' = nextId g \<and>
     trace g' = trace g @ nativeLog ap g location @ nativeCalls ap @
       viewCalls ConnectAnimatedNodeToView (ap\<lparr>isNative := True\<rparr>) (view ap)"
proof -
  let ?ap1 = "ap\<lparr>reattachAll := firstValueReturned ap \<or> reattachAll ap, isNative := True\<rparr>"
  let ?g0 = "g\<lparr>trace := trace g @ nativeLog ap g location\<rparr>"
  have 0: "(if firstValueReturned ap
            then andThen
                   (logPerfAt ''making native after first values returned'' None (view ap) g)
                   (\<lambda>g1. Inr (ap\<lparr>reattachAll := True\<rparr>, g1))
            else Inr (ap, g)) =
      Inr (ap\<lparr>reattachAll := firstValueReturned ap \<or> reattachAll ap\<rparr>, ?g0)"
    using assms(4) by (auto simp: logPerfAt_eq [of g "view ap" location] nativeLog_def)
  have pre: "isNative ?ap1" "''style'' \<in> set (map fst (props ?ap1)) \<longrightarrow> styleProp ?ap1 \<noteq> None"
    using assms(2) by (auto simp: styleOk_def)
  from makeValuePropsNative_calls [OF pre, of ?g0] obtain g1 where
    1: "forEach makeValuePropNative (props ap) (?ap1, ?g0) = Inr (?ap1, g1)"
      "logAnimatedPerf g1 = logAnimatedPerf g" "nextId g1 = nextId g"
      "trace g1 = trace g @ nativeLog ap g location @
         concat (map (\<lambda>(k, v). nodeCall MakeNative (styleValue ?ap1 k v)) (props ap))"
    by auto
  have n: "concat (map (\<lambda>(k, v). nodeCall MakeNative (styleValue ?ap1 k v)) (props ap)) =
      nativeCalls ap"
  proof -
    have "styleValue ?ap1 = styleValue ap"
      by (intro ext) (simp add: styleValue_def)
    then show ?thesis by (simp add: nativeCalls_def)
  qed
  have loc: "locatable ?ap1 (view ?ap1)"
    using assms(3) by (simp add: locatable_def split: option.splits)
  have v: "viewCalls ConnectAnimatedNodeToView ?ap1 (view ap) =
      viewCalls ConnectAnimatedNodeToView (ap\<lparr>isNative := True\<rparr>) (view ap)"
    by (simp add: viewCalls_def split: option.splits)
  have 2: "connectView (?ap1, g1) =
      Inr (?ap1, g1\<lparr>trace := trace g1 @
             viewCalls ConnectAnimatedNodeToView (ap\<lparr>isNative := True\<rparr>) (view ap)\<rparr>)"
    using connectView_eq [OF loc, of g1] v by simp
  show ?thesis
    using assms(1) 1 2 unfolding n
    by (intro exI [of _ "g1\<lparr>trace := trace g1 @
             viewCalls ConnectAnimatedNodeToView (ap\<lparr>isNative := True\<rparr>) (view ap)\<rparr>"])
       (simp add: makeNative_def 0 makeValuePropsNative_def)
qed

lemma makeNative_start:
  assumes "logAnimatedPerf g \<and> firstValueReturned ap \<longrightarrow> viewLocation (view ap) = Inr location"
  shows "(if firstValueReturned ap
          then andThen
                 (logPerfAt ''making native after first values returned'' None (view ap) g)
                 (\<lambda>g1. Inr (ap\<lparr>reattachAll := True\<rparr>, g1))
          else Inr (ap, g)) =
      Inr (ap\<lparr>reattachAll := firstValueReturned ap \<or> reattachAll ap\<rparr>,
           g\<lparr>trace := trace g @ nativeLog ap g location\<rparr>)"
  using assms by (auto simp: logPerfAt_eq [of g "view ap" location] nativeLog_def)

lemma makeNative_missing:
  assumes "\<not> isNative ap" "\<not> styleOk ap"
    "logAnimatedPerf g \<and> firstValueReturned ap \<longrightarrow> viewLocation (view ap) = Inr location"
  shows "makeNative (ap, g) = Inl (Invariant ''Expected style prop to make native'')"
proof -
  let ?ap1 = "ap\<lparr>reattachAll := firstValueReturned ap \<or> reattachAll ap, isNative := True\<rparr>"
  have "forEach makeValuePropNative (props ap) (?ap1, h) =
      Inl (Invariant ''Expected style prop to make native'')" for h
    using assms(2) by (intro makeValuePropsNative_missing) (auto simp: styleOk_def)
  then show ?thesis
    using assms(1)
    by (simp add: makeNative_def makeNative_start [OF assms(3)] makeValuePropsNative_def)
qed

lemma makeNative_unlocatable:
  assumes "\<not> isNative ap" "styleOk ap" "\<not> locatable (ap\<lparr>isNative := True\<rparr>) (view ap)"
    "logAnimatedPerf g \<and> firstValueReturned ap \<longrightarrow> viewLocation (view ap) = Inr location"
  shows "makeNative (ap, g) = Inl (Invariant ''Unable to locate view in the native tree'')"
proof -
  let ?ap1 = "ap\<lparr>reattachAll := firstValueReturned ap \<or> reattachAll ap, isNative := True\<rparr>"
  let ?g0 = "g\<lparr>trace := trace g @ nativeLog ap g location\<rparr>"
  have pre: "isNative ?ap1" "''style'' \<in> set (map fst (props ?ap1)) \<longrightarrow> styleProp ?ap1 \<noteq> None"
    using assms(2) by (auto simp: styleOk_def)
  from makeValuePropsNative_calls [OF pre, of ?g0] obtain g1 where
    1: "forEach makeValuePropNative (props ap) (?ap1, ?g0) = Inr (?ap1, g1)"
    by auto
  have 2: "connectView (?ap1, g1) = Inl (Invariant ''Unable to locate view in the native tree'')"
    using assms(3) by (auto simp: connectView_def locatable_def split: option.splits)
  show ?thesis
    using assms(1) 1 2
    by (simp add: makeNative_def makeNative_start [OF assms(4)] makeValuePropsNative_def)
qed

lemma makeNative_location:
  assumes "\<not> isNative ap" "logAnimatedPerf g" "firstValueReturned ap"
    "viewLocation (view ap) = Inl e"
  shows "makeNative (ap, g) = Inl e"
  using assms by (simp add: makeNative_def logPerfAt_def)

lemma changedKeys_reattach:
  "reattachAll ap \<Longrightarrow> changedKeys deepDiffer ap nextProps = animatedKeys nextProps"
  by (simp add: changedKeys_def keyChanged_def)

lemma updatedBag_all: "updatedBag (animatedKeys nextProps) ap nextProps = nextProps"
  by (simp add: updatedBag_def carryOver_all_changed)

lemma animatedDiff_compared:
  "animatedDiff deepDiffer a b = deepDiffer (comparedValue a) (comparedValue b)"
proof -
  have "(if isAnimatedEvent v then withoutAttachedEvent v else v) = comparedValue v" for v
    by (cases v) simp_all
  then show ?thesis by (simp add: animatedDiff_def)
qed

lemma keyChanged_False:
  "keyChanged deepDiffer False lastProps nextProps =
     (\<lambda>k. animatedDiff deepDiffer (get lastProps k) (get nextProps k))"
  by (rule ext) (simp add: keyChanged_def)

lemma changedKeys_differing:
  "\<not> reattachAll ap \<Longrightarrow>
   changedKeys deepDiffer ap nextProps = differingKeys deepDiffer (props ap) nextProps"
  by (simp add: changedKeys_def differingKeys_def keyChanged_False animatedDiff_compared)

lemma updatedBag_keys: "map fst (updatedBag changed ap nextProps) = map fst nextProps"
  unfolding updatedBag_def
  using animatedKeys_subset [of nextProps] by (intro map_fst_carryOver) simp

lemma updatedBag_get:
  "get (updatedBag changed ap nextProps) k =
     (if k \<in> set (animatedKeys nextProps) \<and> k \<notin> set changed
      then get (props ap) k else get nextProps k)"
  by (simp add: updatedBag_def get_carryOver)

lemma removedKeys_same:
  "set (animatedKeys (props ap)) = set (animatedKeys nextProps) \<Longrightarrow> removedKeys ap nextProps = []"
  by (simp add: removedKeys_def filter_empty_conv)

lemma get_snoc:
  "get (ps @ [(k, v)]) k' =
     (if k' \<in> set (map fst ps) then get ps k' else if k' = k then v else Undefined)"
  by (induction ps) (auto simp: get_def)

lemma forEach_snoc: "forEach f (xs @ [(k, v)]) s = andThen (forEach f xs s) (f k v)"
  by (induction xs arbitrary: s) (auto simp: andThen_def split: sum.splits)

lemma attachValueProps_calls:
  assumes "distinct (map fst ps)" "styleProp ap = None"
  shows "forEach attachValueProp ps (ap, g) =
     Inr (ap\<lparr>styleProp := (if ''style'' \<in> set (map fst ps)
                             then cachedStyle (nextId g) (get ps ''style'') else None)\<rparr>,
          g\<lparr>nextId := (if ''style'' \<in> set (map fst ps) \<and> \<not> isAnimatedStyle (get ps ''style'')
                        then Suc (nextId g) else nextId g),
            trace := trace g @
              concat (map (\<lambda>(k, v). nodeCall AddChild (attachedNode (nextId g) k v)) ps)\<rparr>)"
  using assms(1)
proof (induction ps rule: rev_induct)
  case Nil
  show ?case using assms(2) by simp
next
  case (snoc p ps)
  obtain k v where p: "p = (k, v)" by (cases p)
  have d: "distinct (map fst ps)" "k \<notin> set (map fst ps)" using snoc.prems by (auto simp: p)
  note fe = forEach_snoc
  note gk = get_snoc
  show ?case
  proof (cases "k = ''style''")
    case True
    then have ns: "''style'' \<notin> set (map fst ps)" using d(2) by simp
    show ?thesis
      using True ns snoc.IH [OF d(1)] assms(2)
      by (simp add: p fe gk attachValueProp_eq cachedStyle_def attachedNode_def nodeCall_def)
  next
    case False
    show ?thesis
      using False snoc.IH [OF d(1)]
      by (simp add: p fe gk attachValueProp_eq attachedNode_def)
  qed
qed

lemma newAnimatedProps_calls:
  assumes "distinct (map fst ps)"
  shows "newAnimatedProps ps g =
     Inr (builtProps ps g,
          g\<lparr>nextId := (if ''style'' \<in> set (map fst ps) \<and> \<not> isAnimatedStyle (get ps ''style'')
                        then Suc (Suc (nextId g)) else Suc (nextId g)),
            trace := trace g @ setupCalls (Suc (nextId g)) ps\<rparr>)"
proof -
  show ?thesis
    unfolding newAnimatedProps_def attach_def attachValueProps_def attachEventProps_def
    by (simp add: attachValueProps_calls [OF assms] forEach_attachEventProp
        eventCalls_def builtProps_def setupCalls_def emit_def)
qed

lemma detachValueProps_calls:
  assumes "distinct (map fst ps)"
    "''style'' \<in> set (map fst ps) \<and> \<not> isAnimatedStyle (get ps ''style'') \<longrightarrow> styleProp ap \<noteq> None"
  shows "forEach detachValueProp ps (ap, g) =
     Inr (if ''style'' \<in> set (map fst ps) \<and> \<not> isAnimatedStyle (get ps ''style'')
          then ap\<lparr>styleProp := None\<rparr> else ap,
          g\<lparr>trace := trace g @
              concat (map (\<lambda>(k, v). nodeCall RemoveChild (detachedNode ap k v)) ps)\<rparr>)"
  using assms
proof (induction ps rule: rev_induct)
  case Nil
  show ?case by simp
next
  case (snoc p ps)
  obtain k v where p: "p = (k, v)" by (cases p)
  have d: "distinct (map fst ps)" "k \<notin> set (map fst ps)" using snoc.prems by (auto simp: p)
  note fe = forEach_snoc
  note gk = get_snoc
  show ?case
  proof (cases "k = ''style''")
    case True
    then have ns: "''style'' \<notin> set (map fst ps)" using d(2) by simp
    have "forEach detachValueProp ps (ap, g) =
        Inr (ap, g\<lparr>trace := trace g @
              concat (map (\<lambda>(k, v). nodeCall RemoveChild (detachedNode ap k v)) ps)\<rparr>)"
      using snoc.IH [OF d(1)] ns by simp
    then show ?thesis
      using True ns snoc.prems(2)
      by (auto simp: p fe gk detachValueProp_eq detachedNode_def)
  next
    case False
    have pre: "''style'' \<in> set (map fst ps) \<and> \<not> isAnimatedStyle (get ps ''style'') \<longrightarrow>
        styleProp ap \<noteq> None"
      using snoc.prems(2) False by (auto simp: p gk)
    show ?thesis
      using False snoc.IH [OF d(1) pre]
      by (auto simp: p fe gk detachValueProp_eq detachedNode_def)
  qed
qed

lemma detach_calls:
  assumes "locatable ap (view ap)" "distinct (map fst (props ap))" "styleOk ap"
  shows "\<exists>ap'. detach (ap, g) = Inr (ap', g\<lparr>trace := trace g @ teardownCalls ap\<rparr>)"
proof -
  have pre: "''style'' \<in> set (map fst (props ap)) \<and> \<not> isAnimatedStyle (get (props ap) ''style'') \<longrightarrow>
      styleProp ap \<noteq> None"
    using assms(3) by (auto simp: styleOk_def)
  show ?thesis
    unfolding detach_def detachEventProps_def detachValueProps_def
    by (simp add: disconnectView_eq [OF assms(1)] forEach_detachEventProp
        detachValueProps_calls [OF assms(2) pre] teardownCalls_def emit_def)
qed

lemma builtProps_logPerf [simp]: "builtProps ps (logPerf msg k g) = builtProps ps g"
  by (simp add: builtProps_def logPerf_def emit_def)

lemma logPerf_fields [simp]:
  "nextId (logPerf msg k g) = nextId g"
  "trace (logPerf msg k g) = trace g @ (if logAnimatedPerf g then [ConsoleLog msg k] else [])"
  by (simp_all add: logPerf_def emit_def)

lemma get_missing: "k \<notin> set (map fst ps) \<Longrightarrow> get ps k = Undefined"
  by (simp add: get_def map_of_eq_None_iff [THEN iffD2] image_iff)

lemma attachProps1_calls:
  assumes "deepDiffer (keysArray (animatedValueKeys (thisProps1 c)))
      (keysArray (animatedValueKeys nextProps))"
    "distinct (map fst nextProps)" "propsAnimated c = Some old" "locatable old (view old)"
    "distinct (map fst (props old))" "styleOk old"
  shows "\<exists>g'. attachProps1 deepDiffer nextProps force (c, g) =
       Inr (c\<lparr>propsAnimated := Some (builtProps nextProps g)\<rparr>, g') \<and>
     trace g' = trace g @
       (if logAnimatedPerf g then [ConsoleLog ''reattaching values for prop'' None] else []) @
       setupCalls (Suc (nextId g)) nextProps @ teardownCalls old"
proof -
  let ?g1 = "logPerf ''reattaching values for prop'' None g"
  let ?g2 = "?g1\<lparr>nextId := (if ''style'' \<in> set (map fst nextProps) \<and>
                                  \<not> isAnimatedStyle (get nextProps ''style'')
                               then Suc (Suc (nextId ?g1)) else Suc (nextId ?g1)),
               trace := trace ?g1 @ setupCalls (Suc (nextId ?g1)) nextProps\<rparr>"
  have ch: "animatedValuePropsChanged deepDiffer (thisProps1 c) nextProps = Bool True"
    using assms(1) by (rule keys_changed_truthy)
  have 1: "newAnimatedProps nextProps ?g1 = Inr (builtProps nextProps g, ?g2)"
    using newAnimatedProps_calls [OF assms(2), of ?g1] by simp
  from detach_calls [OF assms(4,5,6), of ?g2] obtain old' where
    2: "detach (old, ?g2) = Inr (old', ?g2\<lparr>trace := trace ?g2 @ teardownCalls old\<rparr>)"
    by blast
  have 0: "attachProps1 deepDiffer nextProps force (c, g) =
      andThen (newAnimatedProps nextProps ?g1)
        (\<lambda>(apNew, g2). andThen (detach (old, g2))
           (\<lambda>(old', g3). Inr (c\<lparr>propsAnimated := Some apNew\<rparr>, g3)))"
    using assms(3) by (simp add: attachProps1_wholesale ch)
  have "attachProps1 deepDiffer nextProps force (c, g) =
      Inr (c\<lparr>propsAnimated := Some (builtProps nextProps g)\<rparr>,
           ?g2\<lparr>trace := trace ?g2 @ teardownCalls old\<rparr>)"
    by (simp only: 0 1 2 andThen_Inr prod.case)
  then show ?thesis
    by (intro exI [of _ "?g2\<lparr>trace := trace ?g2 @ teardownCalls old\<rparr>"]) simp
qed

lemma wraps_style: "wraps c v \<Longrightarrow> isAnimatedStyle c \<and> \<not> isAnimatedStyle v"
  by (cases c) auto

lemma styleNormalized_typed: "styleNormalized ap \<Longrightarrow> styleTyped ap"
  by (auto simp: styleNormalized_def styleTyped_def wraps_style split: option.splits)

lemma builtProps_normalized:
  assumes "''style'' \<in> set (map fst ps) \<longrightarrow> \<not> isAnimatedStyle (get ps ''style'')"
  shows "styleNormalized (builtProps ps g)"
  using assms by (simp add: styleNormalized_def builtProps_def cachedStyle_def)

lemma updateProps_normalized:
  assumes "styleNormalized ap" "distinct (map fst nextProps)" "distinct (map fst (props ap))"
    "\<not> logAnimatedPerf g"
    "''style'' \<in> set (map fst nextProps) \<longrightarrow>
       ''style'' \<in> set (map fst (props ap)) \<and> \<not> isAnimatedStyle (get nextProps ''style'')"
  shows "\<exists>ap' g'. updateProps deepDiffer nextProps (ap, g) = Inr (ap', g') \<and> styleNormalized ap'"
proof -
  let ?ch = "changedKeys deepDiffer ap nextProps"
  have c: "styleTyped ap" using assms(1) by (rule styleNormalized_typed)
  have sub: "''style'' \<in> set ?ch \<Longrightarrow> ''style'' \<in> set (map fst nextProps)"
    using animatedKeys_subset [of nextProps] by (auto simp: changedKeys_def)
  have rms: "''style'' \<in> set (removedKeys ap nextProps) \<Longrightarrow> ''style'' \<in> set (map fst (props ap))"
    using animatedKeys_subset [of "props ap"] by (auto simp: removedKeys_def)
  have r1: "needsComposite ?ch ap nextProps \<longrightarrow> styleProp ap \<noteq> None"
    using assms(1,5) sub rms
    by (auto simp: needsComposite_def styleNormalized_def split: option.splits)
  have r2: "\<not> nativeUncached ?ch ap nextProps"
    using assms(5) sub by (auto simp: nativeUncached_def)
  from updateProps_calls [OF assms(2,3,4) c r1 r2] obtain g' where
    g': "updateProps deepDiffer nextProps (ap, g) =
       Inr (ap\<lparr>props := updatedBag ?ch ap nextProps,
               styleProp := updatedStyle ?ch ap (nextId g) nextProps,
               reattachAll := False\<rparr>, g')"
    by blast
  let ?ap' = "ap\<lparr>props := updatedBag ?ch ap nextProps,
               styleProp := updatedStyle ?ch ap (nextId g) nextProps,
               reattachAll := False\<rparr>"
  have keys: "set (map fst (props ?ap')) = set (map fst nextProps)"
    by (simp add: updatedBag_keys del: set_map)
  have gs: "get (updatedBag ?ch ap nextProps) ''style'' =
      (if ''style'' \<in> set (map fst nextProps) \<and> ''style'' \<notin> set ?ch
       then get (props ap) ''style'' else get nextProps ''style'')"
    by (simp add: updatedBag_get style_in_animatedKeys)
  have "styleNormalized ?ap'"
  proof (cases "''style'' \<in> set (map fst nextProps)")
    case True
    then have last: "''style'' \<in> set (map fst (props ap))"
      and nv: "\<not> isAnimatedStyle (get nextProps ''style'')"
      using assms(5) by auto
    from last assms(1) obtain composite where
      comp: "styleProp ap = Some composite" "wraps composite (get (props ap) ''style'')"
      by (auto simp: styleNormalized_def split: option.splits)
    have nr: "''style'' \<notin> set (removedKeys ap nextProps)"
      using True by (simp add: removedKeys_def style_in_animatedKeys)
    show ?thesis
    proof (cases "''style'' \<in> set ?ch")
      case ch: True
      then show ?thesis
        using True nv keys
        by (simp add: styleNormalized_def updatedStyle_def cachedStyle_def gs del: set_map)
    next
      case False
      then show ?thesis
        using True comp keys nr
        by (simp add: styleNormalized_def updatedStyle_def gs del: set_map)
    qed
  next
    case False
    then have nch: "''style'' \<notin> set ?ch" using sub by auto
    show ?thesis
    proof (cases "styleProp ap")
      case None
      then show ?thesis
        using False nch keys by (simp add: styleNormalized_def updatedStyle_def del: set_map)
    next
      case (Some composite)
      then have last: "''style'' \<in> set (map fst (props ap))"
        and w: "wraps composite (get (props ap) ''style'')"
        using assms(1) by (auto simp: styleNormalized_def)
      have "''style'' \<in> set (removedKeys ap nextProps)"
        using False last by (simp add: removedKeys_def style_in_animatedKeys)
      then show ?thesis
        using False nch keys wraps_style [OF w]
        by (simp add: styleNormalized_def updatedStyle_def del: set_map)
    qed
  qed
  then show ?thesis using g' by blast
qed

section \<open>The claims\<close>

subsection \<open>The change callback\<close>

text \<open>
  C1. When the change callback fires on a component with a bound view and an instance
  that is not native, it makes exactly one call and changes nothing else:
  \<^verbatim>\<open>forceUpdate()\<close> when the view has no \<^verbatim>\<open>setNativeProps\<close> function (or, in the
  first variant, when the test-only flag is set), whatever the bag holds, and
  \<^verbatim>\<open>setNativeProps\<close> with the animated-only values otherwise; the choice reads the
  view and the flag only. The animated-only values are the animated values of the nodes
  of the bag, in its order, the cached composite standing for \<^verbatim>\<open>style\<close>. Where the
  bag has a \<^verbatim>\<open>style\<close> key and no composite is cached, computing them throws the
  invariant of \<^verbatim>\<open>__getAnimatedValue()\<close> before a call is made.
\<close>

theorem change_callback_exactly_one:
  assumes "\<not> isNative ap" "distinct (map fst (props ap))"
  shows
    "(component1 c = Some vw \<and> propsAnimated c = Some ap \<longrightarrow>
        animatedPropsCallback (c, g) =
          (if skipSetNativeProps_FOR_TESTS_ONLY c \<or> \<not> hasSetNativeProps vw
           then Inr (c, g\<lparr>trace := trace g @ [ForceUpdate]\<rparr>)
           else if styleOk ap
           then Inr (c, g\<lparr>trace := trace g @
                  [SetNativeProps (List.map_filter (animatedEntry ap) (props ap))]\<rparr>)
           else Inl (Invariant ''Expected style prop''))) \<and>
     (component2 d = Some vw \<and> animatedProps2 d = Some ap \<longrightarrow>
        callback (d, g) =
          (if \<not> hasSetNativeProps vw
           then Inr (d, g\<lparr>trace := trace g @ [ForceUpdate]\<rparr>)
           else if styleOk ap
           then Inr (d, g\<lparr>trace := trace g @
                  [SetNativeProps (List.map_filter (animatedEntry ap) (props ap))]\<rparr>)
           else Inl (Invariant ''Expected style prop'')))"
proof (cases "styleOk ap")
  case True
  then show ?thesis
    using assms(1) getAnimatedValue_ok [OF assms(2) True]
    by (simp add: animatedPropsCallback_def callback_def emit_def)
next
  case False
  then show ?thesis
    using assms(1) getAnimatedValue_missing [OF False]
    by (simp add: animatedPropsCallback_def callback_def emit_def)
qed

theorem change_callback_exactly_one_witness:
  "\<not> isNative styledOpacityProps \<and> distinct (map fst (props styledOpacityProps)) \<and>
   animatedPropsCallback (mounted1 leafView styledOpacityProps False, exampleGraph) =
     Inr (mounted1 leafView styledOpacityProps False,
          exampleGraph\<lparr>trace :=
            [SetNativeProps
               [(''style'', GetAnimatedValue (AnimatedStyle 2 (Obj [(''left'', AnimatedNode 5)]))),
                (''opacity'', GetAnimatedValue (AnimatedNode 7))]]\<rparr>) \<and>
   callback (mounted2 leafView styledOpacityProps, exampleGraph) =
     Inr (mounted2 leafView styledOpacityProps,
          exampleGraph\<lparr>trace :=
            [SetNativeProps
               [(''style'', GetAnimatedValue (AnimatedStyle 2 (Obj [(''left'', AnimatedNode 5)]))),
                (''opacity'', GetAnimatedValue (AnimatedNode 7))]]\<rparr>) \<and>
   animatedPropsCallback (mounted1 leafView styledOpacityProps True, exampleGraph) =
     Inr (mounted1 leafView styledOpacityProps True, exampleGraph\<lparr>trace := [ForceUpdate]\<rparr>) \<and>
   animatedPropsCallback (mounted1 compositeView styledOpacityProps False, exampleGraph) =
     Inr (mounted1 compositeView styledOpacityProps False, exampleGraph\<lparr>trace := [ForceUpdate]\<rparr>) \<and>
   callback (mounted2 compositeView styledOpacityProps, exampleGraph) =
     Inr (mounted2 compositeView styledOpacityProps, exampleGraph\<lparr>trace := [ForceUpdate]\<rparr>)"
  using change_callback_exactly_one
    [where ap = styledOpacityProps and c = "mounted1 leafView styledOpacityProps False"
       and vw = leafView and d = "mounted2 leafView styledOpacityProps" and g = exampleGraph]
    change_callback_exactly_one
    [where ap = styledOpacityProps and c = "mounted1 compositeView styledOpacityProps False"
       and vw = compositeView and d = "mounted2 compositeView styledOpacityProps"
       and g = exampleGraph]
    change_callback_exactly_one
    [where ap = styledOpacityProps and c = "mounted1 leafView styledOpacityProps True"
       and vw = leafView and d = "mounted2 leafView styledOpacityProps" and g = exampleGraph]
  by (simp add: styleOk_def animatedEntry_def styleValue_def map_filter_Cons
      List.map_filter_def styledOpacityProps_def mounted1_def mounted2_def exampleGraph_def
      leafView_def compositeView_def)

text \<open>
  C2, as amended. When the change callback fires on a native instance whose bound view
  has a \<^verbatim>\<open>setNativeProps\<close> function, the second variant throws; the first variant
  throws unless the test-only flag is set, in which case it calls \<^verbatim>\<open>forceUpdate()\<close>.
\<close>

theorem native_callback_throws:
  assumes "isNative ap" "hasSetNativeProps vw"
  shows "(component2 d = Some vw \<and> animatedProps2 d = Some ap \<longrightarrow>
            callback (d, g) = Inl JSDrivenAnimationOnNativeNode) \<and>
         (component1 c = Some vw \<and> propsAnimated c = Some ap \<longrightarrow>
            animatedPropsCallback (c, g) =
              (if skipSetNativeProps_FOR_TESTS_ONLY c
               then Inr (c, g\<lparr>trace := trace g @ [ForceUpdate]\<rparr>)
               else Inl JSDrivenAnimationOnNativeNode))"
  using assms by (simp add: animatedPropsCallback_def callback_def emit_def)

theorem native_callback_throws_witness:
  "isNative (opacityProps\<lparr>isNative := True\<rparr>) \<and> hasSetNativeProps leafView \<and>
   callback (mounted2 leafView (opacityProps\<lparr>isNative := True\<rparr>), exampleGraph) =
     Inl JSDrivenAnimationOnNativeNode \<and>
   animatedPropsCallback (mounted1 leafView (opacityProps\<lparr>isNative := True\<rparr>) False, exampleGraph) =
     Inl JSDrivenAnimationOnNativeNode"
  using native_callback_throws
    [where ap = "opacityProps\<lparr>isNative := True\<rparr>" and vw = leafView
       and d = "mounted2 leafView (opacityProps\<lparr>isNative := True\<rparr>)"
       and c = "mounted1 leafView (opacityProps\<lparr>isNative := True\<rparr>) False" and g = exampleGraph]
  by (simp add: opacityProps_def mounted1_def mounted2_def leafView_def)

text \<open>
  C2 as stated fails in the first variant with the test-only flag set: the callback of
  a native instance on a view with \<^verbatim>\<open>setNativeProps\<close> re-renders, and nothing is
  thrown.
\<close>

theorem native_callback_test_flag_counterexample:
  "animatedPropsCallback (mounted1 leafView (opacityProps\<lparr>isNative := True\<rparr>) True, exampleGraph) =
     Inr (mounted1 leafView (opacityProps\<lparr>isNative := True\<rparr>) True,
          exampleGraph\<lparr>trace := [ForceUpdate]\<rparr>)"
  by (simp add: animatedPropsCallback_def mounted1_def leafView_def exampleGraph_def emit_def)

subsection \<open>Going native\<close>



subsection \<open>Updating the bag\<close>




text \<open>
  C5. \<^verbatim>\<open>animatedDiff\<close> gives the comparison an AnimatedEvent without its
  \<^verbatim>\<open>_attachedEvent\<close>, and any other value as it is. For bags with distinct keys, a
  next bag with the animated keys of the last one, the reattach-all flag clear, a cache
  that holds nothing but an AnimatedStyle, and logging off, there are three cases. Where
  \<^verbatim>\<open>style\<close> differs and no composite is cached, \<^verbatim>\<open>updateProps\<close> throws the
  invariant ``Expected style prop to detach''; where \<^verbatim>\<open>style\<close> differs, the instance
  is native and the next \<^verbatim>\<open>style\<close> is itself an AnimatedStyle, it throws the
  invariant of \<^verbatim>\<open>__makeValuePropNative\<close>. In every other case it replaces exactly
  the animated keys whose compared values differ, in the order of the next bag, and makes
  no other call: for each of them the next value is attached (the instance is added as a
  child of the node, the node is made native when the instance is, a native event is
  attached to the view), then the last binding is detached. The bag it leaves has the
  keys of the next bag in their order, the last value under every animated key that does
  not differ, and the next value under every other key; the other fields of the instance
  are as before, but for the composite of a replaced \<^verbatim>\<open>style\<close>.
\<close>

theorem updateProps_diff_minimal:
  assumes "\<not> reattachAll ap" "set (animatedKeys (props ap)) = set (animatedKeys nextProps)"
    "distinct (map fst nextProps)" "distinct (map fst (props ap))" "styleTyped ap"
    "\<not> logAnimatedPerf g"
  shows
    "animatedDiff deepDiffer a b = deepDiffer (comparedValue a) (comparedValue b) \<and>
     (''style'' \<in> set (differingKeys deepDiffer (props ap) nextProps) \<and> styleProp ap = None \<longrightarrow>
        updateProps deepDiffer nextProps (ap, g) =
          Inl (Invariant ''Expected style prop to detach'')) \<and>
     (nativeUncached (differingKeys deepDiffer (props ap) nextProps) ap nextProps \<and>
      styleProp ap \<noteq> None \<longrightarrow>
        updateProps deepDiffer nextProps (ap, g) =
          Inl (Invariant ''Expected style prop to make native'')) \<and>
     (\<not> (''style'' \<in> set (differingKeys deepDiffer (props ap) nextProps) \<and> styleProp ap = None) \<and>
      \<not> nativeUncached (differingKeys deepDiffer (props ap) nextProps) ap nextProps \<longrightarrow>
        (\<exists>ap' g'. updateProps deepDiffer nextProps (ap, g) = Inr (ap', g') \<and>
           ap' = ap\<lparr>props := props ap',
                    styleProp :=
                      (if ''style'' \<in> set (differingKeys deepDiffer (props ap) nextProps)
                       then cachedStyle (nextId g) (get nextProps ''style'') else styleProp ap)\<rparr> \<and>
           map fst (props ap') = map fst nextProps \<and>
           (\<forall>k. get (props ap') k =
              (if k \<in> set (animatedKeys nextProps) \<and>
                  k \<notin> set (differingKeys deepDiffer (props ap) nextProps)
               then get (props ap) k else get nextProps k)) \<and>
           logAnimatedPerf g' = logAnimatedPerf g \<and>
           trace g' = trace g @
             concat (map (\<lambda>k. replaceCalls ap (nextId g) k (get (props ap) k) (get nextProps k))
                       (differingKeys deepDiffer (props ap) nextProps))))"
proof (intro conjI impI)
  show "animatedDiff deepDiffer a b = deepDiffer (comparedValue a) (comparedValue b)"
    by (rule animatedDiff_compared)
next
  let ?df = "differingKeys deepDiffer (props ap) nextProps"
  note ch = changedKeys_differing [OF assms(1), of deepDiffer nextProps]
  note rm = removedKeys_same [OF assms(2)]
  have nc: "needsComposite ?df ap nextProps \<longleftrightarrow> ''style'' \<in> set ?df"
    by (simp add: needsComposite_def rm)
  {
    assume "''style'' \<in> set ?df \<and> styleProp ap = None"
    then show "updateProps deepDiffer nextProps (ap, g) =
        Inl (Invariant ''Expected style prop to detach'')"
      using assms(3,6) by (intro updateProps_missing) (simp_all add: ch nc)
  }
  {
    assume "nativeUncached ?df ap nextProps \<and> styleProp ap \<noteq> None"
    then show "updateProps deepDiffer nextProps (ap, g) =
        Inl (Invariant ''Expected style prop to make native'')"
      using assms(3,6) by (intro updateProps_native_style) (simp_all add: ch)
  }
  {
    assume a: "\<not> (''style'' \<in> set ?df \<and> styleProp ap = None) \<and> \<not> nativeUncached ?df ap nextProps"
    have "\<exists>g'. updateProps deepDiffer nextProps (ap, g) =
         Inr (ap\<lparr>props := updatedBag (changedKeys deepDiffer ap nextProps) ap nextProps,
                 styleProp := updatedStyle (changedKeys deepDiffer ap nextProps) ap (nextId g) nextProps,
                 reattachAll := False\<rparr>, g') \<and>
       logAnimatedPerf g' = logAnimatedPerf g \<and>
       trace g' = trace g @ updateCalls (changedKeys deepDiffer ap nextProps) ap (nextId g) nextProps"
      using a by (intro updateProps_calls [OF assms(3,4,6,5)]) (auto simp: ch nc)
    then obtain g' where
      g': "updateProps deepDiffer nextProps (ap, g) =
         Inr (ap\<lparr>props := updatedBag ?df ap nextProps,
                 styleProp := updatedStyle ?df ap (nextId g) nextProps,
                 reattachAll := False\<rparr>, g')"
        "logAnimatedPerf g' = logAnimatedPerf g"
        "trace g' = trace g @ updateCalls ?df ap (nextId g) nextProps"
      unfolding ch by blast
    let ?ap' = "ap\<lparr>props := updatedBag ?df ap nextProps,
                 styleProp := updatedStyle ?df ap (nextId g) nextProps,
                 reattachAll := False\<rparr>"
    have s: "updatedStyle ?df ap (nextId g) nextProps =
        (if ''style'' \<in> set ?df
         then cachedStyle (nextId g) (get nextProps ''style'') else styleProp ap)"
      by (simp add: updatedStyle_def rm)
    have e: "?ap' = ap\<lparr>props := props ?ap',
                    styleProp :=
                      (if ''style'' \<in> set ?df
                       then cachedStyle (nextId g) (get nextProps ''style'') else styleProp ap)\<rparr>"
      using assms(1) by (simp add: s)
    have t: "trace g' = trace g @
             concat (map (\<lambda>k. replaceCalls ap (nextId g) k (get (props ap) k) (get nextProps k)) ?df)"
      using g'(3) by (simp add: updateCalls_def rm)
    have b: "map fst (props ?ap') = map fst nextProps"
      "\<forall>k. get (props ?ap') k =
              (if k \<in> set (animatedKeys nextProps) \<and> k \<notin> set ?df
               then get (props ap) k else get nextProps k)"
      by (simp_all add: updatedBag_keys updatedBag_get)
    show "\<exists>ap' g'. updateProps deepDiffer nextProps (ap, g) = Inr (ap', g') \<and>
           ap' = ap\<lparr>props := props ap',
                    styleProp :=
                      (if ''style'' \<in> set ?df
                       then cachedStyle (nextId g) (get nextProps ''style'') else styleProp ap)\<rparr> \<and>
           map fst (props ap') = map fst nextProps \<and>
           (\<forall>k. get (props ap') k =
              (if k \<in> set (animatedKeys nextProps) \<and> k \<notin> set ?df
               then get (props ap) k else get nextProps k)) \<and>
           logAnimatedPerf g' = logAnimatedPerf g \<and>
           trace g' = trace g @
             concat (map (\<lambda>k. replaceCalls ap (nextId g) k (get (props ap) k) (get nextProps k)) ?df)"
      using g'(1,2) e t b by (intro exI [of _ ?ap'] exI [of _ g']) blast
  }
qed

theorem updateProps_diff_minimal_witness:
  "\<not> reattachAll scrolledProps \<and>
   set (animatedKeys (props scrolledProps)) = set (animatedKeys scrollingNext) \<and>
   distinct (map fst scrollingNext) \<and> distinct (map fst (props scrolledProps)) \<and>
   styleTyped scrolledProps \<and> \<not> logAnimatedPerf styledGraph \<and>
   differingKeys differs (props scrolledProps) scrollingNext = [''left'', ''onScroll''] \<and>
   (\<exists>g'. updateProps differs scrollingNext (scrolledProps, styledGraph) =
      Inr (scrolledProps\<lparr>props :=
             [(''style'', Obj [(''opacity'', Num 1)]), (''left'', AnimatedNode 8),
              (''onScroll'', AnimatedEvent [(''__isNative'', Bool True), (''listener'', Num 2)] Null),
              (''onMove'', AnimatedEvent [(''__isNative'', Bool True)] Null),
              (''top'', AnimatedNode 9),
              (''title'', Str ''b'')]\<rparr>, g') \<and>
      trace g' =
        [AddChild (AnimatedNode 8), RemoveChild (AnimatedNode 7),
         EventAttach (AnimatedEvent [(''__isNative'', Bool True), (''listener'', Num 2)] Null)
           (TheView 10) ''onScroll'',
         EventDetach (AnimatedEvent [(''__isNative'', Bool True), (''listener'', Num 1)] Null)
           (TheView 10) ''onScroll''])"
proof -
  have h: "\<not> reattachAll scrolledProps"
    "set (animatedKeys (props scrolledProps)) = set (animatedKeys scrollingNext)"
    "distinct (map fst scrollingNext)" "distinct (map fst (props scrolledProps))"
    "styleTyped scrolledProps" "\<not> logAnimatedPerf styledGraph"
    by (simp_all add: scrolledProps_def scrollingNext_def styledGraph_def animatedKeys_def
        get_def styleTyped_def)
  have k: "differingKeys differs (props scrolledProps) scrollingNext = [''left'', ''onScroll'']"
    by (simp add: differingKeys_def scrolledProps_def scrollingNext_def animatedKeys_def
        get_def differs_def)
  have a: "animatedKeys scrollingNext = [''style'', ''left'', ''onScroll'', ''onMove'', ''top'']"
    by (simp add: scrollingNext_def animatedKeys_def get_def)
  have c: "concat (map (\<lambda>k. replaceCalls scrolledProps (nextId styledGraph) k
                              (get (props scrolledProps) k) (get scrollingNext k))
             [''left'', ''onScroll'']) =
        [AddChild (AnimatedNode 8), RemoveChild (AnimatedNode 7),
         EventAttach (AnimatedEvent [(''__isNative'', Bool True), (''listener'', Num 2)] Null)
           (TheView 10) ''onScroll'',
         EventDetach (AnimatedEvent [(''__isNative'', Bool True), (''listener'', Num 1)] Null)
           (TheView 10) ''onScroll'']"
    by (simp add: scrolledProps_def scrollingNext_def replaceCalls_def attachCalls_def
        detachCalls_def attachedNode_def detachedNode_def styleValue_def nodeCall_def
        eventCalls_single scrollableView_def leafView_def get_def)
  have ok: "\<not> (''style'' \<in> set (differingKeys differs (props scrolledProps) scrollingNext) \<and>
        styleProp scrolledProps = None) \<and>
      \<not> nativeUncached (differingKeys differs (props scrolledProps) scrollingNext)
          scrolledProps scrollingNext"
    unfolding k by (simp add: nativeUncached_def)
  note t = updateProps_diff_minimal [OF h, where deepDiffer = differs,
    THEN conjunct2, THEN conjunct2, THEN conjunct2, THEN mp, OF ok]
  from t obtain ap' g' where
    r: "updateProps differs scrollingNext (scrolledProps, styledGraph) = Inr (ap', g')"
      "ap' = scrolledProps\<lparr>props := props ap', styleProp := styleProp scrolledProps\<rparr>"
      "map fst (props ap') = map fst scrollingNext"
      "\<forall>x. get (props ap') x =
         (if x \<in> set [''style'', ''left'', ''onScroll'', ''onMove'', ''top''] \<and>
             x \<notin> set [''left'', ''onScroll'']
          then get (props scrolledProps) x else get scrollingNext x)"
      "trace g' = trace styledGraph @
        [AddChild (AnimatedNode 8), RemoveChild (AnimatedNode 7),
         EventAttach (AnimatedEvent [(''__isNative'', Bool True), (''listener'', Num 2)] Null)
           (TheView 10) ''onScroll'',
         EventDetach (AnimatedEvent [(''__isNative'', Bool True), (''listener'', Num 1)] Null)
           (TheView 10) ''onScroll'']"
    unfolding k a c by auto
  obtain v1 v2 v3 v4 v5 v6 where bag:
    "props ap' = [(''style'', v1), (''left'', v2), (''onScroll'', v3), (''onMove'', v4),
                  (''top'', v5), (''title'', v6)]"
    using r(3) by (auto simp: scrollingNext_def map_eq_Cons_conv)
  have "v1 = Obj [(''opacity'', Num 1)]" "v2 = AnimatedNode 8"
    "v3 = AnimatedEvent [(''__isNative'', Bool True), (''listener'', Num 2)] Null"
    "v4 = AnimatedEvent [(''__isNative'', Bool True)] Null" "v5 = AnimatedNode 9"
    "v6 = Str ''b''"
    using r(4) [rule_format, of "''style''"] r(4) [rule_format, of "''left''"]
      r(4) [rule_format, of "''onScroll''"] r(4) [rule_format, of "''onMove''"]
      r(4) [rule_format, of "''top''"] r(4) [rule_format, of "''title''"]
    by (simp_all add: bag get_def scrollingNext_def scrolledProps_def)
  then have e: "ap' = scrolledProps\<lparr>props :=
             [(''style'', Obj [(''opacity'', Num 1)]), (''left'', AnimatedNode 8),
              (''onScroll'', AnimatedEvent [(''__isNative'', Bool True), (''listener'', Num 2)] Null),
              (''onMove'', AnimatedEvent [(''__isNative'', Bool True)] Null),
              (''top'', AnimatedNode 9),
              (''title'', Str ''b'')]\<rparr>"
    using r(2) bag by simp
  show ?thesis
    using h k r(1,5) unfolding e
    by (intro conjI exI [of _ g']) (simp_all add: styledGraph_def)
qed

text \<open>
  C6, as amended. \<^verbatim>\<open>__replaceProp\<close> makes its attach calls first and its detach
  calls after them: the new node (for \<^verbatim>\<open>style\<close>, the new composite) is added before
  the old node (the old composite) is removed. The wholesale replacement of
  \<^verbatim>\<open>_attachProps\<close> (first variant, logging off) makes the attach calls of the new
  instance before the detach calls of the old one. The keys that are gone get detach
  calls only, and a key whose values do not differ is assigned the last value, with no
  call at all.
\<close>

theorem replace_attaches_then_detaches:
  "(replaceProp k lastValue nextValue (ap, g) = Inr (ap', g') \<longrightarrow>
      (\<exists>a d. trace g' = trace g @ a @ d \<and> list_all isAttachCall a \<and> list_all isDetachCall d \<and>
         (k \<noteq> ''style'' \<and> isAnimatedNode nextValue \<longrightarrow> AddChild nextValue \<in> set a) \<and>
         (k \<noteq> ''style'' \<and> isAnimatedNode lastValue \<longrightarrow> RemoveChild lastValue \<in> set d) \<and>
         (k = ''style'' \<and> \<not> isAnimatedStyle nextValue \<longrightarrow>
            AddChild (AnimatedStyle (nextId g) nextValue) \<in> set a) \<and>
         (k = ''style'' \<longrightarrow>
            (\<exists>composite. styleProp ap = Some composite \<and>
               (isAnimatedStyle composite \<longrightarrow> RemoveChild composite \<in> set d))))) \<and>
   (propsAnimated c = Some old \<and>
    (force = Some True \<or> truthy (animatedValuePropsChanged deepDiffer (thisProps1 c) nextProps)) \<and>
    \<not> logAnimatedPerf g \<and>
    attachProps1 deepDiffer nextProps force (c, g) = Inr (c', h) \<longrightarrow>
      (\<exists>apNew a d. propsAnimated c' = Some apNew \<and> props apNew = nextProps \<and>
         trace h = trace g @ a @ d \<and> list_all isAttachCall a \<and> list_all isDetachCall d)) \<and>
   (\<not> logAnimatedPerf g \<and> detachKeys lastProps ks (ap, g) = Inr (ap', g') \<longrightarrow>
      (\<exists>d. trace g' = trace g @ d \<and> list_all isDetachCall d)) \<and>
   (\<not> reattach \<and> \<not> animatedDiff deepDiffer (get lastProps k) (get np k) \<and>
    \<not> logAnimatedPerf g \<longrightarrow>
      updateKeys deepDiffer reattach lastProps [k] ((ap, g), np, lk) =
        Inr ((ap, g), assign k (get lastProps k) np, filter (\<lambda>lastKey. lastKey \<noteq> k) lk))"
proof (intro conjI impI)
  assume "replaceProp k lastValue nextValue (ap, g) = Inr (ap', g')"
  from replaceProp_grows [OF this] obtain a d where
    ad: "grows (ap, g) (a @ d) (ap', g') \<and> list_all isAttachCall a \<and> list_all isDetachCall d \<and>
    (isAnimatedNode nextValue \<and> (k = ''style'' \<longrightarrow> isAnimatedStyle nextValue) \<longrightarrow>
       AddChild nextValue \<in> set a) \<and>
    (k = ''style'' \<and> \<not> isAnimatedStyle nextValue \<longrightarrow>
       AddChild (AnimatedStyle (nextId (snd (ap, g))) nextValue) \<in> set a) \<and>
    (k \<noteq> ''style'' \<and> isAnimatedNode lastValue \<longrightarrow> RemoveChild lastValue \<in> set d) \<and>
    (k = ''style'' \<longrightarrow> (\<exists>composite. styleProp (fst (ap, g)) = Some composite \<and>
       (isAnimatedStyle composite \<longrightarrow> RemoveChild composite \<in> set d)))"
    by blast
  then have "trace g' = trace g @ a @ d" by (simp add: grows_def)
  with ad show "\<exists>a d. trace g' = trace g @ a @ d \<and> list_all isAttachCall a \<and> list_all isDetachCall d \<and>
         (k \<noteq> ''style'' \<and> isAnimatedNode nextValue \<longrightarrow> AddChild nextValue \<in> set a) \<and>
         (k \<noteq> ''style'' \<and> isAnimatedNode lastValue \<longrightarrow> RemoveChild lastValue \<in> set d) \<and>
         (k = ''style'' \<and> \<not> isAnimatedStyle nextValue \<longrightarrow>
            AddChild (AnimatedStyle (nextId g) nextValue) \<in> set a) \<and>
         (k = ''style'' \<longrightarrow>
            (\<exists>composite. styleProp ap = Some composite \<and>
               (isAnimatedStyle composite \<longrightarrow> RemoveChild composite \<in> set d)))"
    by (intro exI [of _ a] exI [of _ d]) simp
next
  assume h: "propsAnimated c = Some old \<and>
    (force = Some True \<or> truthy (animatedValuePropsChanged deepDiffer (thisProps1 c) nextProps)) \<and>
    \<not> logAnimatedPerf g \<and>
    attachProps1 deepDiffer nextProps force (c, g) = Inr (c', h)"
  then have h1: "propsAnimated c = Some old"
    and h2: "force = Some True \<or>
      truthy (animatedValuePropsChanged deepDiffer (thisProps1 c) nextProps)"
    and h3: "\<not> logAnimatedPerf g" by simp_all
  have "attachProps1 deepDiffer nextProps force (c, g) =
      andThen (newAnimatedProps nextProps g)
        (\<lambda>(apNew, g2). andThen (detach (old, g2))
           (\<lambda>(old', g3). Inr (c\<lparr>propsAnimated := Some apNew\<rparr>, g3)))"
    using h1 h3 by (simp add: attachProps1_wholesale [OF h2])
  with h have "andThen (newAnimatedProps nextProps g)
        (\<lambda>(apNew, g2). andThen (detach (old, g2))
           (\<lambda>(old', g3). Inr (c\<lparr>propsAnimated := Some apNew\<rparr>, g3))) = Inr (c', h)"
    by simp
  then obtain apNew g2 old' g3 where
    1: "newAnimatedProps nextProps g = Inr (apNew, g2)"
    and 2: "detach (old, g2) = Inr (old', g3)"
    and 3: "c' = c\<lparr>propsAnimated := Some apNew\<rparr>" "h = g3"
    by (auto simp: andThen_Inr_iff)
  from newAnimatedProps_grows [OF 1] obtain a where
    a: "props apNew = nextProps" "trace g2 = trace g @ a" "list_all isAttachCall a" by blast
  from detach_grows [OF 2] obtain d where
    d: "trace g3 = trace g2 @ d" "list_all isDetachCall d" by (auto simp: grows_def)
  show "\<exists>apNew a d. propsAnimated c' = Some apNew \<and> props apNew = nextProps \<and>
         trace h = trace g @ a @ d \<and> list_all isAttachCall a \<and> list_all isDetachCall d"
    using a d 3 by (intro exI [of _ apNew] exI [of _ a] exI [of _ d]) simp
next
  assume "\<not> logAnimatedPerf g \<and> detachKeys lastProps ks (ap, g) = Inr (ap', g')"
  then show "\<exists>d. trace g' = trace g @ d \<and> list_all isDetachCall d"
    using detachKeys_grows [of lastProps ks "(ap, g)" "(ap', g')"] by (auto simp: grows_def)
next
  assume "\<not> reattach \<and> \<not> animatedDiff deepDiffer (get lastProps k) (get np k) \<and>
    \<not> logAnimatedPerf g"
  then show "updateKeys deepDiffer reattach lastProps [k] ((ap, g), np, lk) =
        Inr ((ap, g), assign k (get lastProps k) np, filter (\<lambda>lastKey. lastKey \<noteq> k) lk)"
    by simp
qed

theorem replace_attaches_then_detaches_witness:
  "replaceProp ''left'' (AnimatedNode 7) (AnimatedNode 8) (styledProps, styledGraph) =
     Inr (styledProps,
          styledGraph\<lparr>trace := [AddChild (AnimatedNode 8), RemoveChild (AnimatedNode 7)]\<rparr>) \<and>
   propsAnimated (mounted1 leafView styledProps False) = Some styledProps \<and>
   \<not> logAnimatedPerf styledGraph \<and>
   attachProps1 differs [(''left'', AnimatedNode 8)] (Some True)
     (mounted1 leafView styledProps False, styledGraph) =
     Inr (mounted1 leafView styledProps False
            \<lparr>propsAnimated := Some
               \<lparr>view = None, props = [(''left'', AnimatedNode 8)], styleProp = None,
                firstValueReturned = False, reattachAll = False, isNative = False,
                nativeTag = 3\<rparr>\<rparr>,
          styledGraph\<lparr>nextId := 4,
            trace := [NodeAttach, AddChild (AnimatedNode 8),
                      RemoveChild (AnimatedStyle 2 (Obj [(''opacity'', Num 1)])),
                      RemoveChild (AnimatedNode 7), RemoveChild (AnimatedNode 9), NodeDetach]\<rparr>) \<and>
   detachKeys (props styledProps) [''top''] (styledProps, styledGraph) =
     Inr (styledProps, styledGraph\<lparr>trace := [RemoveChild (AnimatedNode 9)]\<rparr>) \<and>
   \<not> animatedDiff differs (get (props styledProps) ''top'') (get [(''top'', AnimatedNode 9)] ''top'') \<and>
   updateKeys differs False (props styledProps) [''top'']
     ((styledProps, styledGraph), [(''top'', AnimatedNode 9)], [''top'']) =
     Inr ((styledProps, styledGraph), [(''top'', AnimatedNode 9)], [])"
proof -
  have 1: "replaceProp ''left'' (AnimatedNode 7) (AnimatedNode 8) (styledProps, styledGraph) =
     Inr (styledProps,
          styledGraph\<lparr>trace := [AddChild (AnimatedNode 8), RemoveChild (AnimatedNode 7)]\<rparr>)"
    by (simp add: styledProps_def styledGraph_def replaceProp_def
        attachProp_def attachValueProp_def newAnimatedStyle_def makeValuePropNative_def nodeMakeNative_def attachEventProp_def
        detachProp_def detachValueProp_def detachEventProp_def emit_def leafView_def)
  have 2: "attachProps1 differs [(''left'', AnimatedNode 8)] (Some True)
     (mounted1 leafView styledProps False, styledGraph) =
     Inr (mounted1 leafView styledProps False
            \<lparr>propsAnimated := Some
               \<lparr>view = None, props = [(''left'', AnimatedNode 8)], styleProp = None,
                firstValueReturned = False, reattachAll = False, isNative = False,
                nativeTag = 3\<rparr>\<rparr>,
          styledGraph\<lparr>nextId := 4,
            trace := [NodeAttach, AddChild (AnimatedNode 8),
                      RemoveChild (AnimatedStyle 2 (Obj [(''opacity'', Num 1)])),
                      RemoveChild (AnimatedNode 7), RemoveChild (AnimatedNode 9), NodeDetach]\<rparr>)"
    by (simp add: attachProps1_wholesale styledProps_def styledGraph_def mounted1_def
        animatedValuePropsChanged_def animatedPropsChanged_def animatedValueKeys_def
        keysArray_def differs_def get_def logPerf_def
        newAnimatedProps_def attach_def attachValueProps_def attachEventProps_def
        attachValueProp_def newAnimatedStyle_def attachEventProp_def detach_def disconnectView_def
        detachEventProps_def detachEventProp_def detachValueProps_def detachValueProp_def
        emit_def leafView_def)
  have 3: "detachKeys (props styledProps) [''top''] (styledProps, styledGraph) =
     Inr (styledProps, styledGraph\<lparr>trace := [RemoveChild (AnimatedNode 9)]\<rparr>)"
    by (simp add: styledProps_def styledGraph_def get_def logPerf_def detachProp_def
        detachValueProp_def detachEventProp_def emit_def leafView_def)
  have 4: "\<not> animatedDiff differs (get (props styledProps) ''top'') (get [(''top'', AnimatedNode 9)] ''top'')"
    by (simp add: styledProps_def get_def animatedDiff_def differs_def)
  have 5: "propsAnimated (mounted1 leafView styledProps False) = Some styledProps"
    "\<not> logAnimatedPerf styledGraph"
    by (simp_all add: mounted1_def styledGraph_def)
  have 6: "updateKeys differs False (props styledProps) [''top'']
     ((styledProps, styledGraph), [(''top'', AnimatedNode 9)], [''top'']) =
     Inr ((styledProps, styledGraph), [(''top'', AnimatedNode 9)], [])"
    using replace_attaches_then_detaches
      [where reattach = False and deepDiffer = differs and lastProps = "props styledProps"
         and k = "''top''" and np = "[(''top'', AnimatedNode 9)]" and g = styledGraph
         and ap = styledProps and lk = "[''top'']"]
      4 5(2)
    by (simp add: styledProps_def get_def)
  show ?thesis using 1 2 3 4 5 6 by simp
qed

text \<open>
  C6 as stated fails for a changed key: \<^verbatim>\<open>left\<close> changes from node 7 to node 8, and
  node 8 is attached before node 7 is detached.
\<close>

theorem replace_order_counterexample:
  "updateProps differs
     [(''style'', Obj [(''opacity'', Num 1)]), (''left'', AnimatedNode 8), (''top'', AnimatedNode 9)]
     (styledProps, styledGraph) =
     Inr (styledProps\<lparr>props :=
            [(''style'', Obj [(''opacity'', Num 1)]), (''left'', AnimatedNode 8),
             (''top'', AnimatedNode 9)]\<rparr>,
          styledGraph\<lparr>trace := [AddChild (AnimatedNode 8), RemoveChild (AnimatedNode 7)]\<rparr>)"
  by (simp add: styledProps_def styledGraph_def updateProps_def animatedKeys_def get_def
      animatedDiff_def differs_def logPerf_def replaceProp_def
      attachProp_def attachValueProp_def newAnimatedStyle_def makeValuePropNative_def nodeMakeNative_def attachEventProp_def
      detachProp_def detachValueProp_def detachEventProp_def emit_def leafView_def)

subsection \<open>Resolving the bag\<close>

text \<open>
  C7, as amended. For a bag with distinct keys whose style composite is cached when it
  has a \<^verbatim>\<open>style\<close> key, \<^verbatim>\<open>__getValue()\<close> sets the marker and returns, in the order
  of the bag: for an AnimatedStyle (the composite under \<^verbatim>\<open>style\<close>), its current
  value, native or not; for another animated node, its current value when it is not
  native and no entry when it is; for an AnimatedEvent, its handler; for a plain value,
  the value.
\<close>

theorem getValue_snapshot:
  assumes "distinct (map fst (props ap))" "styleOk ap"
  shows "getValue (ap, g) = (ap\<lparr>firstValueReturned := True\<rparr>, Inr (snapshot ap g)) \<and>
    (\<forall>(k, v) \<in> set (props ap).
       k \<noteq> ''style'' \<longrightarrow>
         map_of (snapshot ap g) k =
           (if isAnimatedStyle v then Some (GetValue v)
            else if isAnimatedNode v then
              (if nodeId v \<in> nativeNodes g then None else Some (GetValue v))
            else if isAnimatedEvent v then Some (GetHandler v)
            else Some (Static v))) \<and>
    (\<forall>composite. ''style'' \<in> set (map fst (props ap)) \<and> styleProp ap = Some composite \<and>
       isAnimatedStyle composite \<longrightarrow>
         map_of (snapshot ap g) ''style'' = Some (GetValue composite))"
proof (intro conjI ballI allI impI)
  show "getValue (ap, g) = (ap\<lparr>firstValueReturned := True\<rparr>, Inr (snapshot ap g))"
    using getValue_resolved [OF assms] by (simp add: snapshot_def)
next
  fix kv
  assume mem: "kv \<in> set (props ap)"
  obtain k v where kv1: "kv = (k, v)" by (cases kv)
  with mem have kv: "kv = (k, v)" "(k, v) \<in> set (props ap)" by simp_all
  show "case kv of (k, v) \<Rightarrow>
       k \<noteq> ''style'' \<longrightarrow>
         map_of (snapshot ap g) k =
           (if isAnimatedStyle v then Some (GetValue v)
            else if isAnimatedNode v then
              (if nodeId v \<in> nativeNodes g then None else Some (GetValue v))
            else if isAnimatedEvent v then Some (GetHandler v)
            else Some (Static v))"
    using map_of_snapshot [OF assms(1) kv(2), of g]
    by (simp add: kv(1) resolveEntry_def styleValue_def)
next
  fix composite
  assume h: "''style'' \<in> set (map fst (props ap)) \<and> styleProp ap = Some composite \<and>
       isAnimatedStyle composite"
  then obtain v where "(''style'', v) \<in> set (props ap)" by auto
  from map_of_snapshot [OF assms(1) this, of g] h
  show "map_of (snapshot ap g) ''style'' = Some (GetValue composite)"
    by (simp add: resolveEntry_def styleValue_def)
qed

theorem getValue_snapshot_witness:
  "distinct (map fst (props styledNativeProps)) \<and> styleOk styledNativeProps \<and>
   getValue (styledNativeProps, nativeGraph) =
     (styledNativeProps\<lparr>firstValueReturned := True\<rparr>,
      Inr [(''style'', GetValue (AnimatedStyle 2 (Obj [(''opacity'', AnimatedNode 7)]))),
           (''top'', GetValue (AnimatedNode 9)),
           (''onScroll'', GetHandler (AnimatedEvent [(''__isNative'', Bool True)] Null)),
           (''collapsable'', Static (Bool True))])"
proof -
  have h: "distinct (map fst (props styledNativeProps))" "styleOk styledNativeProps"
    by (simp_all add: styledNativeProps_def styleOk_def)
  have s: "snapshot styledNativeProps nativeGraph =
      [(''style'', GetValue (AnimatedStyle 2 (Obj [(''opacity'', AnimatedNode 7)]))),
       (''top'', GetValue (AnimatedNode 9)),
       (''onScroll'', GetHandler (AnimatedEvent [(''__isNative'', Bool True)] Null)),
       (''collapsable'', Static (Bool True))]"
    by (simp add: styledNativeProps_def nativeGraph_def snapshot_def
        map_filter_Cons resolveEntry_def styleValue_def List.map_filter_def)
  show ?thesis
    using h getValue_snapshot [OF h, of nativeGraph, THEN conjunct1] by (simp add: s)
qed

text \<open>
  C7 as stated fails for a native style: the composite of the bag is made native by
  \<^verbatim>\<open>__makeNative()\<close>, and \<^verbatim>\<open>__getValue()\<close> still returns the \<^verbatim>\<open>style\<close> key.
\<close>

theorem getValue_native_style_counterexample:
  "andThen (newAnimatedProps [(''style'', Obj [(''opacity'', AnimatedNode 7)])] exampleGraph)
     makeNative =
     Inr (\<lparr>view = None, props = [(''style'', Obj [(''opacity'', AnimatedNode 7)])],
            styleProp = Some (AnimatedStyle 2 (Obj [(''opacity'', AnimatedNode 7)])),
            firstValueReturned = False, reattachAll = False, isNative = True, nativeTag = 1\<rparr>,
          \<lparr>nativeNodes = {2}, nextId = 3,
            trace = [NodeAttach, AddChild (AnimatedStyle 2 (Obj [(''opacity'', AnimatedNode 7)])),
                     MakeNative (AnimatedStyle 2 (Obj [(''opacity'', AnimatedNode 7)]))],
            logAnimatedPerf = False\<rparr>) \<and>
   snd (getValue
     (\<lparr>view = None, props = [(''style'', Obj [(''opacity'', AnimatedNode 7)])],
        styleProp = Some (AnimatedStyle 2 (Obj [(''opacity'', AnimatedNode 7)])),
        firstValueReturned = False, reattachAll = False, isNative = True, nativeTag = 1\<rparr>,
      \<lparr>nativeNodes = {2}, nextId = 3,
        trace = [NodeAttach, AddChild (AnimatedStyle 2 (Obj [(''opacity'', AnimatedNode 7)])),
                 MakeNative (AnimatedStyle 2 (Obj [(''opacity'', AnimatedNode 7)]))],
        logAnimatedPerf = False\<rparr>)) =
     Inr [(''style'', GetValue (AnimatedStyle 2 (Obj [(''opacity'', AnimatedNode 7)])))]"
  by (simp add: newAnimatedProps_def attach_def attachValueProps_def attachEventProps_def
      attachValueProp_def newAnimatedStyle_def attachEventProp_def emit_def exampleGraph_def makeNative_def
      makeValuePropsNative_def makeValuePropNative_def nodeMakeNative_def connectView_def
      getValue_def getValueStep_def styleOr_def Let_def numeral_2_eq_2 numeral_3_eq_3)



subsection \<open>Rebinding the view\<close>

text \<open>
  C9. \<^verbatim>\<open>updateView(v)\<close> with the view that is already bound returns at once: the
  instance and the world are as before, so no call reaches the backend. With another
  view, and the views locatable in the native tree when the instance is native, it
  detaches the native events from the old view, disconnects the node from the old view,
  rebinds, connects the node to the new view (when native), and attaches the native
  events to the new view, in that order. When a view cannot be located, it throws the
  invariant.
\<close>

theorem updateView_same_or_rebind:
  "updateView (view ap) (ap, g) = Inr (ap, g) \<and>
   (nextView \<noteq> view ap \<and> locatable ap (view ap) \<and> locatable ap nextView \<longrightarrow>
      updateView nextView (ap, g) =
        Inr (ap\<lparr>view := nextView\<rparr>,
             g\<lparr>trace := trace g
                  @ eventCalls EventDetach (view ap) (props ap)
                  @ viewCalls DisconnectAnimatedNodeFromView ap (view ap)
                  @ viewCalls ConnectAnimatedNodeToView ap nextView
                  @ eventCalls EventAttach nextView (props ap)\<rparr>)) \<and>
   (nextView \<noteq> view ap \<and> \<not> (locatable ap (view ap) \<and> locatable ap nextView) \<longrightarrow>
      updateView nextView (ap, g) =
        Inl (Invariant ''Unable to locate view in the native tree''))"
proof (intro conjI impI)
  show "updateView (view ap) (ap, g) = Inr (ap, g)"
    by (simp add: updateView_def)
next
  assume h: "nextView \<noteq> view ap \<and> locatable ap (view ap) \<and> locatable ap nextView"
  then show "updateView nextView (ap, g) =
        Inr (ap\<lparr>view := nextView\<rparr>,
             g\<lparr>trace := trace g
                  @ eventCalls EventDetach (view ap) (props ap)
                  @ viewCalls DisconnectAnimatedNodeFromView ap (view ap)
                  @ viewCalls ConnectAnimatedNodeToView ap nextView
                  @ eventCalls EventAttach nextView (props ap)\<rparr>)"
    by (auto simp: updateView_def detachEventProps_def attachEventProps_def
        forEach_detachEventProp forEach_attachEventProp disconnectView_eq connectView_eq)
next
  assume "nextView \<noteq> view ap \<and> \<not> (locatable ap (view ap) \<and> locatable ap nextView)"
  then show "updateView nextView (ap, g) =
        Inl (Invariant ''Unable to locate view in the native tree'')"
    using updateView_fails [of nextView ap g] by blast
qed

theorem updateView_same_or_rebind_witness:
  "updateView (view scrollEventProps) (scrollEventProps, exampleGraph) =
     Inr (scrollEventProps, exampleGraph) \<and>
   Some scrollView \<noteq> view scrollEventProps \<and>
   locatable scrollEventProps (view scrollEventProps) \<and>
   locatable scrollEventProps (Some scrollView) \<and>
   updateView (Some scrollView) (scrollEventProps, exampleGraph) =
     Inr (scrollEventProps\<lparr>view := Some scrollView\<rparr>,
          exampleGraph\<lparr>trace :=
            [EventDetach (AnimatedEvent [(''__isNative'', Bool True)] Null) (TheView 10) ''onScroll'',
             DisconnectAnimatedNodeFromView 1 100,
             ConnectAnimatedNodeToView 1 102,
             EventAttach (AnimatedEvent [(''__isNative'', Bool True)] Null) (ScrollableNode 50)
               ''onScroll'']\<rparr>)"
  using updateView_same_or_rebind
    [where ap = scrollEventProps and g = exampleGraph and nextView = "Some scrollView"]
  by (simp add: scrollEventProps_def scrollView_def leafView_def exampleGraph_def locatable_def
      eventCalls_def nativeEventProps_def viewCalls_def scrollableView_def get_def)

subsection \<open>Rendering\<close>

text \<open>
  C10. For an instance whose bag resolves, \<^verbatim>\<open>render()\<close> of either variant passes
  \<^verbatim>\<open>collapsable = false\<close> when the instance is native, whatever the caller gave, and
  otherwise what the resolved bag holds for \<^verbatim>\<open>collapsable\<close>, which is the caller's
  value when that is a plain value; every other prop is the resolved one.
\<close>

theorem render_collapsable:
  assumes "distinct (map fst (props ap))" "styleOk ap"
  shows "(propsAnimated c = Some ap \<longrightarrow>
            (\<exists>c' el. render1 (c, g) = Inr (c', el) \<and>
               getOut el ''collapsable'' =
                 (if isNative ap then Static (Bool False)
                  else if isPlain (get (props ap) ''collapsable'')
                       then Static (get (props ap) ''collapsable'')
                       else getOut (snapshot ap g) ''collapsable'') \<and>
               (\<forall>k. k \<noteq> ''collapsable'' \<longrightarrow> getOut el k = getOut (snapshot ap g) k))) \<and>
         (animatedProps2 d = Some ap \<longrightarrow>
            (\<exists>d' el. render2 (d, g) = Inr (d', el) \<and>
               getOut el ''collapsable'' =
                 (if isNative ap then Static (Bool False)
                  else if isPlain (get (props ap) ''collapsable'')
                       then Static (get (props ap) ''collapsable'')
                       else getOut (snapshot ap g) ''collapsable'') \<and>
               (\<forall>k. k \<noteq> ''collapsable'' \<longrightarrow> getOut el k = getOut (snapshot ap g) k)))"
proof -
  have plain: "isPlain (get (props ap) ''collapsable'') \<Longrightarrow>
      getOut (snapshot ap g) ''collapsable'' = Static (get (props ap) ''collapsable'')"
    unfolding snapshot_def by (rule getOut_snapshot_plain) simp_all
  show ?thesis
    using plain
    by (auto simp: render1_def render2_def renderWith_eq [OF assms]
        getOut_assign_same getOut_assign_other)
qed

theorem render_collapsable_witness:
  "distinct (map fst (props styledNativeProps)) \<and> styleOk styledNativeProps \<and>
   render1 (mounted1 leafView styledNativeProps False, nativeGraph) =
     Inr (mounted1 leafView (styledNativeProps\<lparr>firstValueReturned := True\<rparr>) False,
          [(''style'', GetValue (AnimatedStyle 2 (Obj [(''opacity'', AnimatedNode 7)]))),
           (''top'', GetValue (AnimatedNode 9)),
           (''onScroll'', GetHandler (AnimatedEvent [(''__isNative'', Bool True)] Null)),
           (''collapsable'', Static (Bool False))]) \<and>
   render2 (mounted2 leafView (styledNativeProps\<lparr>isNative := False\<rparr>), nativeGraph) =
     Inr (mounted2 leafView (styledNativeProps\<lparr>isNative := False, firstValueReturned := True\<rparr>),
          [(''style'', GetValue (AnimatedStyle 2 (Obj [(''opacity'', AnimatedNode 7)]))),
           (''top'', GetValue (AnimatedNode 9)),
           (''onScroll'', GetHandler (AnimatedEvent [(''__isNative'', Bool True)] Null)),
           (''collapsable'', Static (Bool True))])"
proof -
  have h: "distinct (map fst (props styledNativeProps))" "styleOk styledNativeProps"
    by (simp_all add: styledNativeProps_def styleOk_def)
  have r1: "render1 (mounted1 leafView styledNativeProps False, nativeGraph) =
     Inr (mounted1 leafView (styledNativeProps\<lparr>firstValueReturned := True\<rparr>) False,
          [(''style'', GetValue (AnimatedStyle 2 (Obj [(''opacity'', AnimatedNode 7)]))),
           (''top'', GetValue (AnimatedNode 9)),
           (''onScroll'', GetHandler (AnimatedEvent [(''__isNative'', Bool True)] Null)),
           (''collapsable'', Static (Bool False))])"
    by (simp add: styledNativeProps_def nativeGraph_def mounted1_def
        render1_def renderWith_def getValue_def getValueStep_def styleOr_def)
  have r2: "render2 (mounted2 leafView (styledNativeProps\<lparr>isNative := False\<rparr>), nativeGraph) =
     Inr (mounted2 leafView (styledNativeProps\<lparr>isNative := False, firstValueReturned := True\<rparr>),
          [(''style'', GetValue (AnimatedStyle 2 (Obj [(''opacity'', AnimatedNode 7)]))),
           (''top'', GetValue (AnimatedNode 9)),
           (''onScroll'', GetHandler (AnimatedEvent [(''__isNative'', Bool True)] Null)),
           (''collapsable'', Static (Bool True))])"
    by (simp add: styledNativeProps_def nativeGraph_def mounted2_def
        render2_def renderWith_def getValue_def getValueStep_def styleOr_def getOut_def)
  show ?thesis
    using h r1 r2
      render_collapsable [OF h, where c = "mounted1 leafView styledNativeProps False"
        and d = "mounted2 leafView styledNativeProps" and g = nativeGraph]
    by simp
qed

end
